(* ===== verification/Prelude.thy ===== *)
theory Prelude
  imports
    Main
    "HOL-Library.AList"
    "HOL-Library.Multiset"
    "HOL-Library.Signed_Division"
    "HOL-Library.Word"
begin

text \<open>
  What the components share: Go's results (a value, or a panic of the goroutine), Go's
  \<open>error\<close> values, the 64-bit integers of the target, slices, maps with their
  unspecified iteration order, and the lemma collections the component proofs use.
\<close>

named_theorems go_simps \<open>evaluation of the embedding of Go: binds, slices, wrap-around\<close>
named_theorems map_simps \<open>laws of the association lists that stand for Go maps\<close>
named_theorems inv_intros \<open>preservation of component invariants\<close>

section \<open>Panics, errors, results\<close>

text \<open>
  A Go \<open>error\<close>: a library's error value carried along (with the class of it the code
  inspects, an API status error or another one), or \<open>fmt.Errorf\<close> of a message around
  the error it wraps with \<open>%v\<close>.
\<close>

datatype goerror =
    StatusError string
  | OtherError string
  | Errorf string "goerror option"

text \<open>
  A panic ends the goroutine; the constructors are the run-time checks of the language, a call
  of \<open>panic\<close> with an error, and \<open>ProcessExit\<close>, which is \<open>log.Fatalf\<close> and ends the process.
\<close>

datatype panic =
    SliceBounds
  | IndexOutOfRange
  | NilDereference
  | NilMapAssignment
  | TypeAssertion
  | CloseOfClosedChannel
  | Panicked goerror
  | ProcessExit

type_synonym 'a go = "panic + 'a"

definition go_bind :: "'a go \<Rightarrow> ('a \<Rightarrow> 'b go) \<Rightarrow> 'b go" where
  "go_bind m f = (case m of Inl p \<Rightarrow> Inl p | Inr x \<Rightarrow> f x)"

definition panics :: "'a go \<Rightarrow> bool" where
  "panics m = (case m of Inl p \<Rightarrow> True | Inr x \<Rightarrow> False)"

lemma go_bind_simps [simp, go_simps]:
  "go_bind (Inl p) f = Inl p"
  "go_bind (Inr x) f = f x"
  by (simp_all add: go_bind_def)

lemma go_bind_Inr_iff: "go_bind m f = Inr y \<longleftrightarrow> (\<exists>x. m = Inr x \<and> f x = Inr y)"
  by (cases m) auto

lemma go_bind_Inl_iff:
  "go_bind m f = Inl p \<longleftrightarrow> m = Inl p \<or> (\<exists>x. m = Inr x \<and> f x = Inl p)"
  by (cases m) auto

lemma panics_simps [simp, go_simps]: "panics (Inl p)" "\<not> panics (Inr x)"
  by (simp_all add: panics_def)

lemma not_panics_iff: "\<not> panics m \<longleftrightarrow> (\<exists>x. m = Inr x)"
  by (cases m) auto

section \<open>Integers\<close>

text \<open>
  \<open>int\<close> and \<open>int64\<close> are 64 bits wide. Values are kept as \<open>int\<close>; an operation
  that can leave the range goes through \<open>wrap64\<close>, the signed value of the low 64 bits.
\<close>

type_synonym int64 = "64 word"

definition wrap64 :: "int \<Rightarrow> int" where
  "wrap64 x = sint (word_of_int x :: int64)"

definition int64_range :: "int set" where
  "int64_range = {- (2 ^ 63) ..< 2 ^ 63}"

lemma wrap64_id [simp]: "- (2 ^ 63) \<le> x \<Longrightarrow> x < 2 ^ 63 \<Longrightarrow> wrap64 x = x"
  by (simp add: wrap64_def sint_sbintrunc' signed_take_bit_int_eq_self)

lemma wrap64_in_range: "wrap64 x \<in> int64_range"
  using sint_ge [of "word_of_int x :: int64"] sint_lt [of "word_of_int x :: int64"]
  by (simp add: wrap64_def int64_range_def)

lemma wrap64_eq_mod: "wrap64 x = (x + 2 ^ 63) mod 2 ^ 64 - 2 ^ 63"
  by (simp add: wrap64_def sint_sbintrunc' signed_take_bit_eq_take_bit_shift take_bit_eq_mod)

lemma int_div_bounds:
  fixes x d :: int
  assumes "0 < d"
  shows "x div d * d \<le> x" and "x < (x div d + 1) * d"
proof -
  have "x = x div d * d + x mod d" "0 \<le> x mod d" "x mod d < d"
    using assms by simp_all
  then show "x div d * d \<le> x" "x < (x div d + 1) * d"
    unfolding distrib_right mult_1_left by linarith+
qed

lemma int_div_unique:
  fixes x d i :: int
  assumes "i * d \<le> x" "x < (i + 1) * d"
  shows "x div d = i"
  by (rule int_div_pos_eq [of _ _ _ "x - i * d"]) (use assms in \<open>simp_all add: algebra_simps\<close>)

section \<open>Slices\<close>

text \<open>
  \<open>s[lo:hi]\<close>. The language checks \<open>hi\<close> against the capacity; the model checks it
  against the length, which is stricter, and the callers are shown to stay within it.
\<close>

definition go_slice :: "'a list \<Rightarrow> int \<Rightarrow> int \<Rightarrow> 'a list go" where
  "go_slice xs lo hi =
     (if 0 \<le> lo \<and> lo \<le> hi \<and> hi \<le> int (length xs)
      then Inr (take (nat (hi - lo)) (drop (nat lo) xs))
      else Inl SliceBounds)"

definition go_index :: "'a list \<Rightarrow> int \<Rightarrow> 'a go" where
  "go_index xs i =
     (if 0 \<le> i \<and> i < int (length xs) then Inr (xs ! nat i) else Inl IndexOutOfRange)"

lemma go_slice_ok [go_simps]:
  "0 \<le> lo \<Longrightarrow> lo \<le> hi \<Longrightarrow> hi \<le> int (length xs)
   \<Longrightarrow> go_slice xs lo hi = Inr (take (nat (hi - lo)) (drop (nat lo) xs))"
  by (simp add: go_slice_def)

lemma go_index_ok [go_simps]:
  "0 \<le> i \<Longrightarrow> i < int (length xs) \<Longrightarrow> go_index xs i = Inr (xs ! nat i)"
  by (simp add: go_index_def)

section \<open>Maps\<close>

text \<open>
  A Go map is an association list with distinct keys: \<open>map_of\<close> looks a key up,
  \<open>AList.update\<close> stores, \<open>AList.delete\<close> deletes, the length is \<open>len\<close>.
\<close>

type_synonym ('k, 'v) gomap = "('k \<times> 'v) list"

definition mwf :: "('k, 'v) gomap \<Rightarrow> bool" where
  "mwf m = distinct (map fst m)"

abbreviation mkeys :: "('k, 'v) gomap \<Rightarrow> 'k set" where
  "mkeys m \<equiv> fst ` set m"

lemma mwf_Nil [simp, inv_intros]: "mwf []"
  by (simp add: mwf_def)

lemma mwf_update [simp, inv_intros]: "mwf m \<Longrightarrow> mwf (AList.update k v m)"
  unfolding mwf_def by (rule distinct_update)

lemma mwf_delete [simp, inv_intros]: "mwf m \<Longrightarrow> mwf (AList.delete k m)"
  unfolding mwf_def by (rule distinct_delete)

lemma mkeys_update [map_simps]: "mkeys (AList.update k v m) = insert k (mkeys m)"
  using dom_update [of k v m] by simp

lemma mkeys_delete [map_simps]: "mkeys (AList.delete k m) = mkeys m - {k}"
  by (induction m) auto

lemma lookup_update [map_simps]:
  "map_of (AList.update k v m) k' = (if k' = k then Some v else map_of m k')"
  by (simp add: update_conv)

lemma lookup_delete [map_simps]:
  "map_of (AList.delete k m) k' = (if k' = k then None else map_of m k')"
  by (simp add: delete_conv)

lemma mkeys_None: "map_of m k = None \<longleftrightarrow> k \<notin> mkeys m"
  by (rule map_of_eq_None_iff)

lemma mkeys_lookup: "k \<in> mkeys m \<longleftrightarrow> (\<exists>v. map_of m k = Some v)"
  by (metis mkeys_None not_None_eq)

lemma mwf_length: "mwf m \<Longrightarrow> length m = card (mkeys m)"
  unfolding mwf_def by (metis distinct_card length_map list.set_map)

lemma mwf_lookup: "mwf m \<Longrightarrow> (k, v) \<in> set m \<longleftrightarrow> map_of m k = Some v"
  by (simp add: mwf_def map_of_eq_Some_iff)

lemma update_new_key: "k \<notin> mkeys m \<Longrightarrow> AList.update k v m = m @ [(k, v)]"
  by (induction m) auto

lemma map_value_key:
  assumes "distinct (map snd m)" and "map_of m k = Some v" and "map_of m k' = Some v"
  shows "k = k'"
  using inj_onD [of snd "set m" "(k, v)" "(k', v)"] assms map_of_SomeD [of m] by (simp add: distinct_map)

text \<open>
  \<open>range\<close> over a map visits its entries in an order the language leaves open. The order
  of one execution is a parameter, a function that permutes the list of keys.
\<close>

type_synonym 'k range_order = "'k list \<Rightarrow> 'k list"

definition range_order :: "'k range_order \<Rightarrow> bool" where
  "range_order ro = (\<forall>ks. mset (ro ks) = mset ks)"

definition mrange :: "'k range_order \<Rightarrow> ('k, 'v) gomap \<Rightarrow> ('k \<times> 'v) list" where
  "mrange ro m = map (\<lambda>k. (k, the (map_of m k))) (ro (map fst m))"

lemma range_order_id [simp]: "range_order (\<lambda>ks. ks)"
  by (simp add: range_order_def)

lemma range_order_rev [simp]: "range_order rev"
  by (simp add: range_order_def)

lemma range_order_mset: "range_order ro \<Longrightarrow> mset (ro ks) = mset ks"
  by (simp add: range_order_def)

lemma range_order_set: "range_order ro \<Longrightarrow> set (ro ks) = set ks"
  by (metis range_order_mset set_mset_mset)

lemma range_order_distinct: "range_order ro \<Longrightarrow> distinct (ro ks) = distinct ks"
  by (metis range_order_mset mset_eq_imp_distinct_iff)

lemma mrange_keys: "map fst (mrange ro m) = ro (map fst m)"
  by (simp add: mrange_def comp_def)

lemma mset_mrange:
  assumes "mwf m" and "range_order ro"
  shows "mset (mrange ro m) = mset m"
proof -
  have "mset (mrange ro m) = image_mset (\<lambda>k. (k, the (map_of m k))) (mset (map fst m))"
    using assms(2) by (simp add: mrange_def range_order_mset)
  also have "\<dots> = mset (map (\<lambda>e. (fst e, the (map_of m (fst e)))) m)"
    by (simp add: image_mset.compositionality comp_def)
  also have "map (\<lambda>e. (fst e, the (map_of m (fst e)))) m = m"
    using assms(1) by (auto simp: mwf_def intro!: map_idI)
  finally show ?thesis .
qed

lemma set_mrange: "mwf m \<Longrightarrow> range_order ro \<Longrightarrow> set (mrange ro m) = set m"
  by (metis mset_mrange set_mset_mset)

lemma length_mrange: "mwf m \<Longrightarrow> range_order ro \<Longrightarrow> length (mrange ro m) = length m"
  by (metis mset_mrange size_mset)

lemma mwf_mrange: "mwf m \<Longrightarrow> range_order ro \<Longrightarrow> mwf (mrange ro m)"
  by (simp add: mwf_def mrange_keys range_order_distinct)

lemma map_of_mrange: "mwf m \<Longrightarrow> range_order ro \<Longrightarrow> map_of (mrange ro m) = map_of m"
  by (metis mset_mrange mwf_def mwf_mrange map_of_inject_set set_mset_mset)

end
