(* ===== verification/GoText.thy ===== *)
theory GoText
  imports Prelude
begin

text \<open>
  The text functions of Go's standard library that the program calls: \<open>%d\<close> of
  \<open>fmt.Sprintf\<close>, \<open>strings.Split\<close> on a one-byte separator,
  \<open>bytes.LastIndexAny\<close> for one byte, and \<open>strconv.ParseInt(s, 10, 64)\<close>.
  Strings are lists of bytes.
\<close>

section \<open>Decimal digits\<close>

definition digit_char :: "nat \<Rightarrow> char" where
  "digit_char d = char_of (48 + d)"

definition is_digit :: "char \<Rightarrow> bool" where
  "is_digit c = (48 \<le> (of_char c :: nat) \<and> (of_char c :: nat) \<le> 57)"

definition digit_val :: "char \<Rightarrow> nat" where
  "digit_val c = of_char c - 48"

fun show_nat :: "nat \<Rightarrow> string" where
  "show_nat n = (if n < 10 then [digit_char n] else show_nat (n div 10) @ [digit_char (n mod 10)])"

declare show_nat.simps [simp del]

definition show_int :: "int \<Rightarrow> string" where
  "show_int i = (if i < 0 then CHR ''-'' # show_nat (nat (- i)) else show_nat (nat i))"

fun digits_value :: "nat \<Rightarrow> string \<Rightarrow> nat" where
  "digits_value acc [] = acc"
| "digits_value acc (c # cs) = digits_value (10 * acc + digit_val c) cs"

lemma of_char_digit [simp]: "d < 10 \<Longrightarrow> of_char (digit_char d) = (48 + d :: nat)"
  by (simp add: digit_char_def)

lemma is_digit_char [simp]: "d < 10 \<Longrightarrow> is_digit (digit_char d)"
  by (simp add: is_digit_def)

lemma digit_val_char [simp]: "d < 10 \<Longrightarrow> digit_val (digit_char d) = d"
  by (simp add: digit_val_def)

lemma is_digit_not_dash [simp]: "is_digit c \<Longrightarrow> c \<noteq> CHR ''-''"
  by (auto simp: is_digit_def)

lemma is_digit_not_plus [simp]: "is_digit c \<Longrightarrow> c \<noteq> CHR ''+''"
  by (auto simp: is_digit_def)

lemma show_nat_digits: "c \<in> set (show_nat n) \<Longrightarrow> is_digit c"
proof (induction n rule: show_nat.induct)
  case (1 n)
  then show ?case
    by (cases "n < 10") (auto simp: show_nat.simps [of n])
qed

lemma show_nat_nonempty [simp]: "show_nat n \<noteq> []"
  by (subst show_nat.simps) simp

lemma show_nat_no_dash: "CHR ''-'' \<notin> set (show_nat n)"
  using show_nat_digits is_digit_not_dash by blast

lemma digits_value_append: "digits_value acc (xs @ ys) = digits_value (digits_value acc xs) ys"
  by (induction xs arbitrary: acc) auto

lemma digits_value_show_nat: "digits_value 0 (show_nat n) = n"
proof (induction n rule: show_nat.induct)
  case (1 n)
  then show ?case
    by (cases "n < 10") (simp_all add: show_nat.simps [of n] digits_value_append)
qed

lemma show_nat_inject [simp]: "show_nat m = show_nat n \<longleftrightarrow> m = n"
  by (metis digits_value_show_nat)

lemma show_int_nonneg: "0 \<le> i \<Longrightarrow> show_int i = show_nat (nat i)"
  by (simp add: show_int_def)

lemma hd_show_nat: "is_digit (hd (show_nat n))"
  by (rule show_nat_digits [of _ n]) simp

lemma show_int_inject [simp]: "show_int i = show_int j \<longleftrightarrow> i = j"
proof
  assume eq: "show_int i = show_int j"
  have neg: "CHR ''-'' # xs \<noteq> show_nat n" for xs n
    using show_nat_no_dash [of n] by (metis list.set_intros(1))
  show "i = j"
    using eq neg neg [symmetric] by (auto simp: show_int_def split: if_splits)
qed simp

section \<open>strings.Split\<close>

fun go_split :: "char \<Rightarrow> string \<Rightarrow> string list" where
  "go_split sep [] = [[]]"
| "go_split sep (c # cs) =
     (if c = sep then [] # go_split sep cs
      else (case go_split sep cs of [] \<Rightarrow> [[c]] | p # ps \<Rightarrow> (c # p) # ps))"

lemma go_split_nonempty [simp]: "go_split sep s \<noteq> []"
  by (induction s) (auto split: list.splits)

lemma go_split_single: "sep \<notin> set s \<Longrightarrow> go_split sep s = [s]"
  by (induction s) auto

lemma go_split_append: "go_split sep (a @ sep # b) = go_split sep a @ go_split sep b"
  by (induction a) (auto split: list.splits)

lemma length_go_split: "length (go_split sep s) = Suc (count_list s sep)"
  by (induction s) (auto split: list.splits dest: arg_cong [of _ _ length])

lemma go_split_last_no_sep: "sep \<notin> set (last (go_split sep s))"
proof (induction s)
  case (Cons c cs)
  then show ?case by (auto split: list.splits if_splits)
qed simp

section \<open>Last occurrence of a byte\<close>

fun last_index :: "char \<Rightarrow> string \<Rightarrow> int" where
  "last_index b [] = - 1"
| "last_index b (c # cs) =
     (let i = last_index b cs in if i \<noteq> - 1 then i + 1 else if c = b then 0 else - 1)"

lemma last_index_ge: "- 1 \<le> last_index b s"
  by (induction s) (auto simp: Let_def)

lemma last_index_less: "last_index b s < int (length s)"
  by (induction s) (auto simp: Let_def)

lemma last_index_absent: "last_index b s = - 1 \<longleftrightarrow> b \<notin> set s"
proof (induction s)
  case (Cons c cs)
  then show ?case using last_index_ge [of b cs] by (auto simp: Let_def)
qed simp

lemma last_index_append: "b \<notin> set t \<Longrightarrow> last_index b (s @ b # t) = int (length s)"
proof (induction s)
  case Nil
  then show ?case by (simp add: Let_def last_index_absent [THEN iffD2])
next
  case (Cons c cs)
  then show ?case by (simp add: Let_def)
qed

section \<open>strconv.ParseInt with base 10 and 64 bits\<close>

datatype num_error = ErrSyntax | ErrRange

text \<open>
  \<open>ParseUint\<close> reads digit by digit and stops at the first byte that is no digit
  or at the first digit that leaves 64 bits. \<open>ParseInt\<close> takes an optional sign, and
  clamps a value out of the signed range and reports \<open>ErrRange\<close>. As in Go the
  functions return the value and the error.
\<close>

fun parse_uint_loop :: "nat \<Rightarrow> string \<Rightarrow> nat \<times> num_error option" where
  "parse_uint_loop n [] = (n, None)"
| "parse_uint_loop n (c # cs) =
     (if \<not> is_digit c then (0, Some ErrSyntax)
      else if 2 ^ 64 \<le> 10 * n + digit_val c then (2 ^ 64 - 1, Some ErrRange)
      else parse_uint_loop (10 * n + digit_val c) cs)"

definition parse_uint :: "string \<Rightarrow> nat \<times> num_error option" where
  "parse_uint s = (if s = [] then (0, Some ErrSyntax) else parse_uint_loop 0 s)"

definition parse_int :: "string \<Rightarrow> int \<times> num_error option" where
  "parse_int s =
     (if s = [] then (0, Some ErrSyntax)
      else
        let neg = (hd s = CHR ''-'');
            ds = (if hd s = CHR ''+'' \<or> hd s = CHR ''-'' then tl s else s);
            (un, err) = parse_uint ds
        in if err = Some ErrSyntax then (0, err)
           else if \<not> neg \<and> 2 ^ 63 \<le> un then (2 ^ 63 - 1, Some ErrRange)
           else if neg \<and> 2 ^ 63 < un then (- (2 ^ 63), Some ErrRange)
           else (if neg then - int un else int un, None))"

lemma digits_value_ge: "n \<le> digits_value n cs"
proof (induction cs arbitrary: n)
  case (Cons c cs)
  have "10 * n + digit_val c \<le> digits_value (10 * n + digit_val c) cs"
    by (rule Cons.IH)
  then show ?case by simp
qed simp

lemma parse_uint_loop_ok:
  "list_all is_digit s \<Longrightarrow> digits_value n s < 2 ^ 64
   \<Longrightarrow> parse_uint_loop n s = (digits_value n s, None)"
proof (induction s arbitrary: n)
  case (Cons c cs)
  then show ?case using digits_value_ge [of "10 * n + digit_val c" cs] by simp
qed simp

lemma parse_uint_loop_None:
  "snd (parse_uint_loop n s) = None \<Longrightarrow> list_all is_digit s"
  by (induction s arbitrary: n) (auto split: if_splits)

lemma parse_int_show_nat:
  assumes "int n < 2 ^ 63"
  shows "parse_int (show_nat n) = (int n, None)"
proof -
  have "list_all is_digit (show_nat n)"
    by (simp add: list_all_iff show_nat_digits)
  then have "parse_uint (show_nat n) = (n, None)"
    using assms by (simp add: parse_uint_def parse_uint_loop_ok digits_value_show_nat)
  moreover have "hd (show_nat n) \<noteq> CHR ''+''" "hd (show_nat n) \<noteq> CHR ''-''"
    using hd_show_nat [of n] by auto
  ultimately show ?thesis
    using assms by (simp add: parse_int_def)
qed

lemma parse_int_in_range: "fst (parse_int s) \<in> int64_range"
  by (auto simp: parse_int_def int64_range_def Let_def split: prod.splits)

lemma parse_int_Nil [simp]: "parse_int [] = (0, Some ErrSyntax)"
  by (simp add: parse_int_def)

end
