(* ===== verification/Config.thy ===== *)
theory Config
  imports GoText
begin

text \<open>
  The package \<open>pkg/config\<close>: jobs, workloads (the jobs of one worker), the assignation of
  workloads to workers, and their comparison. A pointer is an option, \<open>None\<close> is nil;
  the \<open>Version\<close> fields are \<open>int64\<close>.
\<close>

section \<open>Data\<close>

datatype job = Job (job_string: string)

record workload =
  wl_jobs :: "job list"
  wl_version :: int

record workloads =
  ws_workloads :: "(string, workload option) gomap"
  ws_version :: int

section \<open>Comparison\<close>

fun toMap_loop :: "(string, unit) gomap \<Rightarrow> job list \<Rightarrow> (string, unit) gomap" where
  "toMap_loop res [] = res"
| "toMap_loop res (s # ss) = toMap_loop (AList.update (job_string s) () res) ss"

definition toMap :: "job list \<Rightarrow> (string, unit) gomap" where
  "toMap ss = toMap_loop [] ss"

text \<open>The loops of \<open>Difference\<close>: the jobs that are no key of the map, in order.\<close>

fun missing_loop :: "(string, unit) gomap \<Rightarrow> job list \<Rightarrow> job list \<Rightarrow> job list" where
  "missing_loop m acc [] = acc"
| "missing_loop m acc (k # ks) =
     (case map_of m (job_string k) of
        None \<Rightarrow> missing_loop m (acc @ [k]) ks
      | Some _ \<Rightarrow> missing_loop m acc ks)"

text \<open>The pair is (included, excluded), as the named results of the source.\<close>

definition Difference :: "workload option \<Rightarrow> workload option \<Rightarrow> (job list \<times> job list) go" where
  "Difference a newWorkload =
     (case newWorkload of
        None \<Rightarrow> Inl NilDereference
      | Some n \<Rightarrow>
          (case a of
             None \<Rightarrow> Inl NilDereference
           | Some w \<Rightarrow>
               let newAssigned = toMap (wl_jobs n);
                   excluded = missing_loop newAssigned [] (wl_jobs w);
                   assigned = toMap (wl_jobs w);
                   included = missing_loop assigned [] (wl_jobs n)
               in Inr (included, excluded)))"

definition Workload_Equals :: "workload option \<Rightarrow> workload option \<Rightarrow> bool go" where
  "Workload_Equals a wrk =
     (case wrk of
        None \<Rightarrow> Inr False
      | Some w \<Rightarrow>
          (case a of
             None \<Rightarrow> Inl NilDereference
           | Some v \<Rightarrow>
               if length (wl_jobs v) \<noteq> length (wl_jobs w) then Inr False
               else go_bind (Difference a wrk) (\<lambda>(i, e). Inr (length i = 0 \<and> length e = 0))))"

text \<open>The loop over \<open>a.Workloads\<close>, on the entries in the order \<open>range\<close> visits them.\<close>

fun workloads_equals_loop ::
    "(string, workload option) gomap \<Rightarrow> (string \<times> workload option) list \<Rightarrow> bool go" where
  "workloads_equals_loop asg [] = Inr True"
| "workloads_equals_loop asg ((s, w) # rest) =
     (case map_of asg s of
        None \<Rightarrow> Inr False
      | Some v \<Rightarrow>
          go_bind (Workload_Equals v w)
            (\<lambda>eq. if \<not> eq then Inr False else workloads_equals_loop asg rest))"

definition Workloads_Equals ::
    "string range_order \<Rightarrow> workloads option \<Rightarrow> workloads option \<Rightarrow> bool go" where
  "Workloads_Equals ro a asg =
     (case asg of
        None \<Rightarrow> Inr False
      | Some g \<Rightarrow>
          (case a of
             None \<Rightarrow> Inl NilDereference
           | Some w \<Rightarrow>
               if ws_version g \<noteq> ws_version w then Inr False
               else workloads_equals_loop (ws_workloads g) (mrange ro (ws_workloads w))))"

fun jobsEquals_loop :: "(string, unit) gomap \<Rightarrow> job list \<Rightarrow> bool" where
  "jobsEquals_loop theirs [] = True"
| "jobsEquals_loop theirs (k # ks) =
     (case map_of theirs (job_string k) of
        None \<Rightarrow> False
      | Some _ \<Rightarrow> jobsEquals_loop theirs ks)"

definition jobsEquals :: "job list \<Rightarrow> job list \<Rightarrow> bool" where
  "jobsEquals ol t =
     (if length ol \<noteq> length t then False else jobsEquals_loop (toMap t) ol)"

section \<open>What the loops compute\<close>

lemma job_string_inject [simp]: "job_string a = job_string b \<longleftrightarrow> a = b"
  by (cases a; cases b) simp

lemma toMap_loop_keys: "mkeys (toMap_loop m js) = mkeys m \<union> job_string ` set js"
  by (induction m js rule: toMap_loop.induct) (auto simp: map_simps)

lemma toMap_keys: "mkeys (toMap js) = job_string ` set js"
  by (simp add: toMap_def toMap_loop_keys)

lemma toMap_lookup_None [map_simps]: "map_of (toMap js) (job_string k) = None \<longleftrightarrow> k \<notin> set js"
  by (auto simp: mkeys_None toMap_keys)

lemma missing_loop_filter:
  "missing_loop m acc ks = acc @ filter (\<lambda>k. map_of m (job_string k) = None) ks"
  by (induction m acc ks rule: missing_loop.induct) (auto split: option.splits)

lemma Difference_eq:
  "Difference (Some a) (Some b) =
     Inr (filter (\<lambda>k. k \<notin> set (wl_jobs a)) (wl_jobs b),
          filter (\<lambda>k. k \<notin> set (wl_jobs b)) (wl_jobs a))"
  by (simp add: Difference_def Let_def missing_loop_filter toMap_lookup_None)

lemma Workload_Equals_eq:
  "Workload_Equals (Some a) (Some b) =
     Inr (length (wl_jobs a) = length (wl_jobs b) \<and> set (wl_jobs a) = set (wl_jobs b))"
  by (auto simp: Workload_Equals_def Difference_eq filter_empty_conv)

lemma jobsEquals_eq:
  "jobsEquals a b \<longleftrightarrow> length a = length b \<and> set a \<subseteq> set b"
proof -
  have "jobsEquals_loop (toMap b) ks \<longleftrightarrow> set ks \<subseteq> set b" for ks
  proof (induction ks)
    case (Cons k ks)
    then show ?case
      using toMap_lookup_None [of b k] by (cases "map_of (toMap b) (job_string k)") auto
  qed simp
  then show ?thesis by (simp add: jobsEquals_def)
qed

text \<open>No entry of the map is a nil pointer, as in every map the controller builds.\<close>

definition no_nil :: "(string, workload option) gomap \<Rightarrow> bool" where
  "no_nil m = list_all (\<lambda>(k, v). v \<noteq> None) m"

lemma no_nil_lookup: "no_nil m \<Longrightarrow> map_of m k = Some v \<Longrightarrow> \<exists>w. v = Some w"
  by (auto simp: no_nil_def list_all_iff dest!: map_of_SomeD)

definition jobs_at :: "(string, workload option) gomap \<Rightarrow> string \<Rightarrow> job list option" where
  "jobs_at m k = (case map_of m k of Some (Some w) \<Rightarrow> Some (wl_jobs w) | _ \<Rightarrow> None)"

text \<open>Two job lists that \<open>Workload.Equals\<close> identifies.\<close>

definition same_jobs :: "job list \<Rightarrow> job list \<Rightarrow> bool" where
  "same_jobs xs ys = (length xs = length ys \<and> set xs = set ys)"

lemma workloads_equals_loop_eq:
  assumes "no_nil asg" and "no_nil es"
  shows "workloads_equals_loop asg es =
    Inr (\<forall>(k, w) \<in> set es. \<exists>ys. jobs_at asg k = Some ys \<and> same_jobs ys (wl_jobs (the w)))"
  using assms(2)
proof (induction es)
  case (Cons e es)
  obtain k w where e: "e = (k, Some w)"
    using Cons.prems by (cases e) (auto simp: no_nil_def)
  show ?case
  proof (cases "map_of asg k")
    case (Some v)
    then obtain u where "v = Some u"
      using no_nil_lookup [OF assms(1)] by blast
    then show ?thesis
      using Cons Some e by (auto simp: Workload_Equals_eq jobs_at_def no_nil_def same_jobs_def)
  qed (simp add: e jobs_at_def)
qed simp

section \<open>What the comparisons answer\<close>

text \<open>
  \<open>Workload.Difference\<close> returns the new jobs the worker lacks and the old jobs it must
  drop, each in the order of its list: dropping the excluded and adding the included turns
  the old job set into the new one, and nothing is in both lists.
\<close>

lemma difference_transforms:
  assumes "Difference (Some a) (Some b) = Inr (inc, exc)"
  shows "(set (wl_jobs a) - set exc) \<union> set inc = set (wl_jobs b)
    \<and> set inc \<inter> set exc = {}
    \<and> inc = filter (\<lambda>k. k \<notin> set (wl_jobs a)) (wl_jobs b)
    \<and> exc = filter (\<lambda>k. k \<notin> set (wl_jobs b)) (wl_jobs a)"
  using assms by (auto simp: Difference_eq)

text \<open>
  \<open>Workloads.Equals\<close> on assignations without nil entries: it never panics, the answer
  does not depend on the iteration order of the map, and it is true exactly when the versions
  agree and every worker of the receiver has, in the argument, a job list of the same length
  with the same jobs.
\<close>

lemma workloads_equals_iff:
  assumes "range_order ro" and "mwf (ws_workloads a)"
    and "no_nil (ws_workloads a)" and "no_nil (ws_workloads b)"
  shows "Workloads_Equals ro (Some a) (Some b) =
    Inr (ws_version a = ws_version b \<and>
         (\<forall>(k, w) \<in> set (ws_workloads a).
            \<exists>ys. jobs_at (ws_workloads b) k = Some ys \<and> same_jobs ys (wl_jobs (the w))))"
proof -
  have set: "set (mrange ro (ws_workloads a)) = set (ws_workloads a)"
    using assms by (simp add: set_mrange)
  then have "no_nil (mrange ro (ws_workloads a))"
    using assms(3) by (simp add: no_nil_def list_all_iff)
  note loop = workloads_equals_loop_eq [OF assms(4) this, unfolded set]
  show ?thesis
    by (simp add: Workloads_Equals_def loop eq_commute)
qed

text \<open>
  \<open>Workloads.Equals\<close> is not symmetric: an assignation equals one with more workers,
  but not the other way round, because only the receiver's workers are visited. And
  \<open>Workload.Equals\<close> identifies lists that assign a job a different number of times.
\<close>

lemma workloads_equals_not_symmetric:
  assumes "range_order ro"
  shows "Workloads_Equals ro (Some \<lparr>ws_workloads = [], ws_version = v\<rparr>)
      (Some \<lparr>ws_workloads = [(k, Some w)], ws_version = v\<rparr>) = Inr True
    \<and> Workloads_Equals ro (Some \<lparr>ws_workloads = [(k, Some w)], ws_version = v\<rparr>)
      (Some \<lparr>ws_workloads = [], ws_version = v\<rparr>) = Inr False
    \<and> Workload_Equals (Some \<lparr>wl_jobs = [x, x, y], wl_version = v\<rparr>)
      (Some \<lparr>wl_jobs = [x, y, y], wl_version = v\<rparr>) = Inr True"
proof -
  have "Workload_Equals (Some \<lparr>wl_jobs = [x, x, y], wl_version = v\<rparr>)
      (Some \<lparr>wl_jobs = [x, y, y], wl_version = v\<rparr>) = Inr True"
    by (simp add: Workload_Equals_eq)
  then show ?thesis
    using assms by (simp add: workloads_equals_iff mwf_def no_nil_def jobs_at_def)
qed

end
