(* ===== verification/Interfaces.thy ===== *)
theory Interfaces
  imports Config
begin

text \<open>
  The Go interfaces through which the components call each other, as locales: the methods
  of the interface are the parameters, what a client relies on are the assumptions. Every
  locale is interpreted on the model of the component that implements the interface, in
  that component's theory.
\<close>

section \<open>assigner: the computation of the assignation\<close>

text \<open>
  The interface \<open>assigner\<close> of \<open>pool.go\<close>: \<open>BalanceWorkload\<close> and \<open>Workloads\<close>.
  \<open>ok\<close> is the provider's invariant and \<open>target s n\<close> the assignation it promises for
  \<open>n\<close> workers, a function of the fixed part of its state only.
\<close>

text \<open>A sequence of calls, each with its size and version.\<close>

fun balances :: "('s \<Rightarrow> int \<Rightarrow> int \<Rightarrow> ('s \<times> goerror option) go) \<Rightarrow> 's \<Rightarrow> (int \<times> int) list \<Rightarrow> 's go"
where
  "balances balance s [] = Inr s"
| "balances balance s ((n, v) # cs) =
     go_bind (balance s n v) (\<lambda>(s', e). balances balance s' cs)"

locale assigner =
  fixes balance :: "'s \<Rightarrow> int \<Rightarrow> int \<Rightarrow> ('s \<times> goerror option) go"
    and current :: "'s \<Rightarrow> workloads"
    and ok :: "'s \<Rightarrow> bool"
    and target :: "'s \<Rightarrow> int \<Rightarrow> string \<Rightarrow> workload option option"
  assumes balance_total: "ok s \<Longrightarrow> \<exists>s'. balance s n v = Inr (s', None)"
    and balance_ok: "ok s \<Longrightarrow> balance s n v = Inr (s', e) \<Longrightarrow> ok s'"
    and balance_target: "ok s \<Longrightarrow> balance s n v = Inr (s', e) \<Longrightarrow> target s' = target s"
    and balance_map: "ok s \<Longrightarrow> balance s n v = Inr (s', e)
      \<Longrightarrow> map_of (ws_workloads (current s')) = target s n"
    and balance_version: "ok s \<Longrightarrow> balance s n v = Inr (s', e)
      \<Longrightarrow> ws_version (current s') = (if n = 0 then ws_version (current s) else v)"
    and current_wf: "ok s \<Longrightarrow> mwf (ws_workloads (current s))"
begin

lemma balance_cases:
  assumes "ok s"
  obtains s' where "balance s n v = Inr (s', None)" "ok s'" "target s' = target s"
    "map_of (ws_workloads (current s')) = target s n"
    "ws_version (current s') = (if n = 0 then ws_version (current s) else v)"
  using assms balance_total balance_ok balance_target balance_map balance_version by meson

lemma balances_total:
  "ok s \<Longrightarrow> \<exists>s'. balances balance s cs = Inr s' \<and> ok s' \<and> target s' = target s"
proof (induction cs arbitrary: s)
  case (Cons c cs)
  obtain n v where c: "c = (n, v)" by (cases c)
  obtain s1 where "balance s n v = Inr (s1, None)" "ok s1" "target s1 = target s"
    using balance_cases [OF Cons.prems] by metis
  then show ?case using Cons.IH [of s1] by (simp add: c)
qed simp

text \<open>The last call alone decides the assignation, whatever the history.\<close>

lemma balances_last:
  assumes "ok s" and "balances balance s (cs @ [(n, v)]) = Inr s'"
  shows "map_of (ws_workloads (current s')) = target s n"
  using assms
proof (induction cs arbitrary: s)
  case Nil
  then show ?case by (auto simp: go_bind_Inr_iff dest: balance_map)
next
  case (Cons c cs)
  obtain m w where c: "c = (m, w)" by (cases c)
  obtain s1 where "balance s m w = Inr (s1, None)" "ok s1" "target s1 = target s"
    using balance_cases [OF Cons.prems(1)] by metis
  then show ?case using Cons.IH [of s1] Cons.prems(2) by (simp add: c)
qed

end

section \<open>sort.Interface: what sort.Sort works on\<close>

text \<open>
  \<open>sort.Sort\<close> sees its argument through \<open>Len\<close>, \<open>Less\<close> and \<open>Swap\<close> only. It changes it
  by swaps, and when it returns no element is less than the one before it; in which order it
  compares and swaps is left open (the sort is not stable). \<open>elems\<close> is the sequence behind
  the interface, \<open>key\<close> the number by which \<open>Less\<close> compares and \<open>ok\<close> what the methods need
  of the receiver to return.
\<close>

inductive swaps :: "('l \<Rightarrow> nat) \<Rightarrow> ('l \<Rightarrow> nat \<Rightarrow> nat \<Rightarrow> 'l go) \<Rightarrow> 'l \<Rightarrow> 'l \<Rightarrow> bool"
  for len swap where
  unsorted: "swaps len swap l l"
| swapped: "swaps len swap l m \<Longrightarrow> i < len m \<Longrightarrow> j < len m \<Longrightarrow> swap m i j = Inr m'
    \<Longrightarrow> swaps len swap l m'"

definition sort_result ::
    "('l \<Rightarrow> nat) \<Rightarrow> ('l \<Rightarrow> nat \<Rightarrow> nat \<Rightarrow> bool go) \<Rightarrow> ('l \<Rightarrow> nat \<Rightarrow> nat \<Rightarrow> 'l go) \<Rightarrow> 'l \<Rightarrow> 'l \<Rightarrow> bool"
where
  "sort_result len lt swap l l' \<longleftrightarrow>
     swaps len swap l l' \<and> (\<forall>i. Suc i < len l' \<longrightarrow> lt l' (Suc i) i = Inr False)"

locale sort_data =
  fixes len :: "'l \<Rightarrow> nat"
    and less :: "'l \<Rightarrow> nat \<Rightarrow> nat \<Rightarrow> bool go"
    and swap :: "'l \<Rightarrow> nat \<Rightarrow> nat \<Rightarrow> 'l go"
    and elems :: "'l \<Rightarrow> 'a list"
    and key :: "'a \<Rightarrow> int"
    and ok :: "'l \<Rightarrow> bool"
  assumes len_elems: "len l = length (elems l)"
    and less_key: "ok l \<Longrightarrow> i < len l \<Longrightarrow> j < len l
      \<Longrightarrow> less l i j = Inr (key (elems l ! i) < key (elems l ! j))"
    and swap_elems: "ok l \<Longrightarrow> i < len l \<Longrightarrow> j < len l
      \<Longrightarrow> \<exists>l'. swap l i j = Inr l' \<and> ok l'
            \<and> elems l' = (elems l)[i := elems l ! j, j := elems l ! i]"
begin

lemma swaps_mset: "swaps len swap l l' \<Longrightarrow> ok l \<Longrightarrow> ok l' \<and> mset (elems l') = mset (elems l)"
proof (induction rule: swaps.induct)
  case (swapped l m i j m')
  then show ?case
    using swap_elems [of m i j] by (auto simp: len_elems mset_swap)
qed simp

lemma sorted_result_sorted:
  assumes "ok l" and "sort_result len less swap l l'"
  shows "mset (elems l') = mset (elems l)" and "sorted (map key (elems l'))"
proof -
  show "mset (elems l') = mset (elems l)"
    using assms swaps_mset by (auto simp: sort_result_def)
  have "ok l'" using assms swaps_mset by (auto simp: sort_result_def)
  then have "key (elems l' ! i) \<le> key (elems l' ! Suc i)" if "Suc i < length (elems l')" for i
    using that assms(2) less_key [of l' "Suc i" i] by (auto simp: sort_result_def len_elems)
  then show "sorted (map key (elems l'))"
    by (simp add: sorted_iff_nth_Suc)
qed

text \<open>
  With distinct keys every admissible result is the same list; with equal keys every
  admissible result is the stable sort of some permutation of the input.
\<close>

lemma sorted_result_unique:
  assumes "ok l" and "sort_result len less swap l l'" and "distinct (map key (elems l))"
  shows "elems l' = sort_key key (elems l)"
  using sorted_result_sorted [OF assms(1,2)] assms(3)
    sort_key_inj_key_eq [of "elems l" "elems l'" key]
  by (simp add: distinct_map)

lemma sorted_result_stable_sort:
  assumes "ok l" and "sort_result len less swap l l'"
  shows "\<exists>xs. mset xs = mset (elems l) \<and> elems l' = sort_key key xs"
  using sorted_result_sorted [OF assms] sort_key_id_if_sorted by metis

end

section \<open>Pool, as the handlers see it\<close>

text \<open>
  The interface \<open>Pool\<close> of \<open>pod/handler.go\<close>. \<open>members\<close> are the names registered.
\<close>

locale worker_registry =
  fixes add :: "int \<Rightarrow> string \<Rightarrow> 'ip \<Rightarrow> 'p \<Rightarrow> 'p \<times> bool"
    and remove :: "string \<Rightarrow> 'p \<Rightarrow> 'p"
    and members :: "'p \<Rightarrow> string set"
    and ok :: "'p \<Rightarrow> bool"
  assumes members_add: "ok p \<Longrightarrow> members (fst (add i n ip p)) = insert n (members p)"
    and added_iff: "ok p \<Longrightarrow> snd (add i n ip p) \<longleftrightarrow> n \<notin> members p"
    and add_existing: "ok p \<Longrightarrow> n \<in> members p \<Longrightarrow> fst (add i n ip p) = p"
    and members_remove: "ok p \<Longrightarrow> members (remove n p) = members p - {n}"
    and add_ok: "ok p \<Longrightarrow> ok (fst (add i n ip p))"
    and remove_ok: "ok p \<Longrightarrow> ok (remove n p)"

text \<open>
  The interface \<open>Pool\<close> of \<open>statefulset/handler.go\<close>. A resize that returns leaves the
  requested size, and a resize to the current size changes nothing.
\<close>

locale resizable =
  fixes resize :: "int \<Rightarrow> 'p \<Rightarrow> 'p go"
    and size_of :: "'p \<Rightarrow> int"
    and ok :: "'p \<Rightarrow> bool"
  assumes resize_size: "ok p \<Longrightarrow> resize n p = Inr p' \<Longrightarrow> size_of p' = n"
    and resize_same: "resize (size_of p) p = Inr p"
    and resize_ok: "ok p \<Longrightarrow> resize n p = Inr p' \<Longrightarrow> ok p'"
begin

lemma resize_idem:
  assumes "ok p" and "resize n p = Inr p'"
  shows "resize n p' = Inr p'"
  using resize_same [of p'] resize_size [OF assms] by simp

end

end
