(* ===== verification/Assignment.thy ===== *)
theory Assignment
  imports Interfaces
begin

text \<open>
  \<open>services/controller/internal/app/swarm/state.go\<close>: the jobs of a swarm and their
  assignation to the workers \<open>setName-0\<close>, \<open>setName-1\<close>, \<open>\<dots>\<close>. The pointer
  \<open>config\<close> that \<open>Workloads\<close> hands out is the state's own object; no caller writes
  through it, so the model hands out its value.
\<close>

section \<open>State and operations\<close>

record assignment_state =
  as_setName :: string
  as_jobs :: "job list"
  as_config :: workloads

definition NewState :: "job list \<Rightarrow> string \<Rightarrow> assignment_state" where
  "NewState keySet setName =
     \<lparr>as_setName = setName, as_jobs = keySet,
      as_config = \<lparr>ws_workloads = [], ws_version = 0\<rparr>\<rparr>"

text \<open>\<open>fmt.Sprintf("%s-%d", s.setName, i)\<close>\<close>

definition worker_name :: "string \<Rightarrow> int \<Rightarrow> string" where
  "worker_name setName i = setName @ CHR ''-'' # show_int i"

text \<open>The loop of \<open>cleanAssignations\<close>, from the counter \<open>i\<close>.\<close>

function clean_loop ::
    "string \<Rightarrow> int \<Rightarrow> int \<Rightarrow> (string, workload option) gomap \<Rightarrow> (string, workload option) gomap" where
  "clean_loop setName i orgSize m =
     (if i < orgSize
      then clean_loop setName (i + 1) orgSize (AList.delete (worker_name setName i) m)
      else m)"
  by pat_completeness auto
termination by (relation "measure (\<lambda>(n, i, orgSize, m). nat (orgSize - i))") auto

definition cleanAssignations :: "assignment_state \<Rightarrow> int \<Rightarrow> assignment_state" where
  "cleanAssignations s totalWorkers =
     (let m = ws_workloads (as_config s);
          orgSize = int (length m)
      in s\<lparr>as_config := (as_config s)\<lparr>ws_workloads :=
            clean_loop (as_setName s) totalWorkers orgSize m\<rparr>\<rparr>)"

text \<open>
  The loop of \<open>BalanceWorkload\<close>, from the counter \<open>i\<close>. The products are computed in
  64 bits; the slice may panic.
\<close>

function balance_loop ::
    "string \<Rightarrow> job list \<Rightarrow> int \<Rightarrow> int \<Rightarrow> int \<Rightarrow> int \<Rightarrow> (string, workload option) gomap
     \<Rightarrow> (string, workload option) gomap go" where
  "balance_loop setName jobs totalWorkers partSize modulePartSize i m =
     (if i < totalWorkers then
        let workerName = worker_name setName i;
            m1 = (case map_of m workerName of
                    None \<Rightarrow> AList.update workerName (Some \<lparr>wl_jobs = [], wl_version = 0\<rparr>) m
                  | Some _ \<Rightarrow> m);
            size = (if i < modulePartSize then wrap64 (partSize + 1) else partSize);
            start = wrap64 (i * size);
            end0 = wrap64 ((i + 1) * size);
            end1 = (if end0 > int (length jobs) then int (length jobs) else end0)
        in go_bind (go_slice jobs start end1)
             (\<lambda>part. balance_loop setName jobs totalWorkers partSize modulePartSize (i + 1)
                (AList.update workerName (Some \<lparr>wl_jobs = part, wl_version = 0\<rparr>) m1))
      else Inr m)"
  by pat_completeness auto
termination
  by (relation "measure (\<lambda>(n, js, total, p, q, i, m). nat (total - i))") auto

declare clean_loop.simps [simp del] balance_loop.simps [simp del]

definition BalanceWorkload ::
    "assignment_state \<Rightarrow> int \<Rightarrow> int \<Rightarrow> (assignment_state \<times> goerror option) go" where
  "BalanceWorkload s totalWorkers version =
     (if totalWorkers = 0 then Inr (cleanAssignations s 0, None)
      else
        let partSize = int (length (as_jobs s)) sdiv totalWorkers;
            modulePartSize = int (length (as_jobs s)) smod totalWorkers
        in go_bind
             (balance_loop (as_setName s) (as_jobs s) totalWorkers partSize modulePartSize 0
                (ws_workloads (as_config s)))
             (\<lambda>m.
               let s1 = s\<lparr>as_config := \<lparr>ws_workloads = m, ws_version = version\<rparr>\<rparr>
               in if totalWorkers < int (length m)
                  then Inr (cleanAssignations s1 totalWorkers, None)
                  else Inr (s1, None)))"

definition Workloads :: "assignment_state \<Rightarrow> workloads" where
  "Workloads s = as_config s"

definition Workload :: "assignment_state \<Rightarrow> int \<Rightarrow> goerror + workload option" where
  "Workload s workerIdx =
     (case map_of (ws_workloads (as_config s)) (worker_name (as_setName s) workerIdx) of
        None \<Rightarrow> Inl (Errorf (''Workloads not found on index '' @ show_int workerIdx) None)
      | Some asg \<Rightarrow> Inr asg)"

definition state_size :: "assignment_state \<Rightarrow> int" where
  "state_size s = int (length (ws_workloads (as_config s)))"

section \<open>The assignation as a specification\<close>

text \<open>
  What worker \<open>i\<close> of \<open>n\<close> is given: a contiguous part of the jobs. The first
  \<open>length js mod n\<close> workers have one job more than the others.
\<close>

definition part_size :: "nat \<Rightarrow> int \<Rightarrow> int \<Rightarrow> int" where
  "part_size len n i = int len div n + (if i < int len mod n then 1 else 0)"

definition part_of :: "job list \<Rightarrow> int \<Rightarrow> int \<Rightarrow> job list" where
  "part_of js n i =
     (let size = part_size (length js) n i
      in take (nat size) (drop (nat (i * size)) js))"

definition assignation :: "string \<Rightarrow> job list \<Rightarrow> int \<Rightarrow> string \<Rightarrow> workload option option" where
  "assignation setName js n =
     map_of (map (\<lambda>i. (worker_name setName i, Some \<lparr>wl_jobs = part_of js n i, wl_version = 0\<rparr>))
       [0..n - 1])"

definition assignment_inv :: "assignment_state \<Rightarrow> bool" where
  "assignment_inv s \<longleftrightarrow>
     int (length (as_jobs s)) < 2 ^ 63 \<and> mwf (ws_workloads (as_config s))
     \<and> no_nil (ws_workloads (as_config s))
     \<and> (\<exists>n\<ge>0. mkeys (ws_workloads (as_config s)) = worker_name (as_setName s) ` {0..<n})"

definition assignment_target :: "assignment_state \<Rightarrow> int \<Rightarrow> string \<Rightarrow> workload option option" where
  "assignment_target s = assignation (as_setName s) (as_jobs s)"

lemma worker_name_inject [simp]:
  "worker_name setName i = worker_name setName j \<longleftrightarrow> i = j"
  by (simp add: worker_name_def)

lemma inj_worker_name: "inj_on (worker_name setName) A"
  by (simp add: inj_on_def)

lemma assignation_at:
  "assignation setName js n (worker_name setName i) =
     (if 0 \<le> i \<and> i < n then Some (Some \<lparr>wl_jobs = part_of js n i, wl_version = 0\<rparr>) else None)"
proof -
  let ?f = "\<lambda>i. (worker_name setName i, Some \<lparr>wl_jobs = part_of js n i, wl_version = 0\<rparr>)"
  have "map_of (map ?f xs) (worker_name setName i) = (if i \<in> set xs then Some (snd (?f i)) else None)" for xs
    by (induction xs) auto
  then show ?thesis by (simp add: assignation_def)
qed

lemma assignation_other:
  "k \<notin> worker_name setName ` {0..<n} \<Longrightarrow> assignation setName js n k = None"
  by (auto simp: assignation_def mkeys_None image_iff)

lemma assignation_defined:
  "(\<exists>v. assignation setName js n k = Some v) \<longleftrightarrow> k \<in> worker_name setName ` {0..<n}"
  by (cases "k \<in> worker_name setName ` {0..<n}") (auto simp: assignation_at assignation_other)

section \<open>The arithmetic of the parts\<close>

lemma part_end_le:
  assumes "0 < n" "0 \<le> i" "i < n"
  shows "(i + 1) * part_size len n i \<le> int len"
proof -
  let ?p = "int len div n" and ?q = "int len mod n"
  have len: "int len = ?p * n + ?q" and "0 \<le> ?p" "?q < n" "0 \<le> ?q"
    using assms by (simp_all add: pos_imp_zdiv_nonneg_iff)
  show ?thesis
  proof (cases "i < ?q")
    case True
    have "(i + 1) * (?p + 1) \<le> ?q * (?p + 1)"
      using True \<open>0 \<le> ?p\<close> by (intro mult_right_mono) auto
    also have "\<dots> \<le> n * ?p + ?q"
      using mult_right_mono [OF less_imp_le [OF \<open>?q < n\<close>] \<open>0 \<le> ?p\<close>]
      by (simp only: distrib_left mult_1_right)
    finally show ?thesis using True len by (simp add: part_size_def mult.commute)
  next
    case False
    have "(i + 1) * ?p \<le> n * ?p"
      using assms \<open>0 \<le> ?p\<close> by (intro mult_right_mono) auto
    also have "n * ?p \<le> int len"
      using len \<open>0 \<le> ?q\<close> by (simp only: mult.commute [of n])
    finally show ?thesis using False by (simp add: part_size_def)
  qed
qed

lemma part_size_nonneg: "0 < n \<Longrightarrow> 0 \<le> part_size len n i"
  by (simp add: part_size_def pos_imp_zdiv_nonneg_iff)

lemma part_size_le: "0 < n \<Longrightarrow> 0 \<le> i \<Longrightarrow> i < n \<Longrightarrow> part_size len n i \<le> int len"
  using part_end_le [of n i len] part_size_nonneg [of n len i]
  by (smt (verit) mult_right_mono mult_cancel_right2)

lemma part_start_le: "0 < n \<Longrightarrow> 0 \<le> i \<Longrightarrow> i < n \<Longrightarrow> i * part_size len n i \<le> int len"
  using part_end_le [of n i len] part_size_nonneg [of n len i] by (simp add: algebra_simps)

lemma length_part_of:
  assumes "0 < n" "0 \<le> i" "i < n"
  shows "int (length (part_of js n i)) = part_size (length js) n i"
proof -
  let ?s = "part_size (length js) n i"
  have "0 \<le> ?s" "0 \<le> i * ?s" "i * ?s + ?s \<le> int (length js)"
    using part_end_le [OF assms, of "length js"] part_size_nonneg [of n "length js" i] assms
    by (simp_all add: algebra_simps)
  then show ?thesis by (simp add: part_of_def Let_def)
qed

text \<open>Worker \<open>i\<close> holds exactly the positions of its interval.\<close>

definition holds_position :: "nat \<Rightarrow> int \<Rightarrow> int \<Rightarrow> int \<Rightarrow> bool" where
  "holds_position len n i p \<longleftrightarrow>
     i * part_size len n i \<le> p \<and> p < (i + 1) * part_size len n i"

lemma part_of_nth:
  assumes "0 < n" "0 \<le> i" "i < n"
  shows "j \<in> set (part_of js n i) \<longleftrightarrow>
    (\<exists>p < length js. js ! p = j \<and> holds_position (length js) n i (int p))"
proof -
  let ?s = "part_size (length js) n i"
  have b: "0 \<le> ?s" "0 \<le> i * ?s" "i * ?s + ?s \<le> int (length js)"
    using part_end_le [OF assms, of "length js"] part_size_nonneg [of n "length js" i] assms
    by (simp_all add: algebra_simps)
  have len: "length (part_of js n i) = nat ?s"
    using length_part_of [OF assms, of js] by simp
  have nth: "part_of js n i ! k = js ! (nat (i * ?s) + k)" if "k < nat ?s" for k
    using that b by (simp add: part_of_def Let_def)
  show ?thesis
  proof
    assume "j \<in> set (part_of js n i)"
    then obtain k where k: "k < nat ?s" "j = js ! (nat (i * ?s) + k)"
      using nth len by (metis in_set_conv_nth)
    then show "\<exists>p < length js. js ! p = j \<and> holds_position (length js) n i (int p)"
      using b by (intro exI [of _ "nat (i * ?s) + k"]) (auto simp: holds_position_def algebra_simps)
  next
    assume "\<exists>p < length js. js ! p = j \<and> holds_position (length js) n i (int p)"
    then obtain p where p: "js ! p = j" "i * ?s \<le> int p" "int p < i * ?s + ?s"
      by (auto simp: holds_position_def algebra_simps)
    then have "p - nat (i * ?s) < nat ?s" "nat (i * ?s) + (p - nat (i * ?s)) = p"
      using b by linarith+
    then show "j \<in> set (part_of js n i)"
      using nth [of "p - nat (i * ?s)"] p(1) len by (metis nth_mem)
  qed
qed

section \<open>The loops compute the specification\<close>

lemma no_nil_update [inv_intros]: "no_nil m \<Longrightarrow> no_nil (AList.update k (Some w) m)"
  by (induction m) (auto simp: no_nil_def)

lemma no_nil_delete [inv_intros]: "no_nil m \<Longrightarrow> no_nil (AList.delete k m)"
  by (induction m) (auto simp: no_nil_def)

lemma clean_loop_lookup:
  "map_of (clean_loop setName i orgSize m) k =
     (if k \<in> worker_name setName ` {i..<orgSize} then None else map_of m k)"
proof (induction setName i orgSize m rule: clean_loop.induct)
  case (1 setName i orgSize m)
  show ?case
  proof (cases "i < orgSize")
    case True
    then have "{i..<orgSize} = insert i {i + 1..<orgSize}" by auto
    with True 1 show ?thesis
      by (simp add: clean_loop.simps [of setName i] lookup_delete)
  qed (simp add: clean_loop.simps)
qed

lemma clean_loop_wf:
  "mwf m \<and> no_nil m \<Longrightarrow>
     mwf (clean_loop setName i orgSize m) \<and> no_nil (clean_loop setName i orgSize m)"
proof (induction setName i orgSize m rule: clean_loop.induct)
  case (1 setName i orgSize m)
  then show ?case
    by (subst (1 2) clean_loop.simps) (simp add: inv_intros)
qed

lemma balance_body_slice:
  assumes "0 < n" "0 \<le> i" "i < n" "int (length js) < 2 ^ 63"
    and sz: "sz = (if i < int (length js) mod n then wrap64 (int (length js) div n + 1)
                       else int (length js) div n)"
  shows "wrap64 (i * sz) = i * part_size (length js) n i"
    and "wrap64 ((i + 1) * sz) = (i + 1) * part_size (length js) n i"
    and "\<not> (i + 1) * part_size (length js) n i > int (length js)"
    and "go_slice js (i * part_size (length js) n i) ((i + 1) * part_size (length js) n i)
         = Inr (part_of js n i)"
proof -
  let ?s = "part_size (length js) n i"
  note b = part_end_le [OF assms(1-3), of "length js"] part_size_nonneg [OF assms(1), of "length js" i]
    part_size_le [OF assms(1-3), of "length js"] part_start_le [OF assms(1-3), of "length js"]
  have z: "0 \<le> i * ?s" "0 \<le> (i + 1) * ?s" using b assms by simp_all
  have "sz = ?s"
    using sz b assms(1,4) by (auto simp: part_size_def pos_imp_zdiv_nonneg_iff)
  then show "wrap64 (i * sz) = i * ?s" "wrap64 ((i + 1) * sz) = (i + 1) * ?s"
    and "\<not> (i + 1) * ?s > int (length js)"
    using b z assms(4) by simp_all
  have "(i + 1) * ?s - i * ?s = ?s" by (simp add: algebra_simps)
  then show "go_slice js (i * ?s) ((i + 1) * ?s) = Inr (part_of js n i)"
    using b z by (simp add: go_slice_def part_of_def Let_def mult_right_mono)
qed

lemma balance_loop_spec:
  assumes "0 < n" "int (length js) < 2 ^ 63" "0 \<le> i" "mwf m" "no_nil m"
  shows "\<exists>m'. balance_loop setName js n (int (length js) div n) (int (length js) mod n) i m = Inr m'
    \<and> mwf m' \<and> no_nil m'
    \<and> (\<forall>k. map_of m' k = (if k \<in> worker_name setName ` {i..<n} then assignation setName js n k
                          else map_of m k))"
  using assms(3-5)
proof (induction "nat (n - i)" arbitrary: i m)
  case 0
  then show ?case using assms by (simp add: balance_loop.simps)
next
  case (Suc d)
  then have i: "i < n" and d: "d = nat (n - (i + 1))" by linarith+
  let ?p = "int (length js) div n" and ?q = "int (length js) mod n"
  let ?k = "worker_name setName i"
  let ?m1 = "(case map_of m ?k of
                None \<Rightarrow> AList.update ?k (Some \<lparr>wl_jobs = [], wl_version = 0\<rparr>) m | Some _ \<Rightarrow> m)"
  let ?m2 = "AList.update ?k (Some \<lparr>wl_jobs = part_of js n i, wl_version = 0\<rparr>) ?m1"
  note sl = balance_body_slice [OF assms(1) \<open>0 \<le> i\<close> i assms(2) refl]
  have step: "balance_loop setName js n ?p ?q i m = balance_loop setName js n ?p ?q (i + 1) ?m2"
    by (subst balance_loop.simps) (simp only: i if_True Let_def if_False sl go_bind_simps)
  have m1: "mwf ?m1 \<and> no_nil ?m1"
    using Suc.prems by (simp add: inv_intros split: option.split)
  have m2: "mwf ?m2" "no_nil ?m2"
    using m1 by (simp_all only: inv_intros)
  have look: "map_of ?m2 k = (if k = ?k then assignation setName js n ?k else map_of m k)" for k
    using Suc.prems(1) i by (simp add: lookup_update assignation_at split: option.split)
  obtain m' where m': "balance_loop setName js n ?p ?q (i + 1) ?m2 = Inr m'" "mwf m'" "no_nil m'"
    "\<forall>k. map_of m' k = (if k \<in> worker_name setName ` {i + 1..<n} then assignation setName js n k
                        else map_of ?m2 k)"
    using Suc.hyps(1) [OF d _ m2] Suc.prems(1) by auto
  have "worker_name setName ` {i..<n} = insert ?k (worker_name setName ` {i + 1..<n})"
    using i by (auto simp: image_iff)
  then have "\<forall>k. map_of m' k = (if k \<in> worker_name setName ` {i..<n} then assignation setName js n k
                        else map_of m k)"
    using m'(4) look by simp
  with step m' show ?case by auto
qed

lemma worker_names_card: "0 \<le> n \<Longrightarrow> card (worker_name setName ` {0..<n}) = nat n"
  by (simp add: card_image inj_worker_name)

lemma cleanAssignations_lookup:
  assumes "mwf (ws_workloads (as_config s))" "0 \<le> b"
    and "mkeys (ws_workloads (as_config s)) = worker_name (as_setName s) ` {0..<b}"
  shows "map_of (ws_workloads (as_config (cleanAssignations s a))) k =
    (if k \<in> worker_name (as_setName s) ` {a..<b} then None
     else map_of (ws_workloads (as_config s)) k)"
proof -
  have "int (length (ws_workloads (as_config s))) = b"
    using assms by (simp add: mwf_length worker_names_card)
  then show ?thesis by (simp add: cleanAssignations_def Let_def clean_loop_lookup)
qed

lemma cleanAssignations_fields [simp]:
  "as_setName (cleanAssignations s a) = as_setName s"
  "as_jobs (cleanAssignations s a) = as_jobs s"
  "ws_version (as_config (cleanAssignations s a)) = ws_version (as_config s)"
  by (simp_all add: cleanAssignations_def Let_def)

lemma cleanAssignations_wf [inv_intros]:
  assumes "mwf (ws_workloads (as_config s))" "no_nil (ws_workloads (as_config s))"
  shows "mwf (ws_workloads (as_config (cleanAssignations s a)))"
    and "no_nil (ws_workloads (as_config (cleanAssignations s a)))"
  using clean_loop_wf assms by (auto simp: cleanAssignations_def Let_def)

lemma mkeys_assignation:
  assumes "map_of m = assignation setName js n"
  shows "mkeys m = worker_name setName ` {0..<n}"
  by (rule set_eqI) (simp only: mkeys_lookup assms assignation_defined)

lemma int_atLeastLessThan_nat: "{0..<n} = {0..<max 0 (n :: int)}"
  by auto

lemma assignment_invI:
  assumes "int (length (as_jobs s)) < 2 ^ 63" "mwf (ws_workloads (as_config s))"
    "no_nil (ws_workloads (as_config s))"
    "map_of (ws_workloads (as_config s)) = assignation (as_setName s) (as_jobs s) n"
  shows "assignment_inv s"
  using assms mkeys_assignation [OF assms(4)] int_atLeastLessThan_nat [of n]
  unfolding assignment_inv_def by (metis max.cobounded1)

lemma assignment_inv_new [inv_intros]:
  "int (length js) < 2 ^ 63 \<Longrightarrow> assignment_inv (NewState js setName)"
  by (rule assignment_invI [where n = 0])
    (simp_all add: NewState_def no_nil_def assignation_def fun_eq_iff)

lemma sdiv_smod_nonneg:
  "0 < n \<Longrightarrow> int k sdiv n = int k div n" "0 < n \<Longrightarrow> int k smod n = int k mod n"
  by (simp_all add: signed_divide_int_def signed_modulo_int_def minus_div_mult_eq_mod sgn_if)

text \<open>One call from any state that satisfies the invariant, for every size.\<close>

lemma BalanceWorkload_spec:
  assumes "assignment_inv s"
  obtains s' where "BalanceWorkload s n v = Inr (s', None)" "assignment_inv s'"
    "as_setName s' = as_setName s" "as_jobs s' = as_jobs s"
    "map_of (ws_workloads (as_config s')) = assignment_target s n"
    "ws_version (as_config s') = (if n = 0 then ws_version (as_config s) else v)"
proof -
  let ?m = "ws_workloads (as_config s)" and ?nm = "worker_name (as_setName s)"
  from assms obtain b where len: "int (length (as_jobs s)) < 2 ^ 63" and wf: "mwf ?m" "no_nil ?m"
    and b: "0 \<le> b" and keys: "mkeys ?m = ?nm ` {0..<b}"
    by (auto simp: assignment_inv_def)
  have none: "map_of ?m k = None" if "k \<notin> ?nm ` {0..<b}" for k
    using that keys by (simp add: mkeys_None)
  show ?thesis
  proof (cases "n = 0")
    case True
    let ?s' = "cleanAssignations s 0"
    have "map_of (ws_workloads (as_config ?s')) = assignment_target s n"
      using none by (auto simp: fun_eq_iff cleanAssignations_lookup [OF wf(1) b keys] True
          assignment_target_def assignation_def)
    then show ?thesis
      using that [of ?s'] True len wf
      by (simp add: BalanceWorkload_def assignment_target_def cleanAssignations_wf
          assignment_invI [of ?s' n])
  next
    case nz: False
    obtain m where m: "balance_loop (as_setName s) (as_jobs s) n (int (length (as_jobs s)) sdiv n)
          (int (length (as_jobs s)) smod n) 0 ?m = Inr m" "mwf m" "no_nil m"
      "\<forall>k. map_of m k = (if k \<in> ?nm ` {0..<n} then assignation (as_setName s) (as_jobs s) n k
                         else map_of ?m k)"
    proof (cases "0 < n")
      case True
      then show ?thesis
        using that balance_loop_spec [OF True len order_refl wf] by (auto simp: sdiv_smod_nonneg)
    next
      case False
      then show ?thesis using that [of ?m] wf nz by (simp add: balance_loop.simps)
    qed
    let ?s1 = "s\<lparr>as_config := \<lparr>ws_workloads = m, ws_version = v\<rparr>\<rparr>"
    have keys1: "mkeys m = ?nm ` {0..<max n b}"
    proof -
      have "k \<in> mkeys m \<longleftrightarrow> k \<in> ?nm ` {0..<n} \<union> mkeys ?m" for k
        using m(4) assignation_defined [of "as_setName s" "as_jobs s" n k]
        by (auto simp: mkeys_lookup)
      then have "mkeys m = ?nm ` {0..<n} \<union> ?nm ` {0..<b}"
        unfolding keys by (rule set_eqI)
      also have "\<dots> = ?nm ` ({0..<n} \<union> {0..<b})" by (rule image_Un [symmetric])
      also have "{0..<n} \<union> {0..<b} = {0..<max n b}" by auto
      finally show ?thesis .
    qed
    have maxb: "0 \<le> max n b" using b by simp
    have lenm: "int (length m) = max n b"
      using m(2) keys1 maxb by (simp add: mwf_length worker_names_card)
    have target: "map_of m k = assignment_target s n k" if "k \<notin> ?nm ` {n..<max n b}" for k
    proof (cases "k \<in> ?nm ` {0..<n}")
      case False
      moreover have "{0..<b} \<subseteq> {0..<n} \<union> {n..<max n b}" by auto
      ultimately have "k \<notin> ?nm ` {0..<b}" using that by blast
      then show ?thesis
        using False m(4) none by (simp add: assignment_target_def assignation_other)
    qed (simp add: m(4) assignment_target_def)
    show ?thesis
    proof (cases "n < int (length m)")
      case True
      let ?s2 = "cleanAssignations ?s1 n"
      have "map_of (ws_workloads (as_config ?s2)) = assignment_target s n"
        using target assignation_other [of _ "as_setName s" n]
        by (auto simp: fun_eq_iff cleanAssignations_lookup [OF _ maxb] m(2) keys1
            assignment_target_def assignation_at)
      then show ?thesis
        using that [of ?s2] True m(1) nz len m(2,3)
        by (simp add: BalanceWorkload_def Let_def assignment_target_def cleanAssignations_wf
            assignment_invI [of ?s2 n])
    next
      case False
      then have "map_of m = assignment_target s n"
        using target lenm by (auto simp: fun_eq_iff)
      then show ?thesis
        using that [of ?s1] False m(1) nz len m(2,3)
        by (simp add: BalanceWorkload_def Let_def assignment_target_def assignment_invI [of ?s1 n])
    qed
  qed
qed

section \<open>The state implements the interface of the pool\<close>

interpretation asg: assigner BalanceWorkload Workloads assignment_inv assignment_target
proof
  fix s n v s' e
  assume inv: "assignment_inv s"
  then obtain s1 where s1: "BalanceWorkload s n v = Inr (s1, None)" "assignment_inv s1"
    "as_setName s1 = as_setName s" "as_jobs s1 = as_jobs s"
    "map_of (ws_workloads (as_config s1)) = assignment_target s n"
    "ws_version (as_config s1) = (if n = 0 then ws_version (as_config s) else v)"
    by (rule BalanceWorkload_spec)
  show "\<exists>s'. BalanceWorkload s n v = Inr (s', None)" using s1 by blast
  show "mwf (ws_workloads (Workloads s))"
    using inv by (simp add: Workloads_def assignment_inv_def)
  assume "BalanceWorkload s n v = Inr (s', e)"
  with s1 have "s' = s1" by simp
  then show "assignment_inv s'" "assignment_target s' = assignment_target s"
    "map_of (ws_workloads (Workloads s')) = assignment_target s n"
    "ws_version (Workloads s') = (if n = 0 then ws_version (Workloads s) else v)"
    using s1 by (simp_all add: assignment_target_def Workloads_def)
qed

section \<open>Which positions are held\<close>

text \<open>
  Every part starts at \<open>i * size\<close> with the size of that worker, so the parts of the last
  workers start too early as soon as the first ones are larger and both kinds are non-empty.
\<close>

lemma last_position_lost:
  assumes "0 < n" "n < int len" "int len mod n \<noteq> 0" "0 \<le> i" "i < n"
  shows "\<not> holds_position len n i (int len - 1)"
proof -
  let ?p = "int len div n" and ?q = "int len mod n"
  have len: "int len = n * ?p + ?q" by simp
  have q: "0 < ?q" "?q < n" using assms by (simp_all add: order_le_neq_trans)
  have p: "1 \<le> ?p" using assms(1,2) by (simp add: pos_imp_zdiv_pos_iff int_one_le_iff_zero_less)
  show ?thesis
  proof (cases "i < ?q")
    case True
    have "(i + 1) * (?p + 1) \<le> ?q * (?p + 1)" using True p by (intro mult_right_mono) auto
    also have "\<dots> = ?q * ?p + ?q" by (simp only: distrib_left mult_1_right)
    also have "?q * ?p < n * ?p" using q p by (intro mult_strict_right_mono) auto
    finally have "(i + 1) * (?p + 1) < n * ?p + ?q" by linarith
    then have "(i + 1) * (?p + 1) \<le> int len - 1" unfolding len [symmetric] by linarith
    then show ?thesis using True by (simp add: holds_position_def part_size_def)
  next
    case False
    have "(i + 1) * ?p \<le> n * ?p" using assms(5) p by (intro mult_right_mono) auto
    then have "(i + 1) * ?p \<le> int len - 1" using len q(1) by linarith
    then show ?thesis using False by (simp add: holds_position_def part_size_def)
  qed
qed

lemma position_held_twice:
  assumes "0 < n" "n < int len" "int len mod n \<noteq> 0"
  obtains p i k where "p < len" "0 \<le> i" "i < k" "k < n"
    "holds_position len n i (int p)" "holds_position len n k (int p)"
proof -
  let ?p = "int len div n" and ?q = "int len mod n"
  have len: "int len = n * ?p + ?q" by simp
  have q: "0 < ?q" "?q < n" using assms by (simp_all add: order_le_neq_trans)
  have p: "1 \<le> ?p" using assms(1,2) by (simp add: pos_imp_zdiv_pos_iff int_one_le_iff_zero_less)
  let ?x = "?q * ?p" and ?i = "?q * ?p div (?p + 1)"
  have x0: "0 \<le> ?x" using q p by simp
  have "?x < n * ?p" using q p by (intro mult_strict_right_mono) auto
  then have xlen: "?x < int len" using len q(1) by linarith
  have i0: "0 \<le> ?i" using x0 p by (simp add: pos_imp_zdiv_nonneg_iff)
  have b: "?i * (?p + 1) \<le> ?x" "?x < (?i + 1) * (?p + 1)"
    using int_div_bounds [of "?p + 1" ?x] p by simp_all
  have "?i < ?q"
  proof (rule ccontr)
    assume "\<not> ?i < ?q"
    then have "?q * (?p + 1) \<le> ?i * (?p + 1)" using p by (intro mult_right_mono) auto
    then show False using b(1) q by (simp add: distrib_left)
  qed
  then have "holds_position len n ?i ?x"
    using b by (simp add: holds_position_def part_size_def)
  moreover have "holds_position len n ?q ?x"
    using p by (simp add: holds_position_def part_size_def distrib_right)
  ultimately show ?thesis
    using that [of "nat ?x" ?i ?q] x0 xlen i0 \<open>?i < ?q\<close> q(2) by simp
qed

lemma holds_unique_even:
  assumes "0 < n" "int len mod n = 0" "0 \<le> p" "p < int len"
  shows "\<exists>!i. 0 \<le> i \<and> i < n \<and> holds_position len n i p"
proof -
  let ?s = "int len div n"
  have len: "int len = n * ?s" using assms(2) by auto
  then have s: "0 < ?s" using assms by (smt (verit) mult_le_0_iff)
  have size: "part_size len n i = ?s" if "0 \<le> i" for i
    using that assms(2) by (simp add: part_size_def)
  show ?thesis
  proof (rule ex1I [of _ "p div ?s"])
    have "p div ?s < n"
    proof (rule ccontr)
      assume "\<not> p div ?s < n"
      then have "n * ?s \<le> p div ?s * ?s" using s by (intro mult_right_mono) auto
      then show False using int_div_bounds(1) [OF s, of p] assms(4) len by linarith
    qed
    then show "0 \<le> p div ?s \<and> p div ?s < n \<and> holds_position len n (p div ?s) p"
      using int_div_bounds [OF s, of p] s assms(3)
      by (simp add: holds_position_def size pos_imp_zdiv_nonneg_iff)
  next
    fix i assume "0 \<le> i \<and> i < n \<and> holds_position len n i p"
    then have "i * ?s \<le> p" "p < (i + 1) * ?s"
      using size [of i] by (simp_all add: holds_position_def)
    then show "i = p div ?s" by (rule int_div_unique [symmetric])
  qed
qed

lemma holds_unique_few:
  assumes "int len < n" "0 \<le> p" "p < int len"
  shows "\<exists>!i. 0 \<le> i \<and> i < n \<and> holds_position len n i p"
proof (rule ex1I [of _ p])
  have size: "part_size len n i = (if i < int len then 1 else 0)" for i
    using assms by (simp add: part_size_def)
  show "0 \<le> p \<and> p < n \<and> holds_position len n p p"
    using assms by (simp add: holds_position_def size)
  fix i assume "0 \<le> i \<and> i < n \<and> holds_position len n i p"
  then show "i = p" by (auto simp: holds_position_def size split: if_splits)
qed

section \<open>Properties\<close>

definition assigned :: "assignment_state \<Rightarrow> int \<Rightarrow> job \<Rightarrow> bool" where
  "assigned s i j =
     (case Workload s i of Inr (Some w) \<Rightarrow> j \<in> set (wl_jobs w) | _ \<Rightarrow> False)"

lemma Workload_balanced:
  assumes "assignment_inv s" and "BalanceWorkload s n v = Inr (s', e)"
  shows "Workload s' i =
    (if 0 \<le> i \<and> i < n then Inr (Some \<lparr>wl_jobs = part_of (as_jobs s) n i, wl_version = 0\<rparr>)
     else Inl (Errorf (''Workloads not found on index '' @ show_int i) None))"
proof -
  obtain s1 where "BalanceWorkload s n v = Inr (s1, None)" "as_setName s1 = as_setName s"
    "map_of (ws_workloads (as_config s1)) = assignment_target s n"
    using BalanceWorkload_spec [OF assms(1)] by metis
  then show ?thesis
    using assms(2) by (simp add: Workload_def assignment_target_def assignation_at)
qed

lemma assigned_balanced:
  assumes "assignment_inv s" and "BalanceWorkload s n v = Inr (s', e)" and "0 < n"
  shows "assigned s' i j \<longleftrightarrow> 0 \<le> i \<and> i < n \<and>
    (\<exists>p < length (as_jobs s). as_jobs s ! p = j \<and> holds_position (length (as_jobs s)) n i (int p))"
proof (cases "0 \<le> i \<and> i < n")
  case True
  then show ?thesis
    using assms(3) by (simp add: assigned_def Workload_balanced [OF assms(1,2)] part_of_nth)
next
  case False
  then show ?thesis by (auto simp: assigned_def Workload_balanced [OF assms(1,2)])
qed

text \<open>With distinct jobs, who is assigned a job is who holds its position.\<close>

lemma assigned_position:
  assumes "assignment_inv s" "BalanceWorkload s n v = Inr (s', e)" "0 < n"
    and "distinct (as_jobs s)" "p < length (as_jobs s)"
  shows "assigned s' i (as_jobs s ! p) \<longleftrightarrow>
    0 \<le> i \<and> i < n \<and> holds_position (length (as_jobs s)) n i (int p)"
  unfolding assigned_balanced [OF assms(1-3)] using assms(4,5) nth_eq_iff_index_eq by blast

text \<open>
  C1 \<open>BalanceWorkload\<close> refines its specification, for every requested size, zero and
  negative ones included: it never panics (no slice out of bounds, no overflow of the
  products) and returns no error, the map then is exactly the assignation of the fixed job
  list to \<open>setName-0 .. setName-(n-1)\<close> (workers of a larger earlier size are gone), the
  version is the given one, except that a call for no workers leaves the old version, and the
  invariant is kept.
\<close>

theorem balance_workload_refines:
  assumes "assignment_inv s"
  shows "\<exists>s'. BalanceWorkload s n v = Inr (s', None) \<and> assignment_inv s'
    \<and> map_of (ws_workloads (Workloads s')) = assignation (as_setName s) (as_jobs s) n
    \<and> ws_version (Workloads s') = (if n = 0 then ws_version (Workloads s) else v)
    \<and> as_setName s' = as_setName s \<and> as_jobs s' = as_jobs s"
proof -
  obtain s1 where "BalanceWorkload s n v = Inr (s1, None)" "assignment_inv s1"
    "as_setName s1 = as_setName s" "as_jobs s1 = as_jobs s"
    "map_of (ws_workloads (as_config s1)) = assignment_target s n"
    "ws_version (as_config s1) = (if n = 0 then ws_version (as_config s) else v)"
    by (rule BalanceWorkload_spec [OF assms])
  then show ?thesis by (simp add: Workloads_def assignment_target_def)
qed

theorem balance_workload_refines_witness:
  "\<exists>s'. BalanceWorkload (NewState [Job ''a'', Job ''b'', Job ''c''] ''w'') 2 1 = Inr (s', None)
    \<and> map_of (ws_workloads (Workloads s')) =
        assignation ''w'' [Job ''a'', Job ''b'', Job ''c''] 2"
proof -
  have "assignment_inv (NewState [Job ''a'', Job ''b'', Job ''c''] ''w'')"
    by (rule assignment_inv_new) simp
  from balance_workload_refines [OF this, of 2 1] show ?thesis by (auto simp: NewState_def)
qed

text \<open>
  After \<open>BalanceWorkload\<close> for \<open>n > 0\<close> workers, \<open>Workload(i)\<close> answers for exactly the
  indices below \<open>n\<close>, and an error for the others; the number of jobs of worker \<open>i\<close> is
  the quotient, plus one for the first \<open>length mod n\<close> workers, so two workers differ by at
  most one job.
\<close>

theorem workload_sizes:
  assumes "assignment_inv s" and "BalanceWorkload s n v = Inr (s', e)" and "0 < n"
  shows "if 0 \<le> i \<and> i < n
    then \<exists>w. Workload s' i = Inr (Some w)
      \<and> int (length (wl_jobs w)) = int (length (as_jobs s)) div n
          + (if i < int (length (as_jobs s)) mod n then 1 else 0)
    else Workload s' i = Inl (Errorf (''Workloads not found on index '' @ show_int i) None)"
  using assms(3) length_part_of [of n i "as_jobs s"]
  by (simp add: Workload_balanced [OF assms(1,2)] part_size_def)

theorem workload_sizes_witness:
  "\<exists>s' w. BalanceWorkload (NewState [Job ''a'', Job ''b'', Job ''c''] ''w'') 2 1 = Inr (s', None)
    \<and> Workload s' 0 = Inr (Some w) \<and> length (wl_jobs w) = 2"
proof -
  have inv: "assignment_inv (NewState [Job ''a'', Job ''b'', Job ''c''] ''w'')"
    by (rule assignment_inv_new) simp
  then obtain s' where s': "BalanceWorkload (NewState [Job ''a'', Job ''b'', Job ''c''] ''w'') 2 1
      = Inr (s', None)"
    by (rule BalanceWorkload_spec)
  show ?thesis using workload_sizes [OF inv s', of 0] s' by (auto simp: NewState_def)
qed

text \<open>
  C13 Every job is assigned to exactly one worker if and only if the number of workers divides
  the number of jobs or exceeds it.
\<close>

theorem balance_exactly_once_iff:
  assumes "assignment_inv s" and "distinct (as_jobs s)" and "0 < n"
    and "BalanceWorkload s n v = Inr (s', e)"
  shows "(\<forall>j \<in> set (as_jobs s). \<exists>!i. assigned s' i j) \<longleftrightarrow>
    int (length (as_jobs s)) mod n = 0 \<or> int (length (as_jobs s)) < n"
    (is "?once \<longleftrightarrow> ?even \<or> ?few")
proof
  let ?len = "length (as_jobs s)"
  note pos = assigned_position [OF assms(1,4,3,2)]
  show "?even \<or> ?few" if ?once
  proof (rule ccontr)
    assume "\<not> (?even \<or> ?few)"
    then have uneven: "n < int ?len" "int ?len mod n \<noteq> 0" by (auto simp: not_less order_le_less)
    then have last: "?len - 1 < ?len" "int (?len - 1) = int ?len - 1" using assms(3) by simp_all
    with that obtain i where "assigned s' i (as_jobs s ! (?len - 1))" by (metis nth_mem)
    then show False
      using last_position_lost [OF assms(3) uneven, of i] pos [OF last(1)] last(2) by auto
  qed
  show ?once if "?even \<or> ?few"
  proof
    fix j assume "j \<in> set (as_jobs s)"
    then obtain p where p: "p < ?len" "j = as_jobs s ! p" by (metis in_set_conv_nth)
    then show "\<exists>!i. assigned s' i j"
      using that holds_unique_even [OF assms(3), of ?len "int p"]
        holds_unique_few [of ?len n "int p"] by (auto simp: pos)
  qed
qed

theorem balance_exactly_once_iff_witness:
  "\<exists>s'. BalanceWorkload (NewState [Job ''a'', Job ''b'', Job ''c''] ''w'') 2 1 = Inr (s', None)
    \<and> \<not> (\<forall>j \<in> {Job ''a'', Job ''b'', Job ''c''}. \<exists>!i. assigned s' i j)"
proof -
  have inv: "assignment_inv (NewState [Job ''a'', Job ''b'', Job ''c''] ''w'')"
    by (rule assignment_inv_new) simp
  then obtain s' where s': "BalanceWorkload (NewState [Job ''a'', Job ''b'', Job ''c''] ''w'') 2 1
      = Inr (s', None)"
    by (rule BalanceWorkload_spec)
  have "distinct (as_jobs (NewState [Job ''a'', Job ''b'', Job ''c''] ''w''))"
    by (simp add: NewState_def)
  from balance_exactly_once_iff [OF inv this _ s'] s' show ?thesis
    by (simp add: NewState_def)
qed

text \<open>
  When the number of workers neither divides the number of jobs nor exceeds it, the last
  job of the list is assigned to no worker at all, and some job to two workers.
\<close>

theorem balance_loses_last_job:
  assumes "assignment_inv s" and "distinct (as_jobs s)" and "0 < n"
    and "n < int (length (as_jobs s))" and "int (length (as_jobs s)) mod n \<noteq> 0"
    and "BalanceWorkload s n v = Inr (s', e)"
  shows "(\<forall>i. \<not> assigned s' i (last (as_jobs s)))
    \<and> (\<exists>j \<in> set (as_jobs s). \<exists>i k. i < k \<and> assigned s' i j \<and> assigned s' k j)"
proof
  let ?len = "length (as_jobs s)"
  note pos = assigned_position [OF assms(1,6,3,2)]
  have "as_jobs s \<noteq> []" using assms(3,4) by auto
  then have last: "?len - 1 < ?len" "int (?len - 1) = int ?len - 1"
    "last (as_jobs s) = as_jobs s ! (?len - 1)"
    by (simp_all add: last_conv_nth Suc_leI)
  show "\<forall>i. \<not> assigned s' i (last (as_jobs s))"
    using last_position_lost [OF assms(3-5)] pos [OF last(1)] last(2,3) by auto
  obtain p i k where "p < ?len" "0 \<le> i" "i < k" "k < n"
    "holds_position ?len n i (int p)" "holds_position ?len n k (int p)"
    by (rule position_held_twice [OF assms(3-5)])
  then have "as_jobs s ! p \<in> set (as_jobs s)" "i < k" "assigned s' i (as_jobs s ! p)"
    "assigned s' k (as_jobs s ! p)" by (simp_all add: pos)
  then show "\<exists>j \<in> set (as_jobs s). \<exists>i k. i < k \<and> assigned s' i j \<and> assigned s' k j"
    by blast
qed

theorem balance_loses_last_job_witness:
  "\<exists>s'. BalanceWorkload (NewState [Job ''a'', Job ''b'', Job ''c''] ''w'') 2 1 = Inr (s', None)
    \<and> \<not> assigned s' 0 (Job ''c'') \<and> \<not> assigned s' 1 (Job ''c'')"
proof -
  have inv: "assignment_inv (NewState [Job ''a'', Job ''b'', Job ''c''] ''w'')"
    by (rule assignment_inv_new) simp
  then obtain s' where s': "BalanceWorkload (NewState [Job ''a'', Job ''b'', Job ''c''] ''w'') 2 1
      = Inr (s', None)"
    by (rule BalanceWorkload_spec)
  have "distinct (as_jobs (NewState [Job ''a'', Job ''b'', Job ''c''] ''w''))"
    by (simp add: NewState_def)
  from balance_loses_last_job [OF inv this _ _ _ s'] s' show ?thesis
    by (simp add: NewState_def)
qed

text \<open>
  C37 The assignation is deterministic: after any history of calls, the assignation is the one
  a fresh state computes for the last size; neither the earlier sizes nor the versions matter.
\<close>

theorem balance_history_independent:
  assumes "int (length js) < 2 ^ 63"
  shows "\<exists>s' s0. balances BalanceWorkload (NewState js name) (cs @ [(n, v)]) = Inr s'
    \<and> BalanceWorkload (NewState js name) n w = Inr (s0, None)
    \<and> map_of (ws_workloads (Workloads s')) = map_of (ws_workloads (Workloads s0))"
proof -
  have inv: "assignment_inv (NewState js name)" using assms by (rule assignment_inv_new)
  obtain s' where "balances BalanceWorkload (NewState js name) (cs @ [(n, v)]) = Inr s'"
    using asg.balances_total [OF inv] by blast
  moreover obtain s0 where "BalanceWorkload (NewState js name) n w = Inr (s0, None)"
    using asg.balance_total [OF inv] by blast
  ultimately show ?thesis
    using asg.balances_last [OF inv] asg.balance_map [OF inv] by metis
qed

theorem balance_history_independent_witness:
  "\<exists>s' s0. balances BalanceWorkload (NewState [Job ''a''] ''w'') ([(5, 1), (0, 2)] @ [(1, 3)]) = Inr s'
    \<and> BalanceWorkload (NewState [Job ''a''] ''w'') 1 1 = Inr (s0, None)
    \<and> map_of (ws_workloads (Workloads s')) = map_of (ws_workloads (Workloads s0))"
  by (rule balance_history_independent) simp

end
