(* ===== verification/Events.thy ===== *)
theory Events
  imports Prelude GoText
begin

text \<open>
  \<open>services/controller/internal/app/swarm/events.go\<close>: the states of a worker and the
  events that record a state, a version or an error with a time stamp. The clock and the
  rendering of a time are the standard library's; the time is a type parameter and its
  \<open>String\<close> method an argument.
\<close>

text \<open>Durations are \<open>int64\<close> nanoseconds.\<close>

definition second_ns :: int where
  "second_ns = 1000000000"

definition DefaultWorkerFrequency :: int where
  "DefaultWorkerFrequency = second_ns * 5"

datatype wstate = NeedsRefresh | WaitingAssignation | Syncing

primrec state_text :: "wstate \<Rightarrow> string" where
  "state_text NeedsRefresh = ''needs refresh''"
| "state_text WaitingAssignation = ''waiting config''"
| "state_text Syncing = ''syncing''"

record 't stateEvent =
  se_time :: 't
  se_state :: wstate

record 't versionUpdateEvent =
  ve_time :: 't
  ve_version :: int

record 't errorEvent =
  ee_time :: 't
  ee_error :: goerror

definition newStateEvent :: "'t \<Rightarrow> wstate \<Rightarrow> 't stateEvent" where
  "newStateEvent now s = \<lparr>se_time = now, se_state = s\<rparr>"

definition newVersionUpdateEvent :: "'t \<Rightarrow> int \<Rightarrow> 't versionUpdateEvent" where
  "newVersionUpdateEvent now v = \<lparr>ve_time = now, ve_version = v\<rparr>"

definition newErrorEvent :: "'t \<Rightarrow> goerror \<Rightarrow> 't errorEvent" where
  "newErrorEvent now e = \<lparr>ee_time = now, ee_error = e\<rparr>"

text \<open>The interface \<open>Event\<close>: \<open>Time\<close> and \<open>String\<close> of the three records.\<close>

definition stateEvent_Time :: "'t stateEvent \<Rightarrow> 't" where
  "stateEvent_Time e = se_time e"

definition versionUpdateEvent_Time :: "'t versionUpdateEvent \<Rightarrow> 't" where
  "versionUpdateEvent_Time e = ve_time e"

definition errorEvent_Time :: "'t errorEvent \<Rightarrow> 't" where
  "errorEvent_Time e = ee_time e"

definition stateEvent_String :: "('t \<Rightarrow> string) \<Rightarrow> 't stateEvent \<Rightarrow> string" where
  "stateEvent_String show_time e =
     show_time (se_time e) @ '' got state '' @ state_text (se_state e)"

definition versionUpdateEvent_String :: "('t \<Rightarrow> string) \<Rightarrow> 't versionUpdateEvent \<Rightarrow> string" where
  "versionUpdateEvent_String show_time e =
     show_time (ve_time e) @ '' got version '' @ show_int (ve_version e)"

text \<open>
  \<open>errorEvent.String\<close> formats its own \<open>e.String()\<close>, which is evaluated first. The value
  \<open>None\<close> is a call that does not return.
\<close>

partial_function (option) errorEvent_String :: "('t \<Rightarrow> string) \<Rightarrow> 't errorEvent \<Rightarrow> string option"
where
  "errorEvent_String show_time e =
     Option.bind (errorEvent_String show_time e)
       (\<lambda>s. Some (show_time (ee_time e) @ '' got error '' @ s))"

text \<open>
  \<open>errorEvent.String\<close> never returns: for every event the call recurs on the same event
  without end, whatever the time renders to. The renderings of the other two events always
  return, and tell states and versions apart.
\<close>

theorem error_event_string_diverges:
  "errorEvent_String show_time e = None
   \<and> (stateEvent_String show_time (newStateEvent t s) = stateEvent_String show_time (newStateEvent t s')
        \<longleftrightarrow> s = s')
   \<and> (versionUpdateEvent_String show_time (newVersionUpdateEvent t v) =
        versionUpdateEvent_String show_time (newVersionUpdateEvent t v') \<longleftrightarrow> v = v')"
proof -
  have "False" if "errorEvent_String show_time e = Some r" for r
    by (rule errorEvent_String.raw_induct [where P = "\<lambda>_ _ _. False", OF _ that])
      (auto simp: bind_eq_Some_conv)
  then have "errorEvent_String show_time e = None" by fastforce
  then show ?thesis
    by (cases s; cases s')
      (simp_all add: stateEvent_String_def newStateEvent_def versionUpdateEvent_String_def
        newVersionUpdateEvent_def)
qed

end
