(* ===== verification/Worker.thy ===== *)
theory Worker
  imports Interfaces Events
begin

text \<open>
  \<open>services/controller/internal/app/swarm/worker.go\<close>: a worker of the pool and the list of
  workers that \<open>sort.Sort\<close> orders by index. Workers are used through pointers, and a
  restart in flight keeps the pointer of a worker that may have left the pool, so they live
  in a heap: a list that grows by allocation, an address is a position. The field
  \<open>delegated\<close> is the argument of the operations that call through it. \<open>stateMutex\<close>
  makes each method one atomic step.
\<close>

section \<open>Workers\<close>

record 'ip worker =
  w_name :: string
  w_IP :: 'ip
  w_index :: int
  w_version :: int
  w_state :: wstate

type_synonym 'ip heap = "'ip worker list"

definition newWorker :: "int \<Rightarrow> string \<Rightarrow> 'ip \<Rightarrow> 'ip worker" where
  "newWorker idx name IP =
     \<lparr>w_name = name, w_IP = IP, w_index = idx, w_version = 0, w_state = WaitingAssignation\<rparr>"

definition worker_NeedsRefresh :: "'ip worker \<Rightarrow> bool" where
  "worker_NeedsRefresh w = (w_state w = NeedsRefresh)"

definition MarkToRefresh :: "'ip worker \<Rightarrow> 'ip worker" where
  "MarkToRefresh w = w\<lparr>w_state := NeedsRefresh\<rparr>"

definition MarkRefreshed :: "'ip worker \<Rightarrow> 'ip worker" where
  "MarkRefreshed w = w\<lparr>w_state := Syncing\<rparr>"

lemma mark_simps [simp]:
  "w_name (MarkToRefresh w) = w_name w" "w_name (MarkRefreshed w) = w_name w"
  "w_index (MarkToRefresh w) = w_index w" "w_index (MarkRefreshed w) = w_index w"
  "w_state (MarkToRefresh w) = NeedsRefresh" "w_state (MarkRefreshed w) = Syncing"
  "w_name (newWorker i n ip) = n" "w_index (newWorker i n ip) = i"
  "w_state (newWorker i n ip) = WaitingAssignation"
  by (simp_all add: MarkToRefresh_def MarkRefreshed_def newWorker_def)

section \<open>workerList, the argument of sort.Sort\<close>

type_synonym workerList = "nat list"

definition deref :: "'ip heap \<Rightarrow> nat \<Rightarrow> 'ip worker go" where
  "deref h a = (if a < length h then Inr (h ! a) else Inl NilDereference)"

definition workerList_Len :: "workerList \<Rightarrow> nat" where
  "workerList_Len e = length e"

definition workerList_Less :: "'ip heap \<Rightarrow> workerList \<Rightarrow> nat \<Rightarrow> nat \<Rightarrow> bool go" where
  "workerList_Less h e i j =
     go_bind (go_index e (int i)) (\<lambda>a. go_bind (go_index e (int j)) (\<lambda>b.
     go_bind (deref h a) (\<lambda>v. go_bind (deref h b) (\<lambda>w. Inr (w_index v < w_index w)))))"

definition workerList_Swap :: "workerList \<Rightarrow> nat \<Rightarrow> nat \<Rightarrow> workerList go" where
  "workerList_Swap e i j =
     go_bind (go_index e (int i)) (\<lambda>a. go_bind (go_index e (int j)) (\<lambda>b.
     Inr (e[i := b, j := a])))"

definition allocated :: "'ip heap \<Rightarrow> nat list \<Rightarrow> bool" where
  "allocated h e = list_all (\<lambda>a. a < length h) e"

abbreviation index_at :: "'ip heap \<Rightarrow> nat \<Rightarrow> int" where
  "index_at h a \<equiv> w_index (h ! a)"

interpretation wl: sort_data workerList_Len "workerList_Less h" workerList_Swap
    "\<lambda>e. e" "index_at h" "allocated h" for h :: "'ip heap"
proof
  fix l :: workerList and i j
  show "workerList_Len l = length l" by (simp add: workerList_Len_def)
  assume ok: "allocated h l" and i: "i < workerList_Len l" and j: "j < workerList_Len l"
  then have a: "l ! i < length h" "l ! j < length h"
    by (simp_all add: allocated_def list_all_length workerList_Len_def)
  then show "workerList_Less h l i j = Inr (index_at h (l ! i) < index_at h (l ! j))"
    using i j by (simp add: workerList_Less_def workerList_Len_def go_index_ok deref_def)
  have "allocated h (l[i := l ! j, j := l ! i])"
    using ok a i j by (auto simp: allocated_def list_all_length workerList_Len_def nth_list_update)
  then show "\<exists>l'. workerList_Swap l i j = Inr l' \<and> allocated h l' \<and> l' = l[i := l ! j, j := l ! i]"
    using i j by (simp add: workerList_Swap_def workerList_Len_def go_index_ok)
qed

text \<open>
  \<open>sort.Sort\<close> on a list of allocated workers, whatever comparisons and swaps it makes
  through \<open>Less\<close> and \<open>Swap\<close>: the result is a permutation of the list in which the indices
  never decrease, and with distinct indices it is the one stable sort by index.
\<close>

theorem worker_list_sorted:
  assumes "allocated h ws"
    and "sort_result workerList_Len (workerList_Less h) workerList_Swap ws ws'"
  shows "mset ws' = mset ws \<and> sorted (map (index_at h) ws')
    \<and> (if distinct (map (index_at h) ws) then ws' = sort_key (index_at h) ws else True)"
  using wl.sorted_result_sorted [OF assms] wl.sorted_result_unique [OF assms] by simp

theorem worker_list_sorted_witness:
  "\<exists>ws'. workerList_Swap [0, 1] 0 1 = Inr ws'
    \<and> sorted (map (index_at [newWorker 2 ''w-2'' (), newWorker 1 ''w-1'' ()]) ws')"
proof -
  let ?h = "[newWorker 2 ''w-2'' (), newWorker 1 ''w-1'' ()]"
  have al: "allocated ?h [0, 1]" by (simp add: allocated_def)
  have sw: "workerList_Swap [0, 1] 0 1 = Inr [1, 0]"
    by (simp add: workerList_Swap_def go_index_def)
  then have "swaps workerList_Len workerList_Swap [0, 1] [1, 0]"
    by (intro swaps.swapped [OF swaps.unsorted]) (simp_all add: workerList_Len_def)
  moreover have "workerList_Less ?h [1, 0] (Suc 0) 0 = Inr False"
    by (simp add: workerList_Less_def go_index_def deref_def)
  ultimately have "sort_result workerList_Len (workerList_Less ?h) workerList_Swap [0, 1] [1, 0]"
    by (simp add: sort_result_def workerList_Len_def less_Suc_eq)
  from worker_list_sorted [OF al this] sw show ?thesis by blast
qed

end
