(* ===== verification/Worker_Pool.thy ===== *)
theory Worker_Pool
  imports Assignment Worker
begin

text \<open>
  \<open>services/controller/internal/app/swarm/pool.go\<close>: the pool of workers, its expected
  size and version, the marking of workers on a change of size, and the conciliation loop
  that restarts marked workers. Methods run under \<open>mutex\<close> and are atomic steps; the
  goroutines that \<open>conciliate\<close> starts run beside them. The interface \<open>assigner\<close> is the
  arguments \<open>balance\<close> and \<open>current\<close>, the interface \<open>delegated\<close> the arguments
  \<open>assign\<close> and \<open>restart\<close> over a world \<open>'d\<close>.
\<close>

section \<open>State\<close>

record ('s, 'ip) pool =
  p_index :: "(string, nat) gomap"
  p_heap :: "'ip heap"
  p_state :: 's
  p_version :: int
  p_expectedSize :: int
  p_underVariation :: bool
  p_stopped :: bool

definition NewWorkerPool :: "'s \<Rightarrow> ('s, 'ip) pool" where
  "NewWorkerPool cmp =
     \<lparr>p_index = [], p_heap = [], p_state = cmp, p_version = 0, p_expectedSize = 0,
      p_underVariation = True, p_stopped = False\<rparr>"

section \<open>Operations\<close>

text \<open>
  \<open>geAllWorkers\<close>: the range over the map, then \<open>sort.Sort\<close>. As \<open>worker_list_sorted\<close>
  shows, a result of the sort is the stable sort of some permutation, and the permutation is
  already open in the order of the range.
\<close>

definition geAllWorkers :: "string range_order \<Rightarrow> ('s, 'ip) pool \<Rightarrow> workerList" where
  "geAllWorkers ro p = sort_key (index_at (p_heap p)) (map snd (mrange ro (p_index p)))"

text \<open>The marking loop of \<open>UpdateExpectedSize\<close>, from the counter \<open>i\<close>.\<close>

function mark_loop :: "workerList \<Rightarrow> int \<Rightarrow> int \<Rightarrow> 'ip heap \<Rightarrow> 'ip heap go" where
  "mark_loop ws i tot h =
     (if i < tot
      then go_bind (go_index ws i) (\<lambda>a. go_bind (deref h a)
             (\<lambda>w. mark_loop ws (i + 1) tot (h[a := MarkToRefresh w])))
      else Inr h)"
  by pat_completeness auto
termination by (relation "measure (\<lambda>(ws, i, tot, h). nat (tot - i))") auto

declare mark_loop.simps [simp del]

definition UpdateExpectedSize ::
    "('s \<Rightarrow> int \<Rightarrow> int \<Rightarrow> ('s \<times> goerror option) go) \<Rightarrow> ('s \<Rightarrow> workloads)
     \<Rightarrow> ('d \<Rightarrow> workloads \<Rightarrow> ('d \<times> goerror option) go) \<Rightarrow> string range_order
     \<Rightarrow> int \<Rightarrow> ('s, 'ip) pool \<times> 'd \<Rightarrow> (('s, 'ip) pool \<times> 'd) go" where
  "UpdateExpectedSize balance current assign ro newSize pd =
     (let (p, d) = pd in
      if p_expectedSize p = newSize then Inr (p, d)
      else
        let previousSize = p_expectedSize p;
            p1 = p\<lparr>p_expectedSize := newSize, p_underVariation := True,
                   p_version := wrap64 (p_version p + 1)\<rparr>
        in go_bind (balance (p_state p1) newSize (p_version p1)) (\<lambda>(st, balance_err).
           let p2 = p1\<lparr>p_state := st\<rparr>
           in go_bind (assign d (current st)) (\<lambda>(d', assign_err).
              if previousSize = 0 then Inr (p2, d')
              else
                let ws = geAllWorkers ro p2;
                    total0 = (if newSize > previousSize then previousSize else newSize);
                    total = (if int (length ws) < total0 then int (length ws) else total0)
                in go_bind (mark_loop ws 0 total (p_heap p2))
                     (\<lambda>h. Inr (p2\<lparr>p_heap := h\<rparr>, d')))))"

definition AddWorkerIfNotExists ::
    "int \<Rightarrow> string \<Rightarrow> 'ip \<Rightarrow> ('s, 'ip) pool \<Rightarrow> ('s, 'ip) pool \<times> bool" where
  "AddWorkerIfNotExists idx name IP p =
     (case map_of (p_index p) name of
        Some _ \<Rightarrow> (p, False)
      | None \<Rightarrow>
          (p\<lparr>p_index := AList.update name (length (p_heap p)) (p_index p),
             p_heap := p_heap p @ [newWorker idx name IP]\<rparr>, True))"

definition RemoveWorkerByName :: "string \<Rightarrow> ('s, 'ip) pool \<Rightarrow> ('s, 'ip) pool" where
  "RemoveWorkerByName name p = p\<lparr>p_index := AList.delete name (p_index p)\<rparr>"

definition Terminate :: "('s, 'ip) pool \<Rightarrow> ('s, 'ip) pool go" where
  "Terminate p = (if p_stopped p then Inl CloseOfClosedChannel else Inr (p\<lparr>p_stopped := True\<rparr>))"

text \<open>The loop of \<open>conciliate\<close>: the workers for which it starts a goroutine, in order.\<close>

fun conciliate_loop :: "'ip heap \<Rightarrow> workerList \<Rightarrow> workerList" where
  "conciliate_loop h [] = []"
| "conciliate_loop h (a # ws) =
     (if \<not> worker_NeedsRefresh (h ! a) then conciliate_loop h ws
      else a # conciliate_loop h ws)"

definition conciliate ::
    "string range_order \<Rightarrow> ('s, 'ip) pool \<Rightarrow> ('s, 'ip) pool \<times> workerList" where
  "conciliate ro p =
     (if p_expectedSize p = 0 then (p, [])
      else if \<not> p_underVariation p then (p, [])
      else (p\<lparr>p_underVariation := False\<rparr>, conciliate_loop (p_heap p) (geAllWorkers ro p)))"

text \<open>The time a restart waits before it calls \<open>RestartWorker\<close>, in nanoseconds.\<close>

definition defaultSleepBeforeNotify :: int where
  "defaultSleepBeforeNotify = second_ns * 2"

definition restart_delay :: "'ip worker \<Rightarrow> int" where
  "restart_delay w =
     wrap64 (defaultSleepBeforeNotify * wrap64 (2 * wrap64 (1 + w_index w)))"

text \<open>
  \<open>requestRestart\<close> after the sleep, in its two atomic steps: the call of
  \<open>RestartWorker\<close>, and, when it returned no error, \<open>MarkRefreshed\<close> on the worker the
  goroutine was started with.
\<close>

definition restart_call ::
    "('d \<Rightarrow> string \<Rightarrow> ('d \<times> goerror option) go) \<Rightarrow> nat \<Rightarrow> ('s, 'ip) pool \<Rightarrow> 'd
     \<Rightarrow> ('d \<times> goerror option) go" where
  "restart_call restart a p d = go_bind (deref (p_heap p) a) (\<lambda>w. restart d (w_name w))"

definition restart_finish :: "nat \<Rightarrow> ('s, 'ip) pool \<Rightarrow> ('s, 'ip) pool go" where
  "restart_finish a p =
     go_bind (deref (p_heap p) a)
       (\<lambda>w. Inr (p\<lparr>p_heap := (p_heap p)[a := MarkRefreshed w]\<rparr>))"

definition requestRestart ::
    "('d \<Rightarrow> string \<Rightarrow> ('d \<times> goerror option) go) \<Rightarrow> nat \<Rightarrow> ('s, 'ip) pool \<times> 'd
     \<Rightarrow> ((('s, 'ip) pool \<times> 'd) \<times> goerror option) go" where
  "requestRestart restart a pd =
     (let (p, d) = pd in
      go_bind (restart_call restart a p d) (\<lambda>(d', err).
        case err of
          Some e \<Rightarrow> Inr ((p, d'), Some e)
        | None \<Rightarrow> go_bind (restart_finish a p) (\<lambda>p'. Inr ((p', d'), None))))"

definition pool_worker :: "string \<Rightarrow> ('s, 'ip) pool \<Rightarrow> goerror + nat" where
  "pool_worker name p =
     (case map_of (p_index p) name of
        None \<Rightarrow> Inl (Errorf (''no worker '' @ name @ '' found'') None)
      | Some v \<Rightarrow> Inr v)"

section \<open>Invariant\<close>

text \<open>
  The index names allocated workers by their own names, no two names share a worker.
\<close>

definition pool_inv :: "('s, 'ip) pool \<Rightarrow> bool" where
  "pool_inv p \<longleftrightarrow> mwf (p_index p) \<and> distinct (map snd (p_index p))
     \<and> (\<forall>e \<in> set (p_index p). snd e < length (p_heap p) \<and> w_name (p_heap p ! snd e) = fst e)"

definition registered :: "('s, 'ip) pool \<Rightarrow> nat set" where
  "registered p = snd ` set (p_index p)"

lemma pool_inv_new [inv_intros]: "pool_inv (NewWorkerPool s)"
  by (simp add: pool_inv_def NewWorkerPool_def)

lemma AList_update_new: "k \<notin> mkeys m \<Longrightarrow> AList.update k v m = m @ [(k, v)]"
  by (induction m) auto

lemma pool_inv_add [inv_intros]:
  assumes "pool_inv p"
  shows "pool_inv (fst (AddWorkerIfNotExists i n ip p))"
proof (cases "map_of (p_index p) n")
  case None
  then have "AList.update n (length (p_heap p)) (p_index p) = p_index p @ [(n, length (p_heap p))]"
    by (simp add: AList_update_new mkeys_None)
  moreover have "n \<notin> mkeys (p_index p)" using None by (simp add: mkeys_None)
  ultimately show ?thesis
    using assms None by (fastforce simp: pool_inv_def AddWorkerIfNotExists_def mwf_def nth_append)
qed (simp add: assms AddWorkerIfNotExists_def)

lemma pool_inv_remove [inv_intros]: "pool_inv p \<Longrightarrow> pool_inv (RemoveWorkerByName n p)"
proof -
  assume "pool_inv p"
  moreover have "AList.delete n m = filter (\<lambda>e. n \<noteq> fst e) m" for m :: "(string, nat) gomap"
    by (simp add: AList.delete_eq case_prod_unfold)
  ultimately show ?thesis
    by (simp add: pool_inv_def RemoveWorkerByName_def mwf_def distinct_map_filter)
qed

text \<open>A heap update that keeps length and names keeps the invariant.\<close>

definition same_names :: "'ip heap \<Rightarrow> 'ip heap \<Rightarrow> bool" where
  "same_names h h' \<longleftrightarrow> map w_name h' = map w_name h"

lemma pool_inv_heap:
  assumes "pool_inv p" and "same_names (p_heap p) (p_heap q)" and "p_index q = p_index p"
  shows "pool_inv q"
proof -
  from assms(2) have len: "length (p_heap q) = length (p_heap p)"
    unfolding same_names_def by (rule map_eq_imp_length_eq)
  have name: "w_name (p_heap q ! a) = w_name (p_heap p ! a)" if "a < length (p_heap p)" for a
  proof -
    have "map w_name (p_heap q) ! a = map w_name (p_heap p) ! a"
      using assms(2) by (simp only: same_names_def)
    then show ?thesis using that len by simp
  qed
  show ?thesis
    using assms(1) unfolding pool_inv_def assms(3) len by (simp add: name)
qed

lemma same_names_refl [simp]: "same_names h h"
  by (simp add: same_names_def)

lemma same_names_update:
  "a < length h \<Longrightarrow> w_name w = w_name (h ! a) \<Longrightarrow> same_names h (h[a := w])"
  by (simp add: same_names_def map_update) (metis list_update_id map_update)

section \<open>The list of workers\<close>

lemma set_geAllWorkers:
  assumes "pool_inv p" and "range_order ro"
  shows "set (geAllWorkers ro p) = registered p"
  using assms by (simp add: geAllWorkers_def registered_def pool_inv_def set_mrange)

lemma mset_geAllWorkers:
  assumes "pool_inv p" and "range_order ro"
  shows "mset (geAllWorkers ro p) = mset (map snd (p_index p))"
  using assms by (simp add: geAllWorkers_def pool_inv_def mset_mrange)

lemma distinct_geAllWorkers:
  assumes "pool_inv p" and "range_order ro"
  shows "distinct (geAllWorkers ro p)"
  using mset_geAllWorkers [OF assms] assms(1)
  by (metis mset_eq_imp_distinct_iff pool_inv_def)

lemma length_geAllWorkers:
  assumes "pool_inv p" and "range_order ro"
  shows "length (geAllWorkers ro p) = length (p_index p)"
  by (metis length_map mset_geAllWorkers [OF assms] size_mset)

lemma allocated_geAllWorkers:
  assumes "pool_inv p" and "range_order ro" and "a \<in> set (geAllWorkers ro p)"
  shows "a < length (p_heap p)"
  using assms set_geAllWorkers [OF assms(1,2)] by (auto simp: registered_def pool_inv_def)

lemma sorted_geAllWorkers: "sorted (map (index_at (p_heap p)) (geAllWorkers ro p))"
  by (simp add: geAllWorkers_def)

text \<open>The list does not depend on state, size or version, nor on the workers' states.\<close>

lemma geAllWorkers_cong:
  assumes "p_index q = p_index p" and "p_heap q = p_heap p"
  shows "geAllWorkers ro q = geAllWorkers ro p"
  using assms by (simp add: geAllWorkers_def)

section \<open>Marking\<close>

definition mark_all :: "nat set \<Rightarrow> 'ip heap \<Rightarrow> 'ip heap" where
  "mark_all A h = map (\<lambda>a. if a \<in> A then MarkToRefresh (h ! a) else h ! a) [0..<length h]"

lemma length_mark_all [simp]: "length (mark_all A h) = length h"
  by (simp add: mark_all_def)

lemma nth_mark_all [simp]:
  "a < length h \<Longrightarrow> mark_all A h ! a = (if a \<in> A then MarkToRefresh (h ! a) else h ! a)"
  by (simp add: mark_all_def)

lemma mark_all_empty [simp]: "mark_all {} h = h"
  by (rule nth_equalityI) simp_all

lemma same_names_mark_all [simp]: "same_names h (mark_all A h)"
  unfolding same_names_def by (rule nth_equalityI) simp_all

lemma mark_loop_spec:
  assumes "\<forall>a \<in> set ws. a < length h" and "0 \<le> i" and "tot \<le> int (length ws)"
  shows "mark_loop ws i tot h = Inr (mark_all (set (take (nat (tot - i)) (drop (nat i) ws))) h)"
  using assms
proof (induction "nat (tot - i)" arbitrary: i h)
  case 0
  then show ?case by (simp add: mark_loop.simps)
next
  case (Suc d)
  then have i: "i < tot" "nat i < length ws" and d: "d = nat (tot - (i + 1))" by linarith+
  let ?a = "ws ! nat i"
  have a: "?a < length h" using Suc.prems(1) i(2) by simp
  have "mark_loop ws i tot h = mark_loop ws (i + 1) tot (h[?a := MarkToRefresh (h ! ?a)])"
    using i a Suc.prems(2,3) by (subst mark_loop.simps) (simp add: go_index_def deref_def)
  also have "\<dots> = Inr (mark_all (set (take d (drop (nat (i + 1)) ws))) (h[?a := MarkToRefresh (h ! ?a)]))"
    using Suc.hyps(1) [OF d] Suc.prems d by simp
  also have "take (nat (tot - i)) (drop (nat i) ws) = ?a # take d (drop (nat (i + 1)) ws)"
    using Suc.hyps(2) i(2) Suc.prems(2) by (simp add: Cons_nth_drop_Suc [symmetric] nat_add_distrib
        flip: Suc.hyps(2))
  ultimately show ?case
    using a by (auto intro!: nth_equalityI simp: nth_list_update MarkToRefresh_def)
qed

section \<open>A change of size, over any assigner\<close>

text \<open>
  The workers a change to size \<open>n\<close> marks: none when the pool had no size before, otherwise
  the first ones in index order, as many as exist in both sizes.
\<close>

definition to_refresh :: "string range_order \<Rightarrow> ('s, 'ip) pool \<Rightarrow> int \<Rightarrow> nat set" where
  "to_refresh ro p n =
     (if p_expectedSize p = 0 then {}
      else set (take (nat (min n (p_expectedSize p))) (geAllWorkers ro p)))"

lemma mark_loop_prefix:
  assumes "\<forall>a \<in> set ws. a < length h"
  shows "mark_loop ws 0 (if int (length ws) < k then int (length ws) else k) h
         = Inr (mark_all (set (take (nat k) ws)) h)"
  using mark_loop_spec [OF assms order_refl, of "if int (length ws) < k then int (length ws) else k"]
  by simp

context assigner
begin

lemma update_spec:
  assumes "ok (p_state p)" and "pool_inv p" and "range_order ro" and "p_expectedSize p \<noteq> n"
  obtains st where "balance (p_state p) n (wrap64 (p_version p + 1)) = Inr (st, None)"
    and "ok st" and "target st = target (p_state p)"
    and "map_of (ws_workloads (current st)) = target (p_state p) n"
    and "UpdateExpectedSize balance current assign ro n (p, d) =
      go_bind (assign d (current st)) (\<lambda>(d', e).
        Inr (p\<lparr>p_heap := mark_all (to_refresh ro p n) (p_heap p), p_state := st,
               p_version := wrap64 (p_version p + 1), p_expectedSize := n,
               p_underVariation := True\<rparr>, d'))"
proof -
  let ?v = "wrap64 (p_version p + 1)"
  obtain st where st: "balance (p_state p) n ?v = Inr (st, None)" "ok st"
    "target st = target (p_state p)" "map_of (ws_workloads (current st)) = target (p_state p) n"
    using balance_cases [OF assms(1)] by metis
  let ?p2 = "p\<lparr>p_expectedSize := n, p_underVariation := True, p_version := ?v, p_state := st\<rparr>"
  have ws: "geAllWorkers ro ?p2 = geAllWorkers ro p" by (rule geAllWorkers_cong) simp_all
  have al: "\<forall>a \<in> set (geAllWorkers ro p). a < length (p_heap p)"
    using allocated_geAllWorkers [OF assms(2,3)] by blast
  have "UpdateExpectedSize balance current assign ro n (p, d) =
      go_bind (assign d (current st)) (\<lambda>(d', e).
        Inr (p\<lparr>p_heap := mark_all (to_refresh ro p n) (p_heap p), p_state := st, p_version := ?v,
               p_expectedSize := n, p_underVariation := True\<rparr>, d'))"
  proof (cases "assign d (current st)")
    case (Inr r)
    then show ?thesis
      using assms(4) st(1)
      by (cases "p_expectedSize p < n"; cases r)
        (simp_all add: UpdateExpectedSize_def Let_def ws mark_loop_prefix [OF al] to_refresh_def
          min_absorb1 min_absorb2)
  qed (use assms(4) st(1) in \<open>simp add: UpdateExpectedSize_def Let_def\<close>)
  with st show ?thesis by (rule that)
qed

lemma update_result:
  assumes "ok (p_state p)" and "pool_inv p" and "range_order ro" and "p_expectedSize p \<noteq> n"
    and "UpdateExpectedSize balance current assign ro n (p, d) = Inr (p', d')"
  obtains st where "ok st" and "target st = target (p_state p)"
    and "map_of (ws_workloads (current st)) = target (p_state p) n"
    and "p' = p\<lparr>p_heap := mark_all (to_refresh ro p n) (p_heap p), p_state := st,
               p_version := wrap64 (p_version p + 1), p_expectedSize := n,
               p_underVariation := True\<rparr>"
    and "\<exists>e. assign d (current st) = Inr (d', e)"
proof -
  obtain st where st: "ok st" "target st = target (p_state p)"
    "map_of (ws_workloads (current st)) = target (p_state p) n"
    and eq: "UpdateExpectedSize balance current assign ro n (p, d) =
      go_bind (assign d (current st)) (\<lambda>(d', e).
        Inr (p\<lparr>p_heap := mark_all (to_refresh ro p n) (p_heap p), p_state := st,
               p_version := wrap64 (p_version p + 1), p_expectedSize := n,
               p_underVariation := True\<rparr>, d'))"
    using update_spec [OF assms(1-4)] by metis
  show ?thesis
    using that [OF st] assms(5) unfolding eq by (auto simp: go_bind_Inr_iff)
qed

text \<open>The only panic of a change of size is one of \<open>Assign\<close>.\<close>

lemma update_returns:
  assumes "ok (p_state p)" and "pool_inv p" and "range_order ro" and "\<And>st. ok st \<Longrightarrow> \<not> panics (assign d (current st))"
  shows "\<exists>r. UpdateExpectedSize balance current assign ro n (p, d) = Inr r"
proof (cases "p_expectedSize p = n")
  case True
  then show ?thesis by (simp add: UpdateExpectedSize_def)
next
  case False
  show ?thesis
  proof (rule update_spec [OF assms(1-3) False, of assign d])
    fix st
    assume st: "ok st" and u: "UpdateExpectedSize balance current assign ro n (p, d) =
      go_bind (assign d (current st)) (\<lambda>(d', e).
        Inr (p\<lparr>p_heap := mark_all (to_refresh ro p n) (p_heap p), p_state := st,
               p_version := wrap64 (p_version p + 1), p_expectedSize := n,
               p_underVariation := True\<rparr>, d'))"
    obtain r' where "assign d (current st) = Inr r'"
      using assms(4) [OF st] by (auto simp: not_panics_iff)
    then show ?thesis by (simp add: u split: prod.split)
  qed
qed

lemma update_preserves:
  assumes "ok (p_state p)" and "pool_inv p" and "range_order ro"
    and "UpdateExpectedSize balance current assign ro n (p, d) = Inr (p', d')"
  shows "pool_inv p' \<and> ok (p_state p') \<and> p_expectedSize p' = n
    \<and> target (p_state p') = target (p_state p) \<and> length (p_heap p') = length (p_heap p)
    \<and> p_index p' = p_index p"
proof (cases "p_expectedSize p = n")
  case True
  then show ?thesis using assms by (simp add: UpdateExpectedSize_def)
next
  case False
  obtain st where st: "ok st" "target st = target (p_state p)"
    and p': "p' = p\<lparr>p_heap := mark_all (to_refresh ro p n) (p_heap p), p_state := st,
      p_version := wrap64 (p_version p + 1), p_expectedSize := n, p_underVariation := True\<rparr>"
    by (rule update_result [OF assms(1-3) False assms(4)])
  have "pool_inv p'" by (rule pool_inv_heap [OF assms(2)]) (simp_all add: p')
  then show ?thesis using st p' by simp
qed

text \<open>The assignation of the pool's assigner stays the one for the pool's size.\<close>

lemma update_assignation:
  assumes "ok (p_state p)" and "pool_inv p" and "range_order ro"
    and "map_of (ws_workloads (current (p_state p))) = target (p_state p) (p_expectedSize p)"
    and "UpdateExpectedSize balance current assign ro n (p, d) = Inr (p', d')"
  shows "map_of (ws_workloads (current (p_state p'))) = target (p_state p') (p_expectedSize p')"
proof (cases "p_expectedSize p = n")
  case True
  then show ?thesis using assms by (simp add: UpdateExpectedSize_def)
next
  case False
  show ?thesis
    by (rule update_result [OF assms(1-3) False assms(5)]) (simp add: assms)
qed

end

section \<open>The pool implements the interfaces of the handlers\<close>

interpretation reg: worker_registry AddWorkerIfNotExists RemoveWorkerByName
    "\<lambda>p. mkeys (p_index p)" pool_inv
proof
  fix p :: "('s, 'ip) pool" and i n and ip :: 'ip
  show "mkeys (p_index (fst (AddWorkerIfNotExists i n ip p))) = insert n (mkeys (p_index p))"
  proof (cases "map_of (p_index p) n")
    case None
    then show ?thesis by (simp add: AddWorkerIfNotExists_def mkeys_update)
  next
    case (Some a)
    then have "n \<in> mkeys (p_index p)" unfolding mkeys_lookup by blast
    then show ?thesis using Some by (simp add: AddWorkerIfNotExists_def insert_absorb)
  qed
  show "snd (AddWorkerIfNotExists i n ip p) \<longleftrightarrow> n \<notin> mkeys (p_index p)"
    unfolding mkeys_None [symmetric] by (simp add: AddWorkerIfNotExists_def split: option.split)
  show "fst (AddWorkerIfNotExists i n ip p) = p" if "n \<in> mkeys (p_index p)"
    using that unfolding mkeys_lookup by (auto simp: AddWorkerIfNotExists_def)
  show "mkeys (p_index (RemoveWorkerByName n p)) = mkeys (p_index p) - {n}"
    by (simp add: RemoveWorkerByName_def mkeys_delete)
qed (simp_all add: inv_intros)

interpretation rsz: resizable "UpdateExpectedSize BalanceWorkload Workloads assign ro"
    "\<lambda>pd. p_expectedSize (fst pd)"
    "\<lambda>pd. pool_inv (fst pd) \<and> assignment_inv (p_state (fst pd)) \<and> range_order ro"
  for assign ro
proof
  fix n and pd pd' :: "(assignment_state, 'b) pool \<times> 'a"
  show "UpdateExpectedSize BalanceWorkload Workloads assign ro (p_expectedSize (fst pd)) pd = Inr pd"
    by (cases pd) (simp add: UpdateExpectedSize_def)
  assume "pool_inv (fst pd) \<and> assignment_inv (p_state (fst pd)) \<and> range_order ro"
    and "UpdateExpectedSize BalanceWorkload Workloads assign ro n pd = Inr pd'"
  then show "p_expectedSize (fst pd') = n"
    and "pool_inv (fst pd') \<and> assignment_inv (p_state (fst pd')) \<and> range_order ro"
    using asg.update_preserves [of "fst pd" ro assign n "snd pd" "fst pd'" "snd pd'"] by simp_all
qed

section \<open>A concrete pool, for the examples\<close>

text \<open>Two workers of size 2, the first already marked; five jobs.\<close>

definition example_pool :: "(assignment_state, unit) pool" where
  "example_pool =
     \<lparr>p_index = [(''w-1'', 0), (''w-0'', 1)],
      p_heap = [newWorker 1 ''w-1'' (), MarkToRefresh (newWorker 0 ''w-0'' ())],
      p_state = NewState [Job ''a'', Job ''b'', Job ''c'', Job ''d'', Job ''e''] ''w'',
      p_version = 1, p_expectedSize = 2, p_underVariation = True, p_stopped = False\<rparr>"

lemma example_pool_ok:
  "assignment_inv (p_state example_pool)" "pool_inv example_pool"
  "registered example_pool = {0, 1}" "p_expectedSize example_pool = 2"
  "p_underVariation example_pool"
  "inj_on (index_at (p_heap example_pool)) (registered example_pool)"
  "index_at (p_heap example_pool) ` registered example_pool = {0..<2}"
  by (auto simp: example_pool_def pool_inv_def registered_def mwf_def inj_on_def
      intro!: assignment_inv_new)

section \<open>Properties\<close>

text \<open>
  C18 A change of the expected size increments the version by one (modulo 64 bits), sets the
  size, re-arms the conciliation, recomputes the assignation for the new size, and hands to
  \<open>Assign\<close> exactly that assignation, once; the workers of \<open>to_refresh\<close> are marked and
  nothing else of the pool changes. It never panics by itself, whatever \<open>Assign\<close> answers, and
  its error is not an obstacle.
\<close>

theorem update_expected_size_effect:
  assumes "assignment_inv (p_state p)" and "pool_inv p" and "range_order ro"
    and "p_expectedSize p \<noteq> n"
  shows "\<exists>st. BalanceWorkload (p_state p) n (wrap64 (p_version p + 1)) = Inr (st, None)
    \<and> map_of (ws_workloads (Workloads st)) =
        assignation (as_setName (p_state p)) (as_jobs (p_state p)) n
    \<and> UpdateExpectedSize BalanceWorkload Workloads (\<lambda>d w. Inr (publish d w)) ro n (p, d) =
        Inr (p\<lparr>p_heap := mark_all (to_refresh ro p n) (p_heap p), p_state := st,
               p_version := wrap64 (p_version p + 1), p_expectedSize := n,
               p_underVariation := True\<rparr>, fst (publish d (Workloads st)))"
proof -
  obtain st where "BalanceWorkload (p_state p) n (wrap64 (p_version p + 1)) = Inr (st, None)"
    "map_of (ws_workloads (Workloads st)) = assignment_target (p_state p) n"
    "UpdateExpectedSize BalanceWorkload Workloads (\<lambda>d w. Inr (publish d w)) ro n (p, d) =
      go_bind (Inr (publish d (Workloads st))) (\<lambda>(d', e).
        Inr (p\<lparr>p_heap := mark_all (to_refresh ro p n) (p_heap p), p_state := st,
               p_version := wrap64 (p_version p + 1), p_expectedSize := n,
               p_underVariation := True\<rparr>, d'))"
    using asg.update_spec [OF assms] by metis
  then show ?thesis by (auto simp: assignment_target_def split: prod.split)
qed

theorem update_expected_size_effect_witness:
  "\<exists>st. UpdateExpectedSize BalanceWorkload Workloads (\<lambda>d w. Inr (d @ [w], None)) (\<lambda>ks. ks) 3 (example_pool, [])
      = Inr (example_pool\<lparr>p_heap := mark_all (to_refresh (\<lambda>ks. ks) example_pool 3) (p_heap example_pool),
               p_state := st, p_version := wrap64 (p_version example_pool + 1), p_expectedSize := 3,
               p_underVariation := True\<rparr>, [Workloads st])"
  using update_expected_size_effect [OF example_pool_ok(1,2) range_order_id, of 3
      "\<lambda>d w. (d @ [w], None)" "[]"] by (auto simp: example_pool_ok)

text \<open>With the indices of a stateful set, the sorted list is the list by ordinal.\<close>

lemma to_refresh_ordinals:
  assumes "pool_inv p" and "range_order ro" and "p_expectedSize p \<noteq> 0"
    and "inj_on (index_at (p_heap p)) (registered p)"
    and "index_at (p_heap p) ` registered p = {0..<m}"
  shows "a \<in> to_refresh ro p n \<longleftrightarrow>
    a \<in> registered p \<and> index_at (p_heap p) a < min n (p_expectedSize p)"
proof -
  let ?ws = "geAllWorkers ro p" and ?ix = "index_at (p_heap p)" and ?k = "min n (p_expectedSize p)"
  have set: "set ?ws = registered p" by (rule set_geAllWorkers [OF assms(1,2)])
  have "map ?ix ?ws = [0..m - 1]"
  proof (rule sorted_distinct_set_unique)
    show "distinct (map ?ix ?ws)"
      using distinct_geAllWorkers [OF assms(1,2)] assms(4) by (simp add: distinct_map set)
    show "set (map ?ix ?ws) = set [0..m - 1]" using assms(5) by (auto simp: set)
  qed (simp_all add: sorted_geAllWorkers)
  note upto = arg_cong [OF this, of length] arg_cong [OF this, of "\<lambda>xs. xs ! i" for i]
  have ix: "?ix (?ws ! i) = int i" if "i < length ?ws" for i
    using that upto(1) upto(2) [of i] by (simp add: nth_upto)
  show ?thesis
  proof
    assume "a \<in> to_refresh ro p n"
    then obtain i where "i < nat ?k" "i < length ?ws" "a = ?ws ! i"
      using assms(3) by (auto simp: to_refresh_def set_conv_nth)
    then show "a \<in> registered p \<and> ?ix a < ?k"
      using ix set by (auto simp: nth_mem [of i ?ws])
  next
    assume a: "a \<in> registered p \<and> ?ix a < ?k"
    then obtain i where i: "i < length ?ws" "a = ?ws ! i" using set by (metis in_set_conv_nth)
    then have "i < nat ?k" using a ix by auto
    moreover have "take (nat ?k) ?ws ! i = a" "i < length (take (nat ?k) ?ws)"
      using i \<open>i < nat ?k\<close> by simp_all
    ultimately have "a \<in> set (take (nat ?k) ?ws)" by (metis nth_mem)
    then show "a \<in> to_refresh ro p n" using assms(3) by (simp add: to_refresh_def)
  qed
qed

text \<open>
  When the registered workers carry the ordinals of a stateful set, a change of size marks
  exactly the workers that exist before and after it: on the way up the old workers and not
  the new ones, on the way down the ones below the new size and not those that go away.
\<close>

theorem resize_marks_survivors:
  assumes "assignment_inv (p_state p)" and "pool_inv p" and "range_order ro"
    and "p_expectedSize p \<noteq> 0" and "p_expectedSize p \<noteq> n"
    and "inj_on (index_at (p_heap p)) (registered p)"
    and "index_at (p_heap p) ` registered p = {0..<m}"
    and "UpdateExpectedSize BalanceWorkload Workloads assign ro n (p, d) = Inr (p', d')"
    and "a \<in> registered p"
  shows "w_state (p_heap p' ! a) =
    (if w_index (p_heap p ! a) < min n (p_expectedSize p) then NeedsRefresh
     else w_state (p_heap p ! a))"
proof -
  have "p_heap p' = mark_all (to_refresh ro p n) (p_heap p)"
    by (rule asg.update_result [OF assms(1-3,5,8)]) simp
  moreover have "a < length (p_heap p)"
    using assms(2,9) by (auto simp: pool_inv_def registered_def)
  ultimately show ?thesis
    using to_refresh_ordinals [OF assms(2,3,4,6,7), of a n] assms(9) by simp
qed

theorem resize_marks_survivors_witness:
  "\<exists>p' d'. UpdateExpectedSize BalanceWorkload Workloads (\<lambda>d w. Inr (d, None)) rev 1 (example_pool, ())
      = Inr (p', d') \<and> w_state (p_heap p' ! 1) = NeedsRefresh
    \<and> w_state (p_heap p' ! 0) = w_state (p_heap example_pool ! 0)"
proof -
  have ne: "p_expectedSize example_pool \<noteq> 0" "p_expectedSize example_pool \<noteq> 1"
    by (simp_all add: example_pool_ok)
  let ?u = "UpdateExpectedSize BalanceWorkload Workloads (\<lambda>d w. Inr (d, None)) rev 1 (example_pool, ())"
  have "\<exists>r. ?u = Inr r"
    by (rule asg.update_spec [OF example_pool_ok(1,2) range_order_rev ne(2), of "\<lambda>d w. Inr (d, None)" "()"])
      simp
  then obtain p' d' where u: "?u = Inr (p', d')" by (metis surj_pair)
  note m = resize_marks_survivors [OF example_pool_ok(1,2) range_order_rev ne example_pool_ok(6,7) u]
  have ix: "w_index (p_heap example_pool ! 0) = 1" "w_index (p_heap example_pool ! 1) = 0"
    by (simp_all add: example_pool_def)
  have "w_state (p_heap p' ! 0) = w_state (p_heap example_pool ! 0)"
    "w_state (p_heap p' ! 1) = NeedsRefresh"
    using m [of 0] m [of 1] by (simp_all add: example_pool_ok ix ix(2) [simplified])
  then show ?thesis using u by blast
qed

section \<open>Conciliation\<close>

lemma conciliate_loop_filter: "conciliate_loop h ws = filter (\<lambda>a. w_state (h ! a) = NeedsRefresh) ws"
  by (induction ws) (auto simp: worker_NeedsRefresh_def)

text \<open>
  C19 A conciliation under variation starts a restart for exactly the registered workers
  that need a refresh, one each and in the order of their indices, and disarms itself: the
  next rounds start nothing until a change of size.
\<close>

theorem conciliate_starts_marked:
  assumes "pool_inv p" and "range_order ro" and "p_expectedSize p \<noteq> 0" and "p_underVariation p"
    and "conciliate ro p = (p', started)"
  shows "set started = {a \<in> registered p. w_state (p_heap p ! a) = NeedsRefresh}
    \<and> distinct started \<and> sorted (map (index_at (p_heap p)) started)
    \<and> p' = p\<lparr>p_underVariation := False\<rparr> \<and> conciliate ro' p' = (p', [])"
proof -
  have "started = filter (\<lambda>a. w_state (p_heap p ! a) = NeedsRefresh) (geAllWorkers ro p)"
    and p': "p' = p\<lparr>p_underVariation := False\<rparr>"
    using assms(3-5) by (simp_all add: conciliate_def conciliate_loop_filter)
  then show ?thesis
    using set_geAllWorkers [OF assms(1,2)] distinct_geAllWorkers [OF assms(1,2)]
      sorted_geAllWorkers [of p ro] by (auto simp: conciliate_def sorted_filter)
qed

theorem conciliate_starts_marked_witness:
  "conciliate rev example_pool = (example_pool\<lparr>p_underVariation := False\<rparr>, [1])
   \<and> set [1] = {a \<in> registered example_pool. w_state (p_heap example_pool ! a) = NeedsRefresh}"
proof -
  have c: "conciliate rev example_pool = (example_pool\<lparr>p_underVariation := False\<rparr>, [1])"
    by (simp add: conciliate_def geAllWorkers_def mrange_def example_pool_def worker_NeedsRefresh_def)
  have "p_expectedSize example_pool \<noteq> 0" by (simp add: example_pool_ok)
  from conciliate_starts_marked [OF example_pool_ok(2) range_order_rev this example_pool_ok(5) c] c
  show ?thesis by blast
qed

section \<open>The staggering of restarts\<close>

text \<open>
  A restart waits four seconds times one plus the worker's index, so restarts of
  different workers are at least four seconds apart, in index order; this holds for every
  index up to 2305843008. The next index overflows the duration and does not wait at all.
\<close>

theorem restart_delays_staggered:
  assumes "0 \<le> w_index v" and "w_index v < w_index w" and "w_index w \<le> 2305843008"
  shows "restart_delay v = 4 * second_ns * (1 + w_index v)
    \<and> restart_delay v + 4 * second_ns \<le> restart_delay w
    \<and> restart_delay (newWorker 2305843009 name ip) < 0"
proof -
  have delay: "restart_delay u = 4 * second_ns * (1 + w_index u)"
    if "0 \<le> w_index u" "w_index u \<le> 2305843008" for u :: "'x worker"
    using that by (simp add: restart_delay_def defaultSleepBeforeNotify_def second_ns_def)
  have "restart_delay (newWorker 2305843009 name ip) < 0"
    by (simp add: restart_delay_def defaultSleepBeforeNotify_def second_ns_def wrap64_eq_mod)
  then show ?thesis
    using assms delay [of v] delay [of w] by (simp add: second_ns_def)
qed

theorem restart_delays_staggered_witness:
  "restart_delay (newWorker 0 ''w-0'' ()) + 4 * second_ns \<le> restart_delay (newWorker 1 ''w-1'' ())"
proof -
  have "0 \<le> w_index (newWorker 0 ''w-0'' ())"
    "w_index (newWorker 0 ''w-0'' ()) < w_index (newWorker 1 ''w-1'' ())"
    "w_index (newWorker 1 ''w-1'' ()) \<le> 2305843008" by simp_all
  then show ?thesis
    by (rule restart_delays_staggered [THEN conjunct2, THEN conjunct1])
qed

end
