(* ===== verification/Pool_Runtime.thy ===== *)
theory Pool_Runtime
  imports Worker_Pool
begin

text \<open>
  The pool of \<open>pool.go\<close> at run time: calls of its methods, rounds of the conciliation loop
  that \<open>wait.Until\<close> drives until \<open>stopChan\<close> is closed, and the goroutines of
  \<open>requestRestart\<close>, interleaved. The methods hold \<open>mutex\<close>, so each is one step. A
  goroutine does not hold it; its two effects, the call of \<open>RestartWorker\<close> and the
  \<open>MarkRefreshed\<close> under the worker's own mutex, are separate steps, and the time it sleeps
  is left open, so that every interleaving is a run. The assigner is the one of \<open>state.go\<close>.
\<close>

section \<open>Steps\<close>

datatype restart_pc = Sleeping | Restarted

record ('d, 'ip) system =
  sys_pool :: "(assignment_state, 'ip) pool"
  sys_world :: 'd
  sys_restarts :: "(nat \<times> restart_pc) list"

text \<open>
  The failing call of \<open>RestartWorker\<close>, on which \<open>requestRestart\<close> returns, has its own
  action.
\<close>

datatype 'ip action =
    Resize int
  | Register int string 'ip
  | Unregister string
  | Tick
  | Call nat
  | CallFails nat
  | Finish nat
  | Stop

definition remove_at :: "nat \<Rightarrow> 'a list \<Rightarrow> 'a list" where
  "remove_at i xs = take i xs @ drop (Suc i) xs"

inductive pool_step ::
    "('d \<Rightarrow> workloads \<Rightarrow> ('d \<times> goerror option) go) \<Rightarrow> ('d \<Rightarrow> string \<Rightarrow> ('d \<times> goerror option) go)
     \<Rightarrow> ('d, 'ip) system \<Rightarrow> 'ip action \<Rightarrow> ('d, 'ip) system \<Rightarrow> bool"
  for assign restart where
  resize: "range_order ro
    \<Longrightarrow> UpdateExpectedSize BalanceWorkload Workloads assign ro n (sys_pool s, sys_world s) = Inr (p, d)
    \<Longrightarrow> pool_step assign restart s (Resize n) (s\<lparr>sys_pool := p, sys_world := d\<rparr>)"
| register: "AddWorkerIfNotExists i n ip (sys_pool s) = (p, added)
    \<Longrightarrow> pool_step assign restart s (Register i n ip) (s\<lparr>sys_pool := p\<rparr>)"
| unregister: "pool_step assign restart s (Unregister n)
    (s\<lparr>sys_pool := RemoveWorkerByName n (sys_pool s)\<rparr>)"
| tick: "range_order ro \<Longrightarrow> \<not> p_stopped (sys_pool s) \<Longrightarrow> conciliate ro (sys_pool s) = (p, started)
    \<Longrightarrow> pool_step assign restart s Tick
      (s\<lparr>sys_pool := p, sys_restarts := sys_restarts s @ map (\<lambda>a. (a, Sleeping)) started\<rparr>)"
| call: "i < length (sys_restarts s) \<Longrightarrow> sys_restarts s ! i = (a, Sleeping)
    \<Longrightarrow> restart_call restart a (sys_pool s) (sys_world s) = Inr (d, None)
    \<Longrightarrow> pool_step assign restart s (Call a)
      (s\<lparr>sys_world := d, sys_restarts := (sys_restarts s)[i := (a, Restarted)]\<rparr>)"
| call_fails: "i < length (sys_restarts s) \<Longrightarrow> sys_restarts s ! i = (a, Sleeping)
    \<Longrightarrow> restart_call restart a (sys_pool s) (sys_world s) = Inr (d, Some e)
    \<Longrightarrow> pool_step assign restart s (CallFails a)
      (s\<lparr>sys_world := d, sys_restarts := remove_at i (sys_restarts s)\<rparr>)"
| finish: "i < length (sys_restarts s) \<Longrightarrow> sys_restarts s ! i = (a, Restarted)
    \<Longrightarrow> restart_finish a (sys_pool s) = Inr p
    \<Longrightarrow> pool_step assign restart s (Finish a)
      (s\<lparr>sys_pool := p, sys_restarts := remove_at i (sys_restarts s)\<rparr>)"
| stop: "Terminate (sys_pool s) = Inr p \<Longrightarrow> pool_step assign restart s Stop (s\<lparr>sys_pool := p\<rparr>)"

inductive_cases resizeE: "pool_step assign restart s (Resize n) s'"
inductive_cases tickE: "pool_step assign restart s Tick s'"
inductive_cases finishE: "pool_step assign restart s (Finish a) s'"
inductive_cases call_failsE: "pool_step assign restart s (CallFails a) s'"
inductive_cases registerE: "pool_step assign restart s (Register i n ip) s'"

text \<open>A run performs a list of actions.\<close>

inductive pool_run ::
    "('d \<Rightarrow> workloads \<Rightarrow> ('d \<times> goerror option) go) \<Rightarrow> ('d \<Rightarrow> string \<Rightarrow> ('d \<times> goerror option) go)
     \<Rightarrow> ('d, 'ip) system \<Rightarrow> 'ip action list \<Rightarrow> ('d, 'ip) system \<Rightarrow> bool"
  for assign restart where
  run_nil: "pool_run assign restart s [] s"
| run_snoc: "pool_run assign restart s acts m \<Longrightarrow> pool_step assign restart m act s'
    \<Longrightarrow> pool_run assign restart s (acts @ [act]) s'"

definition start :: "job list \<Rightarrow> string \<Rightarrow> 'd \<Rightarrow> ('d, 'ip) system" where
  "start jobs setName d =
     \<lparr>sys_pool = NewWorkerPool (NewState jobs setName), sys_world = d, sys_restarts = []\<rparr>"

section \<open>Facts on single steps\<close>

lemma set_remove_at_subset: "set (remove_at i xs) \<subseteq> set xs"
  using set_take_subset [of i xs] set_drop_subset [of "Suc i" xs] by (auto simp: remove_at_def)

lemma set_remove_at: "i < length xs \<Longrightarrow> insert (xs ! i) (set (remove_at i xs)) = set xs"
  unfolding remove_at_def
  by (metis id_take_nth_drop insert_is_Un list.simps(15) set_append sup_left_commute)

lemma mset_remove_at: "i < length xs \<Longrightarrow> mset xs = add_mset (xs ! i) (mset (remove_at i xs))"
  unfolding remove_at_def
  by (metis id_take_nth_drop mset.simps(2) mset_append union_mset_add_mset_right)

abbreviation pending :: "('d, 'ip) system \<Rightarrow> nat set" where
  "pending s \<equiv> fst ` set (sys_restarts s)"

lemma restart_finish_eq:
  "restart_finish a p = Inr p' \<longleftrightarrow>
     a < length (p_heap p) \<and> p' = p\<lparr>p_heap := (p_heap p)[a := MarkRefreshed (p_heap p ! a)]\<rparr>"
  by (auto simp: restart_finish_def deref_def)

lemma pool_inv_cong:
  "p_index q = p_index p \<Longrightarrow> p_heap q = p_heap p \<Longrightarrow> pool_inv q = pool_inv p"
  by (simp add: pool_inv_def)

lemma pool_inv_conciliate:
  "pool_inv p \<Longrightarrow> conciliate ro p = (p', ws) \<Longrightarrow> pool_inv p'"
  by (subst pool_inv_cong [of _ p]) (auto simp: conciliate_def split: if_splits)

lemma Terminate_eq:
  "Terminate p = Inr p' \<longleftrightarrow> \<not> p_stopped p \<and> p' = p\<lparr>p_stopped := True\<rparr>"
  by (auto simp: Terminate_def)

lemma pool_inv_finish: "pool_inv p \<Longrightarrow> restart_finish a p = Inr p' \<Longrightarrow> pool_inv p'"
  by (rule pool_inv_heap) (auto simp: restart_finish_eq intro: same_names_update)

lemma conciliate_started:
  assumes "pool_inv p" and "range_order ro" and "conciliate ro p = (p', ws)"
  shows "set ws \<subseteq> registered p" and "p_heap p' = p_heap p" and "p_index p' = p_index p"
    and "p_state p' = p_state p" and "p_version p' = p_version p"
    and "p_expectedSize p' = p_expectedSize p" and "p_stopped p' = p_stopped p"
proof -
  have "p' = p \<and> ws = [] \<or> p' = p\<lparr>p_underVariation := False\<rparr> \<and> ws = conciliate_loop (p_heap p) (geAllWorkers ro p)"
    using assms(3) by (simp add: conciliate_def split: if_splits)
  moreover have "set (conciliate_loop (p_heap p) (geAllWorkers ro p)) \<subseteq> registered p"
    using set_geAllWorkers [OF assms(1,2)] by (simp add: conciliate_loop_filter)
  ultimately show "set ws \<subseteq> registered p" "p_heap p' = p_heap p" "p_index p' = p_index p"
    "p_state p' = p_state p" "p_version p' = p_version p"
    "p_expectedSize p' = p_expectedSize p" "p_stopped p' = p_stopped p"
    by (elim disjE; simp)+
qed

lemma registered_allocated: "pool_inv p \<Longrightarrow> a \<in> registered p \<Longrightarrow> a < length (p_heap p)"
  by (auto simp: pool_inv_def registered_def)

lemma conciliate_cases:
  assumes "conciliate ro p = (p', ws)"
  obtains "p' = p" "ws = []" "p_expectedSize p = 0 \<or> \<not> p_underVariation p"
  | "p' = p\<lparr>p_underVariation := False\<rparr>"
    "ws = filter (\<lambda>a. w_state (p_heap p ! a) = NeedsRefresh) (geAllWorkers ro p)"
  using assms by (auto simp: conciliate_def conciliate_loop_filter split: if_splits)

text \<open>What \<open>AddWorkerIfNotExists\<close> does, as one equation per outcome.\<close>

lemma register_cases:
  assumes "pool_inv p" and "AddWorkerIfNotExists i n ip p = (p', added)"
  obtains "\<not> added" "p' = p" "n \<in> mkeys (p_index p)"
  | "added" "n \<notin> mkeys (p_index p)"
    "p' = p\<lparr>p_index := p_index p @ [(n, length (p_heap p))], p_heap := p_heap p @ [newWorker i n ip]\<rparr>"
proof (cases "map_of (p_index p) n")
  case None
  then have "n \<notin> mkeys (p_index p)" by (simp add: mkeys_None)
  then show thesis using that(2) assms(2) None
    by (simp add: AddWorkerIfNotExists_def AList_update_new)
next
  case (Some a)
  then have "n \<in> mkeys (p_index p)" unfolding mkeys_lookup by blast
  then show thesis using that(1) assms(2) Some by (simp add: AddWorkerIfNotExists_def)
qed

lemma registered_remove: "registered (RemoveWorkerByName n p) \<subseteq> registered p"
  by (auto simp: registered_def RemoveWorkerByName_def AList.delete_eq)

section \<open>The invariant of the running pool\<close>

definition sys_inv :: "(int \<Rightarrow> string \<Rightarrow> workload option option) \<Rightarrow> ('d, 'ip) system \<Rightarrow> bool" where
  "sys_inv t s \<longleftrightarrow>
     pool_inv (sys_pool s) \<and> assignment_inv (p_state (sys_pool s))
     \<and> assignment_target (p_state (sys_pool s)) = t
     \<and> map_of (ws_workloads (Workloads (p_state (sys_pool s)))) = t (p_expectedSize (sys_pool s))
     \<and> (\<forall>a \<in> pending s. a < length (p_heap (sys_pool s)))
     \<and> p_version (sys_pool s) \<in> int64_range"

lemma sys_inv_start: "int (length jobs) < 2 ^ 63 
    \<Longrightarrow> sys_inv (assignation setName jobs) (start jobs setName d)"
  using pool_inv_new [of "NewState jobs setName"] assignment_inv_new [of jobs setName]
  by (simp add: sys_inv_def start_def)
    (simp add: NewWorkerPool_def NewState_def Workloads_def assignment_target_def assignation_def
      int64_range_def)

lemma update_version_range:
  assumes "assignment_inv (p_state p)" and "pool_inv p" and "range_order ro"
    and "p_version p \<in> int64_range"
    and "UpdateExpectedSize BalanceWorkload Workloads assign ro n (p, d) = Inr (p', d')"
  shows "p_version p' \<in> int64_range"
proof (cases "p_expectedSize p = n")
  case True
  then show ?thesis using assms(4,5) by (simp add: UpdateExpectedSize_def)
next
  case False
  show ?thesis
    by (rule asg.update_result [OF assms(1-3) False assms(5)]) (simp add: wrap64_in_range)
qed

lemma pending_remove: "fst ` set (remove_at i xs) \<subseteq> fst ` set xs"
  by (rule image_mono) (rule set_remove_at_subset)

lemma pending_update:
  assumes "i < length xs" and "xs ! i = (a, pc)"
  shows "fst ` set (xs[i := (a, pc')]) = fst ` set xs"
proof -
  have "map fst (xs[i := (a, pc')]) = map fst xs"
    using assms by (metis fst_conv list_update_id map_update)
  then show ?thesis by (metis list.set_map)
qed

lemma sys_inv_pending:
  "sys_inv t s \<Longrightarrow> pending s' \<subseteq> pending s \<Longrightarrow> sys_pool s' = sys_pool s \<Longrightarrow> sys_inv t s'"
  unfolding sys_inv_def by (metis subsetD)

lemma sys_inv_step: "pool_step assign restart s act s' \<Longrightarrow> sys_inv t s \<Longrightarrow> sys_inv t s'"
proof (induction rule: pool_step.induct)
  case (resize ro n s p d)
  then have i: "assignment_inv (p_state (sys_pool s))" "pool_inv (sys_pool s)"
    by (simp_all add: sys_inv_def)
  have t: "map_of (ws_workloads (Workloads (p_state (sys_pool s)))) =
      assignment_target (p_state (sys_pool s)) (p_expectedSize (sys_pool s))"
    using resize(3) by (simp add: sys_inv_def)
  note u = asg.update_preserves [OF i resize(1,2)]
    asg.update_assignation [OF i resize(1) t resize(2)] update_version_range [OF i resize(1) _ resize(2)]
  show ?case using u resize(3) by (simp add: sys_inv_def)
next
  case (register i n ip s p added)
  then have p: "pool_inv (sys_pool s)" by (simp add: sys_inv_def)
  have "pool_inv p" using pool_inv_add [OF p, of i n ip] register(1) by simp
  then show ?case
    using register(2) by (cases rule: register_cases [OF p register(1)])
      (auto simp: sys_inv_def intro: less_SucI)
next
  case (unregister s n)
  then show ?case
    by (simp add: sys_inv_def inv_intros) (simp add: RemoveWorkerByName_def)
next
  case (tick ro s p started)
  then have p: "pool_inv (sys_pool s)" by (simp add: sys_inv_def)
  note c = conciliate_started [OF p tick(1,3)]
  show ?case
    using tick(4) c pool_inv_conciliate [OF p tick(3)] registered_allocated [OF p]
    by (auto simp: sys_inv_def image_Un image_image)
next
  case (call i s a d)
  have "pending (s\<lparr>sys_world := d, sys_restarts := (sys_restarts s)[i := (a, Restarted)]\<rparr>) = pending s"
    using call(1,2) by (simp add: pending_update)
  then show ?case by (intro sys_inv_pending [OF call(4)]) simp_all
next
  case (call_fails i s a d e)
  show ?case
    by (rule sys_inv_pending [OF call_fails(4)]) (simp_all add: pending_remove)
next
  case (finish i s a p)
  have "sys_inv t (s\<lparr>sys_restarts := remove_at i (sys_restarts s)\<rparr>)"
    by (rule sys_inv_pending [OF finish(4)]) (simp_all add: pending_remove)
  moreover have "pool_inv p" using finish(4) pool_inv_finish [OF _ finish(3)] by (simp add: sys_inv_def)
  ultimately show ?case using finish(3) by (simp add: sys_inv_def restart_finish_eq)
next
  case (stop s p)
  then have "pool_inv p" using pool_inv_cong [of p "sys_pool s"] by (simp add: sys_inv_def Terminate_eq)
  then show ?case using stop by (simp add: sys_inv_def Terminate_eq)
qed

lemma sys_inv_run: "pool_run assign restart s acts s' \<Longrightarrow> sys_inv t s \<Longrightarrow> sys_inv t s'"
  by (induction rule: pool_run.induct) (auto intro: sys_inv_step)

section \<open>Marked workers have a restart under way\<close>

text \<open>Once a round has disarmed itself, every registered worker that is marked is pending.\<close>

definition covered :: "('d, 'ip) system \<Rightarrow> bool" where
  "covered s \<longleftrightarrow> (\<not> p_underVariation (sys_pool s) \<longrightarrow>
     (\<forall>a \<in> registered (sys_pool s). w_state (p_heap (sys_pool s) ! a) = NeedsRefresh
        \<longrightarrow> a \<in> pending s))"

lemma pending_remove_other:
  assumes "i < length xs" and "xs ! i = (a, pc)" and "b \<in> fst ` set xs" and "b \<noteq> a"
  shows "b \<in> fst ` set (remove_at i xs)"
  using assms(2-4) set_remove_at [OF assms(1), symmetric] by auto

lemma registered_cong: "p_index q = p_index p \<Longrightarrow> registered q = registered p"
  by (simp add: registered_def)

lemma covered_resize:
  assumes "sys_inv t s" and "covered s" and "range_order ro"
    and "UpdateExpectedSize BalanceWorkload Workloads assign ro n (sys_pool s, sys_world s) = Inr (p, d)"
  shows "covered (s\<lparr>sys_pool := p, sys_world := d\<rparr>)"
proof (cases "p_expectedSize (sys_pool s) = n")
  case True
  then have "p = sys_pool s" using assms(4) by (simp add: UpdateExpectedSize_def)
  then show ?thesis using assms(2) by (simp add: covered_def)
next
  case False
  have i: "assignment_inv (p_state (sys_pool s))" "pool_inv (sys_pool s)"
    using assms(1) by (simp_all add: sys_inv_def)
  have "p_underVariation p" by (rule asg.update_result [OF i assms(3) False assms(4)]) simp
  then show ?thesis by (simp add: covered_def)
qed

lemma covered_tick:
  assumes "sys_inv t s" and "covered s" and "range_order ro"
    and "conciliate ro (sys_pool s) = (p, started)"
  shows "covered (s\<lparr>sys_pool := p, sys_restarts := sys_restarts s @ map (\<lambda>a. (a, Sleeping)) started\<rparr>)"
  using assms(4)
proof (cases rule: conciliate_cases)
  case 1
  then show ?thesis using assms(2) by (simp add: covered_def)
next
  case 2
  have "set (geAllWorkers ro (sys_pool s)) = registered (sys_pool s)"
    using assms(1,3) by (simp add: set_geAllWorkers sys_inv_def)
  moreover have "registered p = registered (sys_pool s)" using 2(1) by (simp add: registered_def)
  ultimately show ?thesis using 2 by (auto simp: covered_def image_Un image_image)
qed

lemma covered_step:
  "pool_step assign restart s act s' \<Longrightarrow> sys_inv t s \<Longrightarrow> covered s \<Longrightarrow> (\<And>a. act \<noteq> CallFails a)
   \<Longrightarrow> covered s'"
proof (induction rule: pool_step.induct)
  case (register i n ip s p added)
  then have "pool_inv (sys_pool s)" by (simp add: sys_inv_def)
  from register_cases [OF this register(1)] show ?case
  proof cases
    case 2
    have r: "registered p = insert (length (p_heap (sys_pool s))) (registered (sys_pool s))"
      using 2 by (auto simp: registered_def)
    have "a < length (p_heap (sys_pool s))" if "a \<in> registered (sys_pool s)" for a
      using that register(2) registered_allocated by (auto simp: sys_inv_def)
    moreover have "p_heap p = p_heap (sys_pool s) @ [newWorker i n ip]"
      "p_underVariation p = p_underVariation (sys_pool s)" using 2 by simp_all
    ultimately show ?thesis using register(3) by (simp add: covered_def r nth_append)
  qed (use register(3) in \<open>simp add: covered_def\<close>)
next
  case (unregister s n)
  then show ?case
    using registered_remove [of n "sys_pool s"]
    by (auto simp: covered_def RemoveWorkerByName_def)
next
  case (call i s a d)
  then show ?case by (simp add: covered_def pending_update)
next
  case (finish i s a p)
  have p: "a < length (p_heap (sys_pool s))"
    "p = (sys_pool s)\<lparr>p_heap := (p_heap (sys_pool s))[a := MarkRefreshed (p_heap (sys_pool s) ! a)]\<rparr>"
    using finish(3) by (simp_all add: restart_finish_eq)
  have r: "registered p = registered (sys_pool s)" by (simp add: p registered_def)
  show ?case
    unfolding covered_def
  proof (intro impI ballI)
    fix b
    assume v: "\<not> p_underVariation (sys_pool (s\<lparr>sys_pool := p, sys_restarts := remove_at i (sys_restarts s)\<rparr>))"
      and "b \<in> registered (sys_pool (s\<lparr>sys_pool := p, sys_restarts := remove_at i (sys_restarts s)\<rparr>))"
      and n: "w_state (p_heap (sys_pool (s\<lparr>sys_pool := p, sys_restarts := remove_at i (sys_restarts s)\<rparr>)) ! b)
        = NeedsRefresh"
    then have b: "b \<in> registered (sys_pool s)" by (simp add: r)
    have "b \<noteq> a" using n p by auto
    then have "b \<in> pending s" using finish(5) b n v p by (simp add: covered_def)
    then show "b \<in> pending (s\<lparr>sys_pool := p, sys_restarts := remove_at i (sys_restarts s)\<rparr>)"
      using pending_remove_other [OF finish(1,2)] \<open>b \<noteq> a\<close> by simp
  qed
next
  case (stop s p)
  then have "p = (sys_pool s)\<lparr>p_stopped := True\<rparr>" by (simp add: Terminate_eq)
  then show ?case using stop(3) by (simp add: covered_def registered_def)
next
  case (resize ro n s p d)
  show ?case by (rule covered_resize [OF resize(3,4,1,2)])
next
  case (tick ro s p started)
  show ?case by (rule covered_tick [OF tick(4,5,1,3)])
next
  case (call_fails i s a d e)
  then show ?case by blast
qed

lemma covered_run:
  "pool_run assign restart s acts s' \<Longrightarrow> sys_inv t s \<Longrightarrow> covered s
    \<Longrightarrow> (\<And>a. CallFails a \<notin> set acts) \<Longrightarrow> covered s'"
proof (induction rule: pool_run.induct)
  case (run_snoc s acts m act s')
  have "covered m" using run_snoc by simp
  then show ?case
    using covered_step [OF run_snoc(2) sys_inv_run [OF run_snoc(1,4)]] run_snoc(6) by force
qed

section \<open>Running a list of actions\<close>

text \<open>
  An executable scheduler, for examples: ranges in the order of insertion, and the first
  goroutine of the worker moves. Every run it produces is a run of the system.
\<close>

definition find_restart :: "nat \<times> restart_pc \<Rightarrow> (nat \<times> restart_pc) list \<Rightarrow> nat" where
  "find_restart r rs = length (takeWhile (\<lambda>x. x \<noteq> r) rs)"

definition exec_step ::
    "('d \<Rightarrow> workloads \<Rightarrow> ('d \<times> goerror option) go) \<Rightarrow> ('d \<Rightarrow> string \<Rightarrow> ('d \<times> goerror option) go)
     \<Rightarrow> 'ip action \<Rightarrow> ('d, 'ip) system \<Rightarrow> ('d, 'ip) system option" where
  "exec_step assign restart act s =
     (let p = sys_pool s; rs = sys_restarts s in
      case act of
        Resize n \<Rightarrow>
          (case UpdateExpectedSize BalanceWorkload Workloads assign (\<lambda>ks. ks) n (p, sys_world s) of
             Inr (p', d) \<Rightarrow> Some (s\<lparr>sys_pool := p', sys_world := d\<rparr>) | Inl _ \<Rightarrow> None)
      | Register i n ip \<Rightarrow> Some (s\<lparr>sys_pool := fst (AddWorkerIfNotExists i n ip p)\<rparr>)
      | Unregister n \<Rightarrow> Some (s\<lparr>sys_pool := RemoveWorkerByName n p\<rparr>)
      | Tick \<Rightarrow>
          (if p_stopped p then None
           else Some (s\<lparr>sys_pool := fst (conciliate (\<lambda>ks. ks) p),
                        sys_restarts := rs @ map (\<lambda>a. (a, Sleeping)) (snd (conciliate (\<lambda>ks. ks) p))\<rparr>))
      | Call a \<Rightarrow>
          (let i = find_restart (a, Sleeping) rs in
           if i < length rs then
             (case restart_call restart a p (sys_world s) of
                Inr (d, None) \<Rightarrow> Some (s\<lparr>sys_world := d, sys_restarts := rs[i := (a, Restarted)]\<rparr>)
              | _ \<Rightarrow> None)
           else None)
      | CallFails a \<Rightarrow>
          (let i = find_restart (a, Sleeping) rs in
           if i < length rs then
             (case restart_call restart a p (sys_world s) of
                Inr (d, Some e) \<Rightarrow> Some (s\<lparr>sys_world := d, sys_restarts := remove_at i rs\<rparr>)
              | _ \<Rightarrow> None)
           else None)
      | Finish a \<Rightarrow>
          (let i = find_restart (a, Restarted) rs in
           if i < length rs then
             (case restart_finish a p of
                Inr p' \<Rightarrow> Some (s\<lparr>sys_pool := p', sys_restarts := remove_at i rs\<rparr>) | Inl _ \<Rightarrow> None)
           else None)
      | Stop \<Rightarrow> (case Terminate p of Inr p' \<Rightarrow> Some (s\<lparr>sys_pool := p'\<rparr>) | Inl _ \<Rightarrow> None))"

fun exec ::
    "('d \<Rightarrow> workloads \<Rightarrow> ('d \<times> goerror option) go) \<Rightarrow> ('d \<Rightarrow> string \<Rightarrow> ('d \<times> goerror option) go)
     \<Rightarrow> 'ip action list \<Rightarrow> ('d, 'ip) system \<Rightarrow> ('d, 'ip) system option" where
  "exec assign restart [] s = Some s"
| "exec assign restart (act # acts) s =
     (case exec_step assign restart act s of None \<Rightarrow> None | Some m \<Rightarrow> exec assign restart acts m)"

lemma find_restart_nth: "find_restart r rs < length rs \<Longrightarrow> rs ! find_restart r rs = r"
  unfolding find_restart_def using nth_length_takeWhile by fastforce

lemma exec_step_sound:
  assumes "exec_step assign restart act s = Some s'"
  shows "pool_step assign restart s act s'"
proof (cases act)
  case (Resize n)
  then obtain p d where "UpdateExpectedSize BalanceWorkload Workloads assign (\<lambda>ks. ks) n
      (sys_pool s, sys_world s) = Inr (p, d)" "s' = s\<lparr>sys_pool := p, sys_world := d\<rparr>"
    using assms by (auto simp: exec_step_def split: sum.splits)
  then show ?thesis by (simp add: Resize pool_step.resize [OF range_order_id])
next
  case (Register i n ip)
  then show ?thesis
    using assms pool_step.register [OF prod.collapse [symmetric]] by (auto simp: exec_step_def)
next
  case (Unregister n)
  then show ?thesis using assms pool_step.unregister by (auto simp: exec_step_def)
next
  case Tick
  then show ?thesis
    using assms pool_step.tick [OF range_order_id _ prod.collapse [symmetric]]
    by (auto simp: exec_step_def Let_def split: if_splits)
next
  case (Call a)
  then show ?thesis
    using assms pool_step.call [OF _ find_restart_nth [of "(a, Sleeping)"]]
    by (auto simp: exec_step_def Let_def split: if_splits sum.splits option.splits)
next
  case (CallFails a)
  then show ?thesis
    using assms pool_step.call_fails [OF _ find_restart_nth [of "(a, Sleeping)"]]
    by (auto simp: exec_step_def Let_def split: if_splits sum.splits option.splits)
next
  case (Finish a)
  then show ?thesis
    using assms pool_step.finish [OF _ find_restart_nth [of "(a, Restarted)"]]
    by (auto simp: exec_step_def Let_def split: if_splits sum.splits)
next
  case Stop
  then show ?thesis
    using assms pool_step.stop by (auto simp: exec_step_def Let_def split: sum.splits)
qed

lemma run_append:
  "pool_run assign restart m acts' s' \<Longrightarrow> pool_run assign restart s acts m
    \<Longrightarrow> pool_run assign restart s (acts @ acts') s'"
proof (induction rule: pool_run.induct)
  case (run_snoc m acts' n act s')
  then show ?case
    using pool_run.run_snoc [OF run_snoc(3) run_snoc(2)] by simp
qed simp

lemma run_Cons:
  assumes "pool_step assign restart s act m" and "pool_run assign restart m acts s'"
  shows "pool_run assign restart s (act # acts) s'"
  using run_append [OF assms(2) run_snoc [OF run_nil assms(1)]] by simp

lemma exec_sound: "exec assign restart acts s = Some s' \<Longrightarrow> pool_run assign restart s acts s'"
  by (induction acts arbitrary: s)
    (auto intro: run_nil run_Cons [OF exec_step_sound] split: option.splits)

section \<open>Properties\<close>

text \<open>
  C7 In every reachable state of the running pool, under every interleaving and every answer
  of the storage and the cluster: the pool's invariant holds, the published assignation is
  the one specified for the jobs and the current expected size, the version is a 64-bit
  value, and neither a resize (with an \<open>Assign\<close> that does not panic) nor the end of a
  pending restart panics.
\<close>

theorem reachable_pool_invariant:
  assumes "int (length jobs) < 2 ^ 63" and "pool_run assign restart (start jobs setName d0) acts s"
  shows "pool_inv (sys_pool s) \<and> assignment_inv (p_state (sys_pool s))
    \<and> map_of (ws_workloads (Workloads (p_state (sys_pool s)))) =
        assignation setName jobs (p_expectedSize (sys_pool s))
    \<and> p_version (sys_pool s) \<in> int64_range
    \<and> (\<forall>a \<in> pending s. \<not> panics (restart_finish a (sys_pool s)))
    \<and> (if range_order ro \<and> (\<forall>w. \<not> panics (assign d w))
        then \<not> panics (UpdateExpectedSize BalanceWorkload Workloads assign ro n (sys_pool s, d))
        else True)"
proof -
  have inv: "sys_inv (assignation setName jobs) s"
    by (rule sys_inv_run [OF assms(2) sys_inv_start [OF assms(1)]])
  then have i: "assignment_inv (p_state (sys_pool s))" "pool_inv (sys_pool s)"
    by (simp_all add: sys_inv_def)
  have "\<not> panics (UpdateExpectedSize BalanceWorkload Workloads assign ro n (sys_pool s, d))"
    if r: "range_order ro" and a: "\<And>w. \<not> panics (assign d w)"
    using asg.update_returns [OF i r, of assign d n] a by (auto simp: not_panics_iff)
  moreover have "\<not> panics (restart_finish a (sys_pool s))" if "a \<in> pending s" for a
    using inv that by (auto simp: sys_inv_def restart_finish_def deref_def)
  ultimately show ?thesis using inv by (simp add: sys_inv_def)
qed

text \<open>A storage that records and a cluster that records, for the examples.\<close>

definition rec_assign :: "string list \<Rightarrow> workloads \<Rightarrow> (string list \<times> goerror option) go" where
  "rec_assign d w = Inr (d @ [''assign''], None)"

definition rec_restart :: "string list \<Rightarrow> string \<Rightarrow> (string list \<times> goerror option) go" where
  "rec_restart d n = Inr (d @ [n], None)"

theorem reachable_pool_invariant_witness:
  "\<exists>s. pool_run rec_assign rec_restart (start [Job ''a''] ''w'' []) [Register 0 ''w-0'' ()] s
    \<and> pool_inv (sys_pool s)"
proof -
  let ?s = "start [Job ''a''] ''w'' [] :: (string list, unit) system"
  obtain p b where add: "AddWorkerIfNotExists 0 ''w-0'' () (sys_pool ?s) = (p, b)" by (metis surj_pair)
  have run: "pool_run rec_assign rec_restart ?s ([] @ [Register 0 ''w-0'' ()]) (?s\<lparr>sys_pool := p\<rparr>)"
    by (rule run_snoc [OF run_nil register [OF add]])
  have "pool_inv (sys_pool (?s\<lparr>sys_pool := p\<rparr>))"
    by (rule reachable_pool_invariant [OF _ run, THEN conjunct1]) simp
  then show ?thesis using run by fastforce
qed

text \<open>A run of two workers: the resize from one to two marks the first, a round starts it.\<close>

definition example_start :: "(string list, unit) system" where
  "example_start = start [Job ''a'', Job ''b''] ''w'' []"

definition example_acts :: "unit action list" where
  "example_acts = [Register 0 ''w-0'' (), Resize 1, Register 1 ''w-1'' (), Resize 2, Tick]"

text \<open>
  C16 As long as no call of \<open>RestartWorker\<close> fails, no marked worker is forgotten: in every
  reachable state in which the conciliation has disarmed itself, each registered worker that
  needs a refresh has a restart under way.
\<close>

theorem marked_worker_has_restart:
  assumes "int (length jobs) < 2 ^ 63" and "pool_run assign restart (start jobs setName d0) acts s"
    and "\<And>b. CallFails b \<notin> set acts" and "\<not> p_underVariation (sys_pool s)"
    and "a \<in> registered (sys_pool s)" and "w_state (p_heap (sys_pool s) ! a) = NeedsRefresh"
  shows "a \<in> pending s"
proof -
  have "covered (start jobs setName d0)"
    by (simp add: covered_def start_def NewWorkerPool_def)
  from covered_run [OF assms(2) sys_inv_start [OF assms(1)] this assms(3)]
  show ?thesis using assms(4-6) by (simp add: covered_def)
qed

theorem marked_worker_has_restart_witness:
  "\<exists>s. exec rec_assign rec_restart example_acts example_start = Some s
    \<and> w_state (p_heap (sys_pool s) ! 0) = NeedsRefresh \<and> 0 \<in> pending s"
proof -
  have ev: "map_option (\<lambda>s. (p_underVariation (sys_pool s), map snd (p_index (sys_pool s)),
      w_state (p_heap (sys_pool s) ! 0))) (exec rec_assign rec_restart example_acts example_start)
      = Some (False, [0, 1], NeedsRefresh)" by code_simp
  then obtain s where s: "exec rec_assign rec_restart example_acts example_start = Some s"
    "\<not> p_underVariation (sys_pool s)" "map snd (p_index (sys_pool s)) = [0, 1]"
    "w_state (p_heap (sys_pool s) ! 0) = NeedsRefresh" by auto
  have run: "pool_run rec_assign rec_restart (start [Job ''a'', Job ''b''] ''w'' []) example_acts s"
    using exec_sound [OF s(1)] by (simp add: example_start_def)
  have "registered (sys_pool s) = {0, 1}"
    unfolding registered_def using arg_cong [OF s(3), of set] by simp
  then have "0 \<in> registered (sys_pool s)" by simp
  from marked_worker_has_restart [OF _ run _ s(2) this s(4)]
  have "0 \<in> pending s" by (simp add: example_acts_def)
  then show ?thesis using s by blast
qed

section \<open>A failed restart\<close>

definition abandoned :: "nat \<Rightarrow> int \<Rightarrow> ('d, 'ip) system \<Rightarrow> bool" where
  "abandoned a n s \<longleftrightarrow> \<not> p_underVariation (sys_pool s) \<and> p_expectedSize (sys_pool s) = n
     \<and> a < length (p_heap (sys_pool s)) \<and> w_state (p_heap (sys_pool s) ! a) = NeedsRefresh
     \<and> a \<notin> pending s"

lemma pending_memI: "i < length rs \<Longrightarrow> rs ! i = (a, pc) \<Longrightarrow> a \<in> fst ` set rs"
  using nth_mem by force

lemma abandoned_step:
  "pool_step assign restart s act s' \<Longrightarrow> abandoned a n s \<Longrightarrow> (\<And>m. act = Resize m \<Longrightarrow> m = n)
    \<Longrightarrow> abandoned a n s' \<and> act \<noteq> Call a"
proof (induction rule: pool_step.induct)
  case (resize ro m s p d)
  then have "p = sys_pool s" by (simp add: abandoned_def UpdateExpectedSize_def)
  then show ?case using resize by (simp add: abandoned_def)
next
  case (register i m ip s p added)
  then show ?case
    by (auto simp: abandoned_def AddWorkerIfNotExists_def nth_append split: option.splits)
next
  case (unregister s m)
  then show ?case by (simp add: abandoned_def RemoveWorkerByName_def)
next
  case (tick ro s p started)
  then have "p = sys_pool s \<and> started = []" by (auto simp: abandoned_def conciliate_def split: if_splits)
  then show ?case using tick by (simp add: abandoned_def)
next
  case (call i s b d)
  then show ?case
    using pending_memI [OF call(1,2)] by (auto simp: abandoned_def pending_update)
next
  case (call_fails i s b d e)
  then show ?case using pending_remove [of i "sys_restarts s"] by (auto simp: abandoned_def)
next
  case (finish i s b p)
  have "b \<noteq> a" using pending_memI [OF finish(1,2)] finish(4) by (auto simp: abandoned_def)
  moreover have "a \<notin> fst ` set (remove_at i (sys_restarts s))"
    using finish(4) pending_remove [of i "sys_restarts s"] by (auto simp only: abandoned_def)
  ultimately show ?case using finish(3,4) by (simp add: abandoned_def restart_finish_eq)
next
  case (stop s p)
  then show ?case by (simp add: abandoned_def Terminate_eq)
qed

lemma abandoned_run:
  "pool_run assign restart s acts s' \<Longrightarrow> abandoned a n s \<Longrightarrow> (\<And>m. Resize m \<in> set acts \<Longrightarrow> m = n)
    \<Longrightarrow> abandoned a n s' \<and> Call a \<notin> set acts"
proof (induction rule: pool_run.induct)
  case (run_snoc s acts m act s')
  then have "abandoned a n m" "Call a \<notin> set acts" by simp_all
  then show ?case using abandoned_step [OF run_snoc(2), of a n] run_snoc(5) by auto
qed simp

text \<open>
  C32 A restart that failed is never tried again by itself: a marked worker without a restart
  under way, in a pool that has disarmed its conciliation, stays marked and is never restarted,
  in every run in which the expected size does not change. Only
  a resize to another size re-arms the conciliation.
\<close>

theorem failed_restart_never_retried:
  assumes "\<not> p_underVariation (sys_pool s)" and "a < length (p_heap (sys_pool s))"
    and "w_state (p_heap (sys_pool s) ! a) = NeedsRefresh" and "a \<notin> pending s"
    and "pool_run assign restart s acts s'"
    and "\<And>n. Resize n \<in> set acts \<Longrightarrow> n = p_expectedSize (sys_pool s)"
  shows "Call a \<notin> set acts \<and> a \<notin> pending s'
    \<and> w_state (p_heap (sys_pool s') ! a) = NeedsRefresh \<and> \<not> p_underVariation (sys_pool s')"
proof -
  have "abandoned a (p_expectedSize (sys_pool s)) s" using assms(1-4) by (simp add: abandoned_def)
  from abandoned_run [OF assms(5) this assms(6)] show ?thesis by (simp add: abandoned_def)
qed

definition fail_restart :: "string list \<Rightarrow> string \<Rightarrow> (string list \<times> goerror option) go" where
  "fail_restart d n = Inr (d, Some (OtherError ''timeout''))"

theorem failed_restart_never_retried_witness:
  "\<exists>s s'. exec rec_assign fail_restart (example_acts @ [CallFails 0]) example_start = Some s
    \<and> pool_run rec_assign fail_restart s [Tick, Resize 2, Tick] s'
    \<and> w_state (p_heap (sys_pool s') ! 0) = NeedsRefresh \<and> 0 \<notin> pending s'"
proof -
  let ?e = "exec rec_assign fail_restart (example_acts @ [CallFails 0]) example_start"
  have ev: "map_option (\<lambda>s. (p_underVariation (sys_pool s), 0 < length (p_heap (sys_pool s)),
      w_state (p_heap (sys_pool s) ! 0), sys_restarts s, p_expectedSize (sys_pool s),
      exec rec_assign fail_restart [Tick, Resize 2, Tick] s \<noteq> None)) ?e
      = Some (False, True, NeedsRefresh, [], 2, True)" by code_simp
  then obtain s s' where s: "?e = Some s"
    "\<not> p_underVariation (sys_pool s)" "0 < length (p_heap (sys_pool s))"
    "w_state (p_heap (sys_pool s) ! 0) = NeedsRefresh" "0 \<notin> pending s"
    and z: "p_expectedSize (sys_pool s) = 2"
    and e: "exec rec_assign fail_restart [Tick, Resize 2, Tick] s = Some s'" by auto
  have "n = p_expectedSize (sys_pool s)" if "Resize n \<in> set [Tick, Resize 2, Tick :: unit action]" for n
    using that z by simp
  from failed_restart_never_retried [OF s(2-5) exec_sound [OF e] this]
  show ?thesis using s(1) exec_sound [OF e] by blast
qed

section \<open>A lost mark\<close>

text \<open>
  C31 A mark can be lost without any failure: when a resize marks a worker whose pod has just
  been restarted for the previous size, the end of that restart clears the mark, and the next
  round disarms the conciliation without restarting the worker for the new size.
\<close>

theorem resize_mark_lost:
  assumes "pool_inv (sys_pool s)" and "a \<in> registered (sys_pool s)"
    and "sys_restarts s = [(a, Restarted)]" and "n \<noteq> 0"
    and "assignment_inv (p_state (sys_pool s))"
    and "pool_step assign restart s (Resize n) s1" and "pool_step assign restart s1 (Finish a) s2"
    and "pool_step assign restart s2 Tick s3"
  shows "w_state (p_heap (sys_pool s3) ! a) = Syncing \<and> a \<notin> pending s3
    \<and> \<not> p_underVariation (sys_pool s3)"
proof -
  obtain ro p d where r: "range_order ro" "s1 = s\<lparr>sys_pool := p, sys_world := d\<rparr>"
    "UpdateExpectedSize BalanceWorkload Workloads assign ro n (sys_pool s, sys_world s) = Inr (p, d)"
    using assms(6) by (rule resizeE)
  note u = asg.update_preserves [OF assms(5,1) r(1,3)]
  obtain i q where f: "s2 = s1\<lparr>sys_pool := q, sys_restarts := remove_at i (sys_restarts s1)\<rparr>"
    "i < length (sys_restarts s1)" "restart_finish a (sys_pool s1) = Inr q"
    using assms(7) by (rule finishE)
  have none: "sys_restarts s2 = []" using f assms(3) r(2) by (simp add: remove_at_def)
  have a: "a < length (p_heap p)" using u registered_allocated [OF assms(1,2)] by simp
  have q: "q = p\<lparr>p_heap := (p_heap p)[a := MarkRefreshed (p_heap p ! a)]\<rparr>"
    using f(3) r(2) by (simp add: restart_finish_eq)
  have q_inv: "pool_inv q" using pool_inv_finish [OF _ f(3)] u r(2) by simp
  obtain ro' p3 ws where t: "range_order ro'" "conciliate ro' (sys_pool s2) = (p3, ws)"
    "s3 = s2\<lparr>sys_pool := p3, sys_restarts := sys_restarts s2 @ map (\<lambda>a. (a, Sleeping)) ws\<rparr>"
    using assms(8) by (rule tickE)
  have s2: "sys_pool s2 = q" by (simp add: f(1))
  have "w_state (p_heap q ! a) = Syncing" using a q by simp
  moreover have "a \<notin> set ws" and "\<not> p_underVariation p3"
    using t(2) calculation q u assms(4)
    by (auto simp: s2 conciliate_def conciliate_loop_filter split: if_splits)
  moreover have "p_heap p3 = p_heap q"
    using conciliate_started(2) [OF q_inv t(1)] t(2) s2 by simp
  ultimately show ?thesis using t(3) none by (auto simp: s2)
qed

theorem resize_mark_lost_witness:
  "\<exists>s s1 s2 s3. exec rec_assign rec_restart (example_acts @ [Call 0]) example_start = Some s
    \<and> exec rec_assign rec_restart [Resize 3] s = Some s1
    \<and> w_state (p_heap (sys_pool s1) ! 0) = NeedsRefresh
    \<and> exec rec_assign rec_restart [Finish 0] s1 = Some s2 \<and> exec rec_assign rec_restart [Tick] s2 = Some s3
    \<and> w_state (p_heap (sys_pool s3) ! 0) = Syncing \<and> 0 \<notin> pending s3"
proof -
  let ?acts = "example_acts @ [Call 0]"
  let ?e = "exec rec_assign rec_restart ?acts example_start"
  let ?x = "\<lambda>acts s. exec rec_assign rec_restart acts s"
  have ev: "map_option (\<lambda>s. (map snd (p_index (sys_pool s)), sys_restarts s,
      map_option (\<lambda>s1. (w_state (p_heap (sys_pool s1) ! 0),
        map_option (\<lambda>s2. ?x [Tick] s2 \<noteq> None) (?x [Finish 0] s1))) (?x [Resize 3] s))) ?e
    = Some ([0, 1], [(0, Restarted)], Some (NeedsRefresh, Some True))" by code_simp
  then obtain s s1 s2 s3 where s: "?e = Some s" "map snd (p_index (sys_pool s)) = [0, 1]"
    "sys_restarts s = [(0, Restarted)]"
    and x: "?x [Resize 3] s = Some s1" "w_state (p_heap (sys_pool s1) ! 0) = NeedsRefresh"
    "?x [Finish 0] s1 = Some s2" "?x [Tick] s2 = Some s3"
    by (auto simp del: exec.simps simp: map_option_eq_Some)
  have "sys_inv (assignation ''w'' [Job ''a'', Job ''b'']) s"
    by (rule sys_inv_run [OF exec_sound [OF s(1)]]) (simp add: example_start_def sys_inv_start)
  then have i: "pool_inv (sys_pool s)" "assignment_inv (p_state (sys_pool s))"
    by (simp_all add: sys_inv_def)
  have "registered (sys_pool s) = {0, 1}"
    unfolding registered_def using arg_cong [OF s(2), of set] by simp
  then have "0 \<in> registered (sys_pool s)" by simp
  moreover have "pool_step rec_assign rec_restart s (Resize 3) s1"
    "pool_step rec_assign rec_restart s1 (Finish 0) s2" "pool_step rec_assign rec_restart s2 Tick s3"
    using x by (auto intro!: exec_step_sound split: option.splits)
  ultimately have "w_state (p_heap (sys_pool s3) ! 0) = Syncing \<and> 0 \<notin> pending s3"
    using resize_mark_lost [OF i(1) _ s(3) _ i(2), of 3] by simp
  then show ?thesis using s(1) x by blast
qed

section \<open>Restarts and later workers\<close>

text \<open>
  A restart under way acts on the worker it was started with and on no other: a pod that
  registers again under the same name is a new worker that no restart under way refers to,
  and the end of a restart whose worker has left the pool changes no registered worker.
\<close>

theorem restart_of_removed_worker_harmless:
  assumes "int (length jobs) < 2 ^ 63" and "pool_run assign restart (start jobs setName d0) acts s"
  shows "(if pool_step assign restart s (Register i n ip) s' \<and> n \<notin> mkeys (p_index (sys_pool s))
      then \<exists>b. map_of (p_index (sys_pool s')) n = Some b \<and> b \<notin> pending s'
        \<and> p_heap (sys_pool s') ! b = newWorker i n ip else True)
    \<and> (if pool_step assign restart s (Finish a) s'' \<and> a \<notin> registered (sys_pool s)
      then registered (sys_pool s'') = registered (sys_pool s)
        \<and> (\<forall>b \<in> registered (sys_pool s). p_heap (sys_pool s'') ! b = p_heap (sys_pool s) ! b)
      else True)"
proof -
  have inv: "sys_inv (assignation setName jobs) s"
    by (rule sys_inv_run [OF assms(2) sys_inv_start [OF assms(1)]])
  then have p: "pool_inv (sys_pool s)" and pend: "\<forall>b \<in> pending s. b < length (p_heap (sys_pool s))"
    by (simp_all add: sys_inv_def)
  have "\<exists>b. map_of (p_index (sys_pool s')) n = Some b \<and> b \<notin> pending s'
        \<and> p_heap (sys_pool s') ! b = newWorker i n ip"
    if st: "pool_step assign restart s (Register i n ip) s'" and n: "n \<notin> mkeys (p_index (sys_pool s))"
  proof -
    obtain q b where q: "AddWorkerIfNotExists i n ip (sys_pool s) = (q, b)" "s' = s\<lparr>sys_pool := q\<rparr>"
      using st by (rule registerE)
    have look: "map_of (p_index (sys_pool s)) n = None" using n by (simp add: mkeys_None)
    show ?thesis
      using register_cases [OF p q(1)]
    proof cases
      case 2
      then show ?thesis using q(2) pend look by (auto simp: map_add_def)
    qed (use n in simp)
  qed
  moreover have "registered (sys_pool s'') = registered (sys_pool s)
      \<and> (\<forall>b \<in> registered (sys_pool s). p_heap (sys_pool s'') ! b = p_heap (sys_pool s) ! b)"
    if st: "pool_step assign restart s (Finish a) s''" and a: "a \<notin> registered (sys_pool s)"
  proof -
    obtain j q where "s'' = s\<lparr>sys_pool := q, sys_restarts := remove_at j (sys_restarts s)\<rparr>"
      "restart_finish a (sys_pool s) = Inr q" using st by (rule finishE)
    then show ?thesis using a by (auto simp: restart_finish_eq registered_def nth_list_update)
  qed
  ultimately show ?thesis by simp
qed

theorem restart_of_removed_worker_harmless_witness:
  "\<exists>s s'. exec rec_assign rec_restart (example_acts @ [Call 0, Unregister ''w-0'']) example_start = Some s
    \<and> pool_step rec_assign rec_restart s (Register 0 ''w-0'' ()) s'
    \<and> (\<exists>b. map_of (p_index (sys_pool s')) ''w-0'' = Some b \<and> b \<notin> pending s')"
proof -
  let ?acts = "example_acts @ [Call 0, Unregister ''w-0'']"
  let ?e = "exec rec_assign rec_restart ?acts example_start"
  have "map_option (\<lambda>s. map fst (p_index (sys_pool s))) ?e = Some [''w-1'']" by code_simp
  then obtain s where s: "?e = Some s" "map fst (p_index (sys_pool s)) = [''w-1'']"
    by (auto simp del: exec.simps simp: map_option_eq_Some)
  have n: "''w-0'' \<notin> mkeys (p_index (sys_pool s))"
    using arg_cong [OF s(2), of set] by simp
  obtain q b where q: "AddWorkerIfNotExists 0 ''w-0'' () (sys_pool s) = (q, b)" by (metis surj_pair)
  note st = pool_step.register [OF q, of rec_assign rec_restart]
  have run: "pool_run rec_assign rec_restart (start [Job ''a'', Job ''b''] ''w'' []) ?acts s"
    using exec_sound [OF s(1)] by (simp add: example_start_def)
  have len: "int (length [Job ''a'', Job ''b'']) < 2 ^ 63" by simp
  have "\<exists>b. map_of (p_index (sys_pool (s\<lparr>sys_pool := q\<rparr>))) ''w-0'' = Some b \<and> b \<notin> pending (s\<lparr>sys_pool := q\<rparr>)"
    using restart_of_removed_worker_harmless
        [OF len run, THEN conjunct1, of 0 "''w-0''" "()" "s\<lparr>sys_pool := q\<rparr>"]
    by (simp only: st n simp_thms if_True) blast
  then show ?thesis using s(1) st by blast
qed

section \<open>Restarts drain\<close>

definition restart_action :: "'ip action \<Rightarrow> bool" where
  "restart_action act = (case act of Call a \<Rightarrow> True | Finish a \<Rightarrow> True | _ \<Rightarrow> False)"

definition pc_work :: "nat \<times> restart_pc \<Rightarrow> nat" where
  "pc_work r = (case snd r of Sleeping \<Rightarrow> 2 | Restarted \<Rightarrow> 1)"

definition restart_work :: "('d, 'ip) system \<Rightarrow> nat" where
  "restart_work s = sum_list (map pc_work (sys_restarts s))"

lemma work_remove:
  assumes "i < length rs"
  shows "sum_list (map pc_work (remove_at i rs)) + pc_work (rs ! i) = sum_list (map pc_work rs)"
proof -
  have "sum_mset (image_mset pc_work (mset rs)) = pc_work (rs ! i)
      + sum_mset (image_mset pc_work (mset (remove_at i rs)))"
    using mset_remove_at [OF assms] by simp
  then show ?thesis by (simp add: sum_mset_sum_list [symmetric] del: sum_mset_sum_list)
qed

lemma work_update:
  assumes "i < length rs" and "rs ! i = (a, Sleeping)"
  shows "Suc (sum_list (map pc_work (rs[i := (a, Restarted)]))) = sum_list (map pc_work rs)"
proof -
  have "remove_at i (rs[i := (a, Restarted)]) = remove_at i rs" by (simp add: remove_at_def)
  then show ?thesis
    using work_remove [OF assms(1)] work_remove [of i "rs[i := (a, Restarted)]"] assms
    by (simp add: pc_work_def)
qed

lemma work_step:
  "pool_step assign restart s act s' \<Longrightarrow> restart_action act \<Longrightarrow> Suc (restart_work s') = restart_work s"
proof (induction rule: pool_step.induct)
  case (call i s a d)
  then show ?case using work_update [OF call(1,2)] by (simp add: restart_work_def)
next
  case (finish i s a p)
  then show ?case using work_remove [OF finish(1)] by (simp add: restart_work_def pc_work_def)
qed (simp_all add: restart_action_def)

lemma work_run:
  "pool_run assign restart s acts s' \<Longrightarrow> list_all restart_action acts
    \<Longrightarrow> length acts + restart_work s' = restart_work s"
proof (induction rule: pool_run.induct)
  case (run_snoc s acts m act s')
  then show ?case using work_step [OF run_snoc(2)] by simp
qed simp

lemma work_zero: "restart_work s = 0 \<longleftrightarrow> sys_restarts s = []"
  by (cases "sys_restarts s") (auto simp: restart_work_def pc_work_def split: restart_pc.splits)

text \<open>A pending restart can always move when the cluster answers without error.\<close>

lemma restart_progress:
  assumes "sys_inv t s" and "sys_restarts s \<noteq> []" and "\<And>d n. \<exists>d'. restart d n = Inr (d', None)"
  shows "\<exists>act s'. restart_action act \<and> pool_step assign restart s act s'"
proof -
  obtain a pc where r: "sys_restarts s ! 0 = (a, pc)" by (metis surj_pair)
  have z: "0 < length (sys_restarts s)" using assms(2) by simp
  have a: "a < length (p_heap (sys_pool s))"
    using assms(1) pending_memI [OF z r] by (simp only: sys_inv_def)
  show ?thesis
  proof (cases pc)
    case Sleeping
    obtain d where "restart_call restart a (sys_pool s) (sys_world s) = Inr (d, None)"
      using a assms(3) by (auto simp: restart_call_def deref_def)
    note step = pool_step.call [OF z r [unfolded Sleeping] this]
    show ?thesis
      by (intro exI [of _ "Call a"] exI conjI, simp add: restart_action_def, rule step)
  next
    case Restarted
    obtain p where "restart_finish a (sys_pool s) = Inr p" using a by (simp add: restart_finish_eq)
    note step = pool_step.finish [OF z r [unfolded Restarted] this]
    show ?thesis
      by (intro exI [of _ "Finish a"] exI conjI, simp add: restart_action_def, rule step)
  qed
qed

lemma restarts_can_drain:
  assumes "sys_inv t s" and "\<And>d n. \<exists>d'. restart d n = Inr (d', None)"
  shows "\<exists>acts s'. list_all restart_action acts \<and> pool_run assign restart s acts s' \<and> sys_restarts s' = []"
  using assms(1)
proof (induction "restart_work s" arbitrary: s)
  case 0
  then show ?case by (intro exI [of _ "[]"] exI [of _ s]) (simp add: run_nil work_zero)
next
  case (Suc k)
  then have "sys_restarts s \<noteq> []" by (metis Zero_not_Suc work_zero)
  then obtain act m where m: "restart_action act" "pool_step assign restart s act m"
    using restart_progress [where restart = restart and assign = assign, OF Suc.prems _ assms(2)]
    by blast
  then have "k = restart_work m" using work_step [OF m(2,1)] Suc.hyps(2) by simp
  from Suc.hyps(1) [OF this sys_inv_step [OF m(2) Suc.prems]] obtain acts s' where
    "list_all restart_action acts" "pool_run assign restart m acts s'" "sys_restarts s' = []" by blast
  then show ?case
    using m(1) run_Cons [OF m(2)] by (intro exI [of _ "act # acts"] exI [of _ s']) simp
qed

lemma underVariation_restarts:
  "pool_run assign restart s acts s' \<Longrightarrow> list_all restart_action acts
    \<Longrightarrow> p_underVariation (sys_pool s') = p_underVariation (sys_pool s) \<and> (\<forall>a. CallFails a \<notin> set acts)"
proof (induction rule: pool_run.induct)
  case (run_snoc s acts m act s')
  have "p_underVariation (sys_pool s') = p_underVariation (sys_pool m) \<and> (\<forall>a. act \<noteq> CallFails a)"
    using run_snoc(2,4) by (cases rule: pool_step.cases) (auto simp: restart_action_def restart_finish_eq)
  then show ?case using run_snoc by auto
qed simp

text \<open>
  C17 The restarts of a round come to an end: when the cluster answers every restart without
  error, the pending restarts of a reachable state can all be completed, no order of their
  steps is longer or shorter than another, and when the last one is done and no resize came
  in between, no registered worker is left that needs a refresh.
\<close>

theorem restarts_drain:
  assumes "int (length jobs) < 2 ^ 63" and "pool_run assign restart (start jobs setName d0) acts0 s"
    and "\<And>b. CallFails b \<notin> set acts0" and "\<not> p_underVariation (sys_pool s)"
    and "\<And>d n. \<exists>d'. restart d n = Inr (d', None)"
  shows "(\<exists>acts s'. list_all restart_action acts \<and> pool_run assign restart s acts s' \<and> sys_restarts s' = [])
    \<and> (if list_all restart_action acts \<and> pool_run assign restart s acts s'
       then length acts + restart_work s' = restart_work s
         \<and> (if sys_restarts s' = []
            then \<forall>a \<in> registered (sys_pool s'). w_state (p_heap (sys_pool s') ! a) \<noteq> NeedsRefresh
            else length acts < restart_work s)
       else True)"
proof -
  let ?t = "assignation setName jobs"
  have inv: "sys_inv ?t s" by (rule sys_inv_run [OF assms(2) sys_inv_start [OF assms(1)]])
  have "covered (start jobs setName d0)"
    by (simp add: covered_def start_def NewWorkerPool_def)
  note cov = covered_run [OF assms(2) sys_inv_start [OF assms(1)] this assms(3)]
  have "w_state (p_heap (sys_pool s') ! a) \<noteq> NeedsRefresh"
    if r: "list_all restart_action acts" "pool_run assign restart s acts s'" "sys_restarts s' = []"
      and a: "a \<in> registered (sys_pool s')" for a
  proof -
    note u = underVariation_restarts [OF r(2,1)]
    have "covered s'" using covered_run [OF r(2) inv cov] u by blast
    then show ?thesis using u assms(4) r(3) a by (auto simp: covered_def)
  qed
  moreover have "length acts + restart_work s' = restart_work s"
    if "list_all restart_action acts" "pool_run assign restart s acts s'"
    using work_run that by blast
  ultimately show ?thesis
    using restarts_can_drain [OF inv assms(5)] work_zero [of s'] by force
qed

theorem restarts_drain_witness:
  "\<exists>s s'. exec rec_assign rec_restart example_acts example_start = Some s
    \<and> exec rec_assign rec_restart [Call 0, Finish 0] s = Some s'
    \<and> (\<forall>a \<in> registered (sys_pool s'). w_state (p_heap (sys_pool s') ! a) \<noteq> NeedsRefresh)"
proof -
  have "map_option (\<lambda>s. (p_underVariation (sys_pool s), map_option sys_restarts
      (exec rec_assign rec_restart [Call 0, Finish 0] s)))
      (exec rec_assign rec_restart example_acts example_start) = Some (False, Some [])" by code_simp
  then obtain s s' where s: "exec rec_assign rec_restart example_acts example_start = Some s"
    "\<not> p_underVariation (sys_pool s)" "exec rec_assign rec_restart [Call 0, Finish 0] s = Some s'"
    "sys_restarts s' = []"
    by (auto simp del: exec.simps simp: map_option_eq_Some)
  have run: "pool_run rec_assign rec_restart (start [Job ''a'', Job ''b''] ''w'' []) example_acts s"
    using exec_sound [OF s(1)] by (simp add: example_start_def)
  have len: "int (length [Job ''a'', Job ''b'']) < 2 ^ 63" by simp
  have nf: "CallFails b \<notin> set example_acts" for b by (simp add: example_acts_def)
  have total: "\<exists>d'. rec_restart d n = Inr (d', None)" for d n by (simp add: rec_restart_def)
  have acts: "list_all restart_action [Call 0, Finish 0 :: unit action]"
    by (simp add: restart_action_def)
  show ?thesis
    using restarts_drain [OF len run nf s(2) total, THEN conjunct2, of "[Call 0, Finish 0]" s']
      exec_sound [OF s(3)] acts s(1,3,4) by auto
qed

end
