(* ===== verification/Storage.thy ===== *)
theory Storage
  imports Config
begin

text \<open>
  The storages of assignations as an interface: \<open>chainMember\<close> and \<open>ProviderMiddleware\<close> of
  \<open>services/controller/internal/infra/k8s/operator/crd/provider.go\<close>, which chains two
  storages. \<open>executor.go\<close> sees the same interface as \<open>delegatedStorage\<close>.
\<close>

section \<open>The interface\<close>

text \<open>What an assignation says: the jobs of each worker, and the version.\<close>

definition content :: "workloads \<Rightarrow> (string \<Rightarrow> job list option) \<times> int" where
  "content a = (jobs_at (ws_workloads a), ws_version a)"

text \<open>
  \<open>shown d\<close> is what a reader of the storage gets in the world \<open>d\<close>, \<open>None\<close> if the read fails.
  A \<open>Set\<close> that succeeds shows what it was given; \<open>okw\<close> is what the storage needs of an
  assignation for this.
\<close>

locale chain_member =
  fixes put :: "'d \<Rightarrow> workloads \<Rightarrow> ('d \<times> goerror option) go"
    and shown :: "'d \<Rightarrow> ((string \<Rightarrow> job list option) \<times> int) option"
    and ok :: "'d \<Rightarrow> bool"
    and okw :: "workloads \<Rightarrow> bool"
  assumes put_shown: "ok d \<Longrightarrow> okw a \<Longrightarrow> put d a = Inr (d', None) \<Longrightarrow> shown d' = Some (content a)"
    and put_ok: "ok d \<Longrightarrow> put d a = Inr (d', e) \<Longrightarrow> ok d'"
begin

text \<open>After two successful writes the storage shows the second.\<close>

lemma last_put_wins:
  assumes "ok d" and "okw b" and "put d a = Inr (d1, e)" and "put d1 b = Inr (d2, None)"
  shows "shown d2 = Some (content b)"
  using put_shown [OF put_ok [OF assms(1,3)] assms(2,4)] .

end

section \<open>ProviderMiddleware\<close>

text \<open>A \<open>chainMember\<close> is its \<open>Set\<close>; that of the middleware takes the fields as arguments.\<close>

record 'd provider_middleware =
  pm_prev :: "'d \<Rightarrow> workloads \<Rightarrow> ('d \<times> goerror option) go"
  pm_next :: "'d \<Rightarrow> workloads \<Rightarrow> ('d \<times> goerror option) go"

definition NewProviderMiddleware ::
    "('d \<Rightarrow> workloads \<Rightarrow> ('d \<times> goerror option) go) \<Rightarrow> ('d \<Rightarrow> workloads \<Rightarrow> ('d \<times> goerror option) go)
     \<Rightarrow> 'd provider_middleware" where
  "NewProviderMiddleware prev nxt = \<lparr>pm_prev = prev, pm_next = nxt\<rparr>"

definition ProviderMiddleware_Set ::
    "('d \<Rightarrow> workloads \<Rightarrow> ('d \<times> goerror option) go) \<Rightarrow> ('d \<Rightarrow> workloads \<Rightarrow> ('d \<times> goerror option) go)
     \<Rightarrow> 'd \<Rightarrow> workloads \<Rightarrow> ('d \<times> goerror option) go" where
  "ProviderMiddleware_Set prev nxt d a =
     go_bind (prev d a) (\<lambda>(d1, err).
       case err of
         Some e \<Rightarrow> Inr (d1, Some e)
       | None \<Rightarrow> go_bind (nxt d1 a) (\<lambda>(d2, err2).
           case err2 of
             Some e \<Rightarrow> Inr (d2, Some e)
           | None \<Rightarrow> Inr (d2, None)))"

lemma middleware_cases:
  assumes "ProviderMiddleware_Set prev nxt d a = Inr (d', err)"
  obtains e where "prev d a = Inr (d', Some e)" "err = Some e"
  | d1 where "prev d a = Inr (d1, None)" "nxt d1 a = Inr (d', err)"
proof -
  obtain d1 err1 where p: "prev d a = Inr (d1, err1)"
    using assms by (auto simp: ProviderMiddleware_Set_def go_bind_Inr_iff)
  show thesis
    using assms p that
    by (cases err1) (auto simp: ProviderMiddleware_Set_def go_bind_Inr_iff split: option.splits)
qed

text \<open>Two members over one world; the second does not disturb what the first shows.\<close>

locale chain = prev: chain_member put1 shown1 ok okw + nxt: chain_member put2 shown2 ok okw
  for put1 shown1 put2 shown2 and ok :: "'d \<Rightarrow> bool" and okw +
  assumes frame: "ok d \<Longrightarrow> put2 d a = Inr (d', e) \<Longrightarrow> shown1 d' = shown1 d"
begin

lemma middleware_ok:
  assumes "ok d" and "ProviderMiddleware_Set put1 put2 d a = Inr (d', e)"
  shows "ok d'"
  using assms(2)
proof (cases rule: middleware_cases)
  case (1 e')
  then show ?thesis using prev.put_ok assms(1) by blast
next
  case (2 d1)
  then show ?thesis using prev.put_ok nxt.put_ok assms(1) by blast
qed

lemma middleware_both:
  assumes "ok d" and "okw a" and "ProviderMiddleware_Set put1 put2 d a = Inr (d', None)"
  shows "shown1 d' = Some (content a)" and "shown2 d' = Some (content a)"
proof -
  obtain d1 where d: "put1 d a = Inr (d1, None)" "put2 d1 a = Inr (d', None)"
    using assms(3) by (cases rule: middleware_cases) auto
  have "ok d1" by (rule prev.put_ok [OF assms(1) d(1)])
  show "shown2 d' = Some (content a)" by (rule nxt.put_shown [OF \<open>ok d1\<close> assms(2) d(2)])
  show "shown1 d' = Some (content a)"
    using frame [OF \<open>ok d1\<close> d(2)] prev.put_shown [OF assms(1,2) d(1)] by simp
qed

text \<open>
  A failure of the first member reaches the second neither in effect nor in call; a failure of
  the second leaves the first already written.
\<close>

lemma middleware_failed:
  assumes "ok d" and "okw a" and "ProviderMiddleware_Set put1 put2 d a = Inr (d', Some e)"
  shows "put1 d a = Inr (d', Some e) \<or> shown1 d' = Some (content a)"
  using assms(3)
proof (cases rule: middleware_cases)
  case (2 d1)
  then show ?thesis
    using frame [OF prev.put_ok [OF assms(1) 2(1)] 2(2)] prev.put_shown [OF assms(1,2) 2(1)] by simp
qed simp

end

text \<open>So a chain is itself a storage, read through either member.\<close>

sublocale chain \<subseteq> through_first: chain_member "ProviderMiddleware_Set put1 put2" shown1 ok okw
  by unfold_locales (auto intro: middleware_both middleware_ok)

sublocale chain \<subseteq> through_second: chain_member "ProviderMiddleware_Set put1 put2" shown2 ok okw
  by unfold_locales (auto intro: middleware_both middleware_ok)

end
