(* ===== verification/Kube.thy ===== *)
theory Kube
  imports Config GoText
begin

text \<open>
  The objects of the cluster the controller works on and the calls it makes to the API
  server. The types of the custom resource follow
  \<open>services/controller/internal/infra/k8s/apis/swarm/v1alpha1/types.go\<close>; of the objects
  of the Kubernetes library (config map, pod, stateful set) and of their metadata the records
  keep the fields the program reads or writes. The clients are the library's: they are records
  of functions over a cluster state \<open>'k\<close>, and what the code relies on are the predicates
  \<open>cm_laws\<close> and \<open>swarm_laws\<close>.
\<close>

section \<open>Metadata\<close>

record typeMeta =
  tm_kind :: string
  tm_apiVersion :: string

record objectMeta =
  om_name :: string
  om_namespace :: string
  om_labels :: "(string, string) gomap"
  om_deletionTimestamp :: "int option"

definition zero_typeMeta :: typeMeta where
  "zero_typeMeta = \<lparr>tm_kind = [], tm_apiVersion = []\<rparr>"

definition zero_objectMeta :: objectMeta where
  "zero_objectMeta = \<lparr>om_name = [], om_namespace = [], om_labels = [], om_deletionTimestamp = None\<rparr>"

section \<open>The custom resource\<close>

datatype alpha_job = AlphaJob string

record memberStatus =
  ms_phase :: string

record alpha_member =
  mb_typeMeta :: typeMeta
  mb_objectMeta :: objectMeta
  mb_name :: string
  mb_jobs :: "alpha_job list"
  mb_state :: memberStatus
  mb_createdAt :: int

record swarmSpec =
  sp_version :: int
  sp_expectedSize :: int
  sp_size :: int
  sp_members :: "alpha_member list"

record swarmStatus =
  ss_phase :: string

record swarm =
  sw_typeMeta :: typeMeta
  sw_objectMeta :: objectMeta
  sw_spec :: swarmSpec
  sw_status :: swarmStatus

text \<open>Of the metadata of a list the two fields of its paging are kept.\<close>

record listMeta =
  lm_resourceVersion :: string
  lm_continue :: string

record swarmList =
  sl_typeMeta :: typeMeta
  sl_listMeta :: listMeta
  sl_items :: "swarm list"

definition new_swarm :: swarm where
  "new_swarm = \<lparr>sw_typeMeta = zero_typeMeta, sw_objectMeta = zero_objectMeta,
     sw_spec = \<lparr>sp_version = 0, sp_expectedSize = 0, sp_size = 0, sp_members = []\<rparr>, sw_status = \<lparr>ss_phase = []\<rparr>\<rparr>"

definition new_swarmList :: swarmList where
  "new_swarmList = \<lparr>sl_typeMeta = zero_typeMeta, sl_listMeta = \<lparr>lm_resourceVersion = [], lm_continue = []\<rparr>, sl_items = []\<rparr>"

definition PhasePending :: string where "PhasePending = ''PENDING''"
definition PhaseRunning :: string where "PhaseRunning = ''RUNNING''"
definition PhaseDone :: string where "PhaseDone = ''DONE''"

section \<open>Objects of the library\<close>

text \<open>A nil map and an empty one differ: a store into a nil map panics.\<close>

record configMap =
  cm_objectMeta :: objectMeta
  cm_data :: "(string, string) gomap option"

record podCondition =
  pc_type :: string
  pc_status :: string

text \<open>Of a container status only whether \<open>State.Terminated\<close> is set is read.\<close>

record pod =
  pd_objectMeta :: objectMeta
  pd_nodeName :: string
  pd_hostNetwork :: bool
  pd_podIP :: string
  pd_phase :: string
  pd_conditions :: "podCondition list"
  pd_terminated :: "bool list"

record statefulSet =
  st_objectMeta :: objectMeta
  st_replicas :: "int option"

text \<open>
  The dynamic types behind \<open>runtime.Object\<close> and \<open>interface{}\<close>: \<open>Tombstone\<close> is the
  informer's \<open>DeletedFinalStateUnknown\<close> (a key and the last object it knew), which is no
  \<open>runtime.Object\<close>; \<open>Foreign\<close> is a value of any other type, by name, with the information
  whether it is a \<open>runtime.Object\<close>.
\<close>

datatype object =
    PodObj pod
  | StatefulSetObj statefulSet
  | SwarmObj swarm
  | Tombstone string "object option"
  | Foreign string bool

section \<open>The API server\<close>

record 'k kube =
  kube_getConfigMap :: "'k \<Rightarrow> string \<Rightarrow> string \<Rightarrow> goerror + configMap"
  kube_updateConfigMap :: "'k \<Rightarrow> string \<Rightarrow> configMap \<Rightarrow> 'k \<times> (goerror + configMap)"
  kube_deletePod :: "'k \<Rightarrow> string \<Rightarrow> string \<Rightarrow> 'k \<times> goerror option"

record 'k versioned =
  vc_getSwarm :: "'k \<Rightarrow> string \<Rightarrow> string \<Rightarrow> goerror + swarm"
  vc_createSwarm :: "'k \<Rightarrow> string \<Rightarrow> swarm \<Rightarrow> 'k \<times> (goerror + swarm)"
  vc_updateSwarm :: "'k \<Rightarrow> string \<Rightarrow> swarm \<Rightarrow> 'k \<times> (goerror + swarm)"

text \<open>
  A config map that was read and is updated with new data, not an empty map, which the encoding
  drops, is read back with this data; the server may change its metadata. The update of a config map leaves the swarms alone.
\<close>

definition cm_laws :: "'k kube \<Rightarrow> bool" where
  "cm_laws cl \<longleftrightarrow> (\<forall>k k' ns name cm data r.
     kube_getConfigMap cl k ns name = Inr cm \<longrightarrow> data \<noteq> Some []
     \<longrightarrow> kube_updateConfigMap cl k ns (cm\<lparr>cm_data := data\<rparr>) = (k', Inr r)
     \<longrightarrow> (\<exists>cm'. kube_getConfigMap cl k' ns name = Inr cm' \<and> cm_data cm' = data))"

text \<open>
  The same for a swarm, which may also just have been created with that name: the creation
  answers with an object of that name, and its update is read back.
\<close>

definition swarm_laws :: "'k versioned \<Rightarrow> bool" where
  "swarm_laws vc \<longleftrightarrow> (\<forall>k k' ns name sw spec r.
     (vc_getSwarm vc k ns name = Inr sw
      \<or> (\<exists>k0 s0. vc_createSwarm vc k0 ns s0 = (k, Inr sw) \<and> om_name (sw_objectMeta s0) = name))
     \<longrightarrow> vc_updateSwarm vc k ns (sw\<lparr>sw_spec := spec\<rparr>) = (k', Inr r)
     \<longrightarrow> (\<exists>sw'. vc_getSwarm vc k' ns name = Inr sw' \<and> sw_spec sw' = spec))"

text \<open>Writes to swarms do not change what is read of config maps.\<close>

definition separate_laws :: "'k kube \<Rightarrow> 'k versioned \<Rightarrow> bool" where
  "separate_laws cl vc \<longleftrightarrow> (\<forall>k ns ns' name sw.
     kube_getConfigMap cl (fst (vc_createSwarm vc k ns' sw)) ns name = kube_getConfigMap cl k ns name
     \<and> kube_getConfigMap cl (fst (vc_updateSwarm vc k ns' sw)) ns name = kube_getConfigMap cl k ns name)"

lemma cm_lawsD:
  "cm_laws cl \<Longrightarrow> kube_getConfigMap cl k ns name = Inr cm \<Longrightarrow> data \<noteq> Some []
    \<Longrightarrow> kube_updateConfigMap cl k ns (cm\<lparr>cm_data := data\<rparr>) = (k', Inr r)
    \<Longrightarrow> \<exists>cm'. kube_getConfigMap cl k' ns name = Inr cm' \<and> cm_data cm' = data"
  unfolding cm_laws_def by blast

lemma swarm_laws_get:
  "swarm_laws vc \<Longrightarrow> vc_getSwarm vc k ns name = Inr sw
    \<Longrightarrow> vc_updateSwarm vc k ns (sw\<lparr>sw_spec := spec\<rparr>) = (k', Inr r)
    \<Longrightarrow> \<exists>sw'. vc_getSwarm vc k' ns name = Inr sw' \<and> sw_spec sw' = spec"
  unfolding swarm_laws_def by blast

lemma swarm_laws_create:
  "swarm_laws vc \<Longrightarrow> vc_createSwarm vc k0 ns s0 = (k, Inr sw) \<Longrightarrow> om_name (sw_objectMeta s0) = name
    \<Longrightarrow> vc_updateSwarm vc k ns (sw\<lparr>sw_spec := spec\<rparr>) = (k', Inr r)
    \<Longrightarrow> \<exists>sw'. vc_getSwarm vc k' ns name = Inr sw' \<and> sw_spec sw' = spec"
  unfolding swarm_laws_def by blast

section \<open>A concrete cluster, for the examples\<close>

text \<open>
  Objects by namespace and name, under which they are answered; a read of a missing object
  and an update of one are status errors.
\<close>

record cluster =
  cl_configMaps :: "(string \<times> string, configMap) gomap"
  cl_swarms :: "(string \<times> string, swarm) gomap"
  cl_deleted :: "(string \<times> string) list"

definition example_kube :: "cluster kube" where
  "example_kube =
     \<lparr>kube_getConfigMap = (\<lambda>k ns name. case map_of (cl_configMaps k) (ns, name) of
         None \<Rightarrow> Inl (StatusError ''NotFound'')
         | Some cm \<Rightarrow> Inr (cm\<lparr>cm_objectMeta := (cm_objectMeta cm)\<lparr>om_name := name\<rparr>\<rparr>)),
      kube_updateConfigMap = (\<lambda>k ns cm.
        let key = (ns, om_name (cm_objectMeta cm)) in
        case map_of (cl_configMaps k) key of
          None \<Rightarrow> (k, Inl (StatusError ''NotFound''))
        | Some _ \<Rightarrow> (k\<lparr>cl_configMaps := AList.update key cm (cl_configMaps k)\<rparr>, Inr cm)),
      kube_deletePod = (\<lambda>k ns name. (k\<lparr>cl_deleted := cl_deleted k @ [(ns, name)]\<rparr>, None))\<rparr>"

definition example_versioned :: "cluster versioned" where
  "example_versioned =
     \<lparr>vc_getSwarm = (\<lambda>k ns name. case map_of (cl_swarms k) (ns, name) of
         None \<Rightarrow> Inl (StatusError ''NotFound'')
         | Some sw \<Rightarrow> Inr (sw\<lparr>sw_objectMeta := (sw_objectMeta sw)\<lparr>om_name := name\<rparr>\<rparr>)),
      vc_createSwarm = (\<lambda>k ns sw.
        (k\<lparr>cl_swarms := AList.update (ns, om_name (sw_objectMeta sw)) sw (cl_swarms k)\<rparr>, Inr sw)),
      vc_updateSwarm = (\<lambda>k ns sw.
        let key = (ns, om_name (sw_objectMeta sw)) in
        case map_of (cl_swarms k) key of
          None \<Rightarrow> (k, Inl (StatusError ''NotFound''))
        | Some _ \<Rightarrow> (k\<lparr>cl_swarms := AList.update key sw (cl_swarms k)\<rparr>, Inr sw))\<rparr>"

lemma example_cm_laws: "cm_laws example_kube"
  unfolding cm_laws_def example_kube_def
  by (auto simp: Let_def map_simps split: option.splits)

lemma example_swarm_laws: "swarm_laws example_versioned"
  unfolding swarm_laws_def example_versioned_def
  by (auto simp: Let_def map_simps split: option.splits)

lemma example_separate_laws: "separate_laws example_kube example_versioned"
  unfolding separate_laws_def example_versioned_def example_kube_def
  by (auto simp: Let_def split: option.splits)

end
