(* ===== verification/Configmap_Provider.thy ===== *)
theory Configmap_Provider
  imports Storage Kube
begin

text \<open>
  \<open>services/controller/internal/infra/k8s/operator/configmap/provider.go\<close>: the assignation
  in the config map the workers mount. The encoder of \<open>yaml.v3\<close>, its decoder into a map, and
  \<open>mapstructure.Decode\<close> are arguments; \<open>codec_ok\<close> says of them that they read back what
  was written.
\<close>

record cm_provider =
  cp_namespace :: string
  cp_configMapName :: string
  cp_deploymentName :: string

definition cm_NewProvider :: "string \<Rightarrow> string \<Rightarrow> string \<Rightarrow> cm_provider" where
  "cm_NewProvider namespace configMapName deploymentName =
     \<lparr>cp_namespace = namespace, cp_configMapName = configMapName, cp_deploymentName = deploymentName\<rparr>"

definition defaultConfigKey :: string where
  "defaultConfigKey = ''config.yml''"

definition cm_Set ::
    "'k kube \<Rightarrow> (workloads \<Rightarrow> goerror + string) \<Rightarrow> cm_provider \<Rightarrow> 'k \<Rightarrow> workloads
     \<Rightarrow> ('k \<times> goerror option) go" where
  "cm_Set client encode p k a =
     (case kube_getConfigMap client k (cp_namespace p) (cp_configMapName p) of
        Inl err \<Rightarrow> Inr (k, Some (Errorf ''unable to get config map '' (Some err)))
      | Inr cm \<Rightarrow>
          (case encode a of
             Inl err \<Rightarrow> Inr (k, Some (Errorf ''unable to Marshall config map, error '' (Some err)))
           | Inr buffer \<Rightarrow>
               (case cm_data cm of
                  None \<Rightarrow> Inl NilMapAssignment
                | Some data \<Rightarrow>
                    let cm1 = cm\<lparr>cm_data := Some (AList.update defaultConfigKey buffer data)\<rparr>;
                        (k', res) = kube_updateConfigMap client k (cp_namespace p) cm1
                    in case res of
                         Inl err \<Rightarrow> Inr (k', Some (Errorf ''unable to update config map '' (Some err)))
                       | Inr _ \<Rightarrow> Inr (k', None))))"

text \<open>The value at the key, the empty string in a nil map and for a missing key.\<close>

definition config_text :: "configMap \<Rightarrow> string" where
  "config_text cm =
     (case cm_data cm of
        None \<Rightarrow> []
      | Some m \<Rightarrow> (case map_of m defaultConfigKey of None \<Rightarrow> [] | Some t \<Rightarrow> t))"

definition cm_decode ::
    "(string \<Rightarrow> goerror + 'y) \<Rightarrow> ('y \<Rightarrow> goerror + workloads) \<Rightarrow> configMap \<Rightarrow> goerror + workloads" where
  "cm_decode unmarshal decode cm =
     (case unmarshal (config_text cm) of
        Inl err \<Rightarrow> Inl (Errorf ''unable to unmarshall, error '' (Some err))
      | Inr data \<Rightarrow>
          (case decode data of
             Inl err \<Rightarrow> Inl (Errorf ''unable to decode, error '' (Some err))
           | Inr c \<Rightarrow> Inr c))"

definition cm_Get ::
    "'k kube \<Rightarrow> (string \<Rightarrow> goerror + 'y) \<Rightarrow> ('y \<Rightarrow> goerror + workloads) \<Rightarrow> cm_provider \<Rightarrow> 'k
     \<Rightarrow> goerror + workloads" where
  "cm_Get client unmarshal decode p k =
     (case kube_getConfigMap client k (cp_namespace p) (cp_configMapName p) of
        Inl err \<Rightarrow> Inl (Errorf ''unable to get config map '' (Some err))
      | Inr cm \<Rightarrow>
          (case cm_decode unmarshal decode cm of
             Inl err \<Rightarrow> Inl (Errorf ''unable to decode workloads from config map '' (Some err))
           | Inr w \<Rightarrow> Inr w))"

section \<open>The config map as a storage\<close>

definition codec_ok ::
    "(workloads \<Rightarrow> goerror + string) \<Rightarrow> (string \<Rightarrow> goerror + 'y) \<Rightarrow> ('y \<Rightarrow> goerror + workloads)
     \<Rightarrow> workloads \<Rightarrow> bool" where
  "codec_ok encode unmarshal decode a \<longleftrightarrow>
     (\<forall>s. encode a = Inr s \<longrightarrow>
        (\<exists>y w. unmarshal s = Inr y \<and> decode y = Inr w \<and> content w = content a))"

definition get_content :: "goerror + workloads \<Rightarrow> ((string \<Rightarrow> job list option) \<times> int) option" where
  "get_content r = (case r of Inl _ \<Rightarrow> None | Inr w \<Rightarrow> Some (content w))"

lemma cm_Set_cases:
  assumes "cm_Set client encode p k a = Inr (k', None)"
  obtains cm buf data r where "kube_getConfigMap client k (cp_namespace p) (cp_configMapName p) = Inr cm"
    "encode a = Inr buf" "cm_data cm = Some data"
    "kube_updateConfigMap client k (cp_namespace p)
       (cm\<lparr>cm_data := Some (AList.update defaultConfigKey buf data)\<rparr>) = (k', Inr r)"
  using assms that by (auto simp: cm_Set_def Let_def split: sum.splits option.splits prod.splits)

lemma cm_Set_read_back:
  assumes "cm_laws client" and "codec_ok encode unmarshal decode a"
    and "cm_Set client encode p k a = Inr (k', None)"
  obtains cm cm' buf data where
    "kube_getConfigMap client k (cp_namespace p) (cp_configMapName p) = Inr cm"
    "kube_getConfigMap client k' (cp_namespace p) (cp_configMapName p) = Inr cm'"
    "encode a = Inr buf" "cm_data cm = Some data"
    "cm_data cm' = Some (AList.update defaultConfigKey buf data)"
    "get_content (cm_Get client unmarshal decode p k') = Some (content a)"
proof -
  obtain cm buf data r where g: "kube_getConfigMap client k (cp_namespace p) (cp_configMapName p) = Inr cm"
    "encode a = Inr buf" "cm_data cm = Some data"
    "kube_updateConfigMap client k (cp_namespace p)
       (cm\<lparr>cm_data := Some (AList.update defaultConfigKey buf data)\<rparr>) = (k', Inr r)"
    using assms(3) by (rule cm_Set_cases)
  obtain cm' where c: "kube_getConfigMap client k' (cp_namespace p) (cp_configMapName p) = Inr cm'"
    "cm_data cm' = Some (AList.update defaultConfigKey buf data)"
    using cm_lawsD [OF assms(1) g(1) _ g(4)] by auto
  obtain y w where "unmarshal buf = Inr y" "decode y = Inr w" "content w = content a"
    using assms(2) g(2) by (auto simp: codec_ok_def)
  then have "get_content (cm_Get client unmarshal decode p k') = Some (content a)"
    by (simp add: cm_Get_def c cm_decode_def config_text_def map_simps get_content_def)
  then show thesis using that g(1-3) c by blast
qed

interpretation cms: chain_member "cm_Set client encode p"
    "\<lambda>k. get_content (cm_Get client unmarshal decode p k)" "\<lambda>k. cm_laws client"
    "codec_ok encode unmarshal decode"
  for client encode p unmarshal decode
proof
  fix d :: 'a and a d'
  assume "cm_laws client" "codec_ok encode unmarshal decode a" "cm_Set client encode p d a = Inr (d', None)"
  then show "get_content (cm_Get client unmarshal decode p d') = Some (content a)"
    by (rule cm_Set_read_back)
qed

section \<open>Properties\<close>

text \<open>
  C20 When \<open>Set\<close> succeeds, \<open>Get\<close> answers with the assignation that was set (every worker's
  jobs and the version), and every other key of the config map keeps its value.
\<close>

theorem config_map_round_trip:
  assumes "cm_laws client" and "codec_ok encode unmarshal decode a"
    and "cm_Set client encode p k a = Inr (k', None)"
  shows "get_content (cm_Get client unmarshal decode p k') = Some (content a)
    \<and> (\<exists>cm cm' m m'. kube_getConfigMap client k (cp_namespace p) (cp_configMapName p) = Inr cm
        \<and> kube_getConfigMap client k' (cp_namespace p) (cp_configMapName p) = Inr cm'
        \<and> cm_data cm = Some m \<and> cm_data cm' = Some m'
        \<and> (\<forall>key. key = defaultConfigKey \<or> map_of m' key = map_of m key))"
  using assms by (rule cm_Set_read_back) (auto simp: map_simps)

definition example_assignation :: workloads where
  "example_assignation =
     \<lparr>ws_workloads = [(''w-0'', Some \<lparr>wl_jobs = [Job ''a'', Job ''b''], wl_version = 0\<rparr>)],
      ws_version = 4\<rparr>"

definition example_cm :: configMap where
  "example_cm = \<lparr>cm_objectMeta = zero_objectMeta\<lparr>om_name := ''cfg''\<rparr>, cm_data = Some [(''other'', ''x'')]\<rparr>"

definition example_cluster :: cluster where
  "example_cluster =
     \<lparr>cl_configMaps = [((''swarm'', ''cfg''), example_cm)], cl_swarms = [], cl_deleted = []\<rparr>"

theorem config_map_round_trip_witness:
  "\<exists>k'. cm_Set example_kube (\<lambda>a. Inr ''text'') (cm_NewProvider ''swarm'' ''cfg'' ''w'') example_cluster
      example_assignation = Inr (k', None)
    \<and> get_content (cm_Get example_kube (\<lambda>s. Inr s) (\<lambda>y. Inr example_assignation)
        (cm_NewProvider ''swarm'' ''cfg'' ''w'') k') = Some (content example_assignation)"
proof -
  let ?p = "cm_NewProvider ''swarm'' ''cfg'' ''w''"
  have "\<exists>k'. cm_Set example_kube (\<lambda>a. Inr ''text'') ?p example_cluster example_assignation = Inr (k', None)"
    by (simp add: cm_Set_def example_kube_def cm_NewProvider_def example_cluster_def example_cm_def
        zero_objectMeta_def Let_def)
  then obtain k' where s: "cm_Set example_kube (\<lambda>a. Inr ''text'') ?p example_cluster example_assignation
      = Inr (k', None)" by blast
  have c: "codec_ok (\<lambda>a. Inr ''text'') (\<lambda>s. Inr s) (\<lambda>y. Inr example_assignation) example_assignation"
    by (simp add: codec_ok_def)
  show ?thesis using config_map_round_trip [OF example_cm_laws c s] s by blast
qed

text \<open>
  \<open>Set\<close> panics exactly when the config map exists without data (a nil map) and the
  assignation could be encoded; in every other case it returns, and when it returns an error
  that comes from the read or the encoding nothing was written.
\<close>

theorem config_map_set_panics_iff:
  "(panics (cm_Set client encode p k a) \<longleftrightarrow>
      (\<exists>cm buf. kube_getConfigMap client k (cp_namespace p) (cp_configMapName p) = Inr cm
        \<and> encode a = Inr buf \<and> cm_data cm = None))
   \<and> (\<exists>cm buf data. kube_getConfigMap client k (cp_namespace p) (cp_configMapName p) = Inr cm
        \<and> encode a = Inr buf \<and> cm_data cm = Some data
        \<and> (\<exists>r. cm_Set client encode p k a = Inr r \<and> fst r = fst (kube_updateConfigMap client k (cp_namespace p)
              (cm\<lparr>cm_data := Some (AList.update defaultConfigKey buf data)\<rparr>)))
      \<or> panics (cm_Set client encode p k a)
      \<or> (\<exists>e. cm_Set client encode p k a = Inr (k, Some e)))"
  by (cases "kube_getConfigMap client k (cp_namespace p) (cp_configMapName p)"; cases "encode a")
    (auto simp: cm_Set_def Let_def split: option.splits prod.splits sum.splits)

end
