(* ===== verification/Swarm_Provider.thy ===== *)
theory Swarm_Provider
  imports Configmap_Provider Assignment
begin

text \<open>
  \<open>services/controller/internal/infra/k8s/operator/crd/provider.go\<close>: the assignation in a
  custom resource \<open>Swarm\<close>. The clock \<open>time.Now().Unix()\<close> of the \<open>i\<close>-th member is the
  argument \<open>now i\<close>; the order in which the map of workloads is visited is \<open>ro\<close>.
\<close>

section \<open>Operations\<close>

record swarm_provider =
  wp_namespace :: string
  wp_swarmName :: string

definition swarm_NewProvider :: "string \<Rightarrow> string \<Rightarrow> swarm_provider" where
  "swarm_NewProvider namespace swarmName = \<lparr>wp_namespace = namespace, wp_swarmName = swarmName\<rparr>"

fun adaptJobsToAlpha_loop :: "alpha_job list \<Rightarrow> job list \<Rightarrow> alpha_job list" where
  "adaptJobsToAlpha_loop res [] = res"
| "adaptJobsToAlpha_loop res (Job j # js) = adaptJobsToAlpha_loop (res @ [AlphaJob j]) js"

definition adaptJobsToAlpha :: "job list \<Rightarrow> alpha_job list" where
  "adaptJobsToAlpha j = adaptJobsToAlpha_loop [] j"

fun adaptJobsFromAlpha_loop :: "job list \<Rightarrow> alpha_job list \<Rightarrow> job list" where
  "adaptJobsFromAlpha_loop res [] = res"
| "adaptJobsFromAlpha_loop res (AlphaJob j # js) = adaptJobsFromAlpha_loop (res @ [Job j]) js"

definition adaptJobsFromAlpha :: "alpha_job list \<Rightarrow> job list" where
  "adaptJobsFromAlpha j = adaptJobsFromAlpha_loop [] j"

text \<open>The members that \<open>Set\<close> appends, from the \<open>i\<close>-th on; a nil workload panics.\<close>

fun members_loop ::
    "(nat \<Rightarrow> int) \<Rightarrow> nat \<Rightarrow> alpha_member list \<Rightarrow> (string \<times> workload option) list
     \<Rightarrow> alpha_member list go" where
  "members_loop now i members [] = Inr members"
| "members_loop now i members ((n, None) # rest) = Inl NilDereference"
| "members_loop now i members ((n, Some s) # rest) =
     members_loop now (i + 1)
       (members @ [\<lparr>mb_typeMeta = zero_typeMeta, mb_objectMeta = zero_objectMeta, mb_name = n,
          mb_jobs = adaptJobsToAlpha (wl_jobs s), mb_state = \<lparr>ms_phase = PhaseRunning\<rparr>,
          mb_createdAt = now i\<rparr>]) rest"

definition initializeCRD ::
    "'k versioned \<Rightarrow> swarm_provider \<Rightarrow> 'k \<Rightarrow> 'k \<times> (goerror + swarm)" where
  "initializeCRD client p k =
     vc_createSwarm client k (wp_namespace p)
       \<lparr>sw_typeMeta = \<lparr>tm_kind = ''Swarm'', tm_apiVersion = ''v1alpha1''\<rparr>,
        sw_objectMeta = zero_objectMeta\<lparr>om_name := wp_swarmName p, om_namespace := wp_namespace p\<rparr>,
        sw_spec = \<lparr>sp_version = 0, sp_expectedSize = 0, sp_size = 0, sp_members = []\<rparr>,
        sw_status = \<lparr>ss_phase = []\<rparr>\<rparr>"

text \<open>The part of \<open>Set\<close> from the object on, and \<open>Set\<close>.\<close>

definition swarm_write ::
    "'k versioned \<Rightarrow> (nat \<Rightarrow> int) \<Rightarrow> string range_order \<Rightarrow> swarm_provider \<Rightarrow> 'k \<Rightarrow> workloads
     \<Rightarrow> swarm \<Rightarrow> ('k \<times> goerror option) go" where
  "swarm_write client now ro p k a sw =
     go_bind (members_loop now 0 [] (mrange ro (ws_workloads a))) (\<lambda>members.
       let spec = (sw_spec sw)\<lparr>sp_version := ws_version a, sp_size := int (length (ws_workloads a)),
             sp_members := members\<rparr>;
           (k', res) = vc_updateSwarm client k (wp_namespace p) (sw\<lparr>sw_spec := spec\<rparr>)
       in case res of
            Inl err \<Rightarrow> Inr (k', Some (Errorf ''unable to update config map '' (Some err)))
          | Inr _ \<Rightarrow> Inr (k', None))"

definition swarm_Set ::
    "'k versioned \<Rightarrow> (nat \<Rightarrow> int) \<Rightarrow> string range_order \<Rightarrow> swarm_provider \<Rightarrow> 'k \<Rightarrow> workloads
     \<Rightarrow> ('k \<times> goerror option) go" where
  "swarm_Set client now ro p k a =
     (case vc_getSwarm client k (wp_namespace p) (wp_swarmName p) of
        Inr sw \<Rightarrow> swarm_write client now ro p k a sw
      | Inl (StatusError reason) \<Rightarrow>
          (let (k1, res) = initializeCRD client p k
           in case res of
                Inl err \<Rightarrow> Inr (k1, Some (Errorf ''unable to initialize CRD, error '' (Some err)))
              | Inr sw \<Rightarrow> swarm_write client now ro p k1 a sw)
      | Inl err \<Rightarrow> Inr (k, Some (Errorf ''unable to get swarm map '' (Some err))))"

fun swarm_decode_loop ::
    "(string, workload option) gomap \<Rightarrow> alpha_member list \<Rightarrow> (string, workload option) gomap" where
  "swarm_decode_loop c [] = c"
| "swarm_decode_loop c (member # ms) =
     swarm_decode_loop
       (AList.update (mb_name member)
          (Some \<lparr>wl_jobs = adaptJobsFromAlpha (mb_jobs member), wl_version = 0\<rparr>) c) ms"

definition swarm_decode :: "swarmSpec \<Rightarrow> goerror + workloads" where
  "swarm_decode sw =
     Inr \<lparr>ws_workloads = swarm_decode_loop [] (sp_members sw), ws_version = sp_version sw\<rparr>"

definition swarm_Get :: "'k versioned \<Rightarrow> swarm_provider \<Rightarrow> 'k \<Rightarrow> goerror + workloads" where
  "swarm_Get client p k =
     (case vc_getSwarm client k (wp_namespace p) (wp_swarmName p) of
        Inl err \<Rightarrow> Inl (Errorf ''unable to get config map '' (Some err))
      | Inr sw \<Rightarrow>
          (case swarm_decode (sw_spec sw) of
             Inl err \<Rightarrow> Inl (Errorf ''unable to decode workloads from config map '' (Some err))
           | Inr w \<Rightarrow> Inr w))"

section \<open>What is written is read back\<close>

lemma adaptJobsToAlpha_eq: "adaptJobsToAlpha js = map (\<lambda>j. AlphaJob (job_string j)) js"
proof -
  have "adaptJobsToAlpha_loop res js = res @ map (\<lambda>j. AlphaJob (job_string j)) js" for res
    by (induction res js rule: adaptJobsToAlpha_loop.induct) simp_all
  then show ?thesis by (simp add: adaptJobsToAlpha_def)
qed

lemma adapt_inverse: "adaptJobsFromAlpha (adaptJobsToAlpha js) = js"
proof -
  have "adaptJobsFromAlpha_loop res (map (\<lambda>j. AlphaJob (job_string j)) js) = res @ js" for res
    by (induction js arbitrary: res) simp_all
  then show ?thesis by (simp add: adaptJobsFromAlpha_def adaptJobsToAlpha_eq)
qed

definition erase_version :: "workload option \<Rightarrow> workload option" where
  "erase_version w = map_option (\<lambda>v. \<lparr>wl_jobs = wl_jobs v, wl_version = 0\<rparr>) w"

lemma members_loop_ok:
  assumes "members_loop now i acc es = Inr ms"
  shows "no_nil es \<and> (\<exists>new. ms = acc @ new \<and> map mb_name new = map fst es
    \<and> list_all (\<lambda>m. ms_phase (mb_state m) = PhaseRunning) new
    \<and> (\<forall>c. swarm_decode_loop c new = foldl (\<lambda>m (n, w). AList.update n (erase_version w) m) c es))"
  using assms
proof (induction now i acc es rule: members_loop.induct)
  case (3 now i acc n s rest)
  let ?m = "\<lparr>mb_typeMeta = zero_typeMeta, mb_objectMeta = zero_objectMeta, mb_name = n,
          mb_jobs = adaptJobsToAlpha (wl_jobs s), mb_state = \<lparr>ms_phase = PhaseRunning\<rparr>,
          mb_createdAt = now i\<rparr>"
  from 3 obtain new where "ms = acc @ ?m # new" "map mb_name new = map fst rest" "no_nil rest"
    "list_all (\<lambda>m. ms_phase (mb_state m) = PhaseRunning) new"
    "\<And>c. swarm_decode_loop c new = foldl (\<lambda>m (n, w). AList.update n (erase_version w) m) c rest"
    by auto
  then show ?case
    by (intro conjI exI [of _ "?m # new"])
      (simp_all add: no_nil_def adapt_inverse erase_version_def)
qed (simp_all add: no_nil_def)

lemma foldl_update_lookup:
  assumes "mwf es"
  shows "map_of (foldl (\<lambda>m (n, w). AList.update n (f w) m) c es) k =
    (case map_of es k of None \<Rightarrow> map_of c k | Some w \<Rightarrow> Some (f w))"
  using assms
proof (induction es arbitrary: c)
  case (Cons e es)
  obtain n w where e: "e = (n, w)" by (cases e)
  then have "n \<notin> mkeys es" "mwf es" using Cons.prems by (simp_all add: mwf_def)
  then show ?case
    using Cons.IH [of "AList.update n (f w) c"] e
    by (auto simp: map_simps mkeys_None [symmetric] split: option.splits)
qed simp

lemma mwf_foldl_update: "mwf c \<Longrightarrow> mwf (foldl (\<lambda>m (n, w). AList.update n (f w) m) c es)"
  by (induction es arbitrary: c) auto

lemma swarm_write_cases:
  assumes "swarm_write client now ro p k a sw = Inr (k', e)"
  obtains members res where "members_loop now 0 [] (mrange ro (ws_workloads a)) = Inr members"
    "vc_updateSwarm client k (wp_namespace p) (sw\<lparr>sw_spec := (sw_spec sw)\<lparr>sp_version := ws_version a,
       sp_size := int (length (ws_workloads a)), sp_members := members\<rparr>\<rparr>) = (k', res)"
    "e = None \<longleftrightarrow> (\<exists>r. res = Inr r)"
proof -
  obtain members where m: "members_loop now 0 [] (mrange ro (ws_workloads a)) = Inr members"
    using assms by (auto simp: swarm_write_def go_bind_Inr_iff)
  let ?sw = "sw\<lparr>sw_spec := (sw_spec sw)\<lparr>sp_version := ws_version a,
       sp_size := int (length (ws_workloads a)), sp_members := members\<rparr>\<rparr>"
  obtain k2 res where u: "vc_updateSwarm client k (wp_namespace p) ?sw = (k2, res)" by (metis surj_pair)
  show thesis
    using assms that [OF m] u by (cases res) (auto simp: swarm_write_def m)
qed

lemma swarm_Set_written:
  assumes "swarm_laws client" and "swarm_Set client now ro p k a = Inr (k', None)"
  obtains k1 sw sw' members where
    "vc_getSwarm client k (wp_namespace p) (wp_swarmName p) = Inr sw \<and> k1 = k
     \<or> initializeCRD client p k = (k1, Inr sw)"
    "members_loop now 0 [] (mrange ro (ws_workloads a)) = Inr members"
    "vc_getSwarm client k' (wp_namespace p) (wp_swarmName p) = Inr sw'"
    "sw_spec sw' = (sw_spec sw)\<lparr>sp_version := ws_version a, sp_size := int (length (ws_workloads a)),
       sp_members := members\<rparr>"
proof -
  obtain k1 sw where g: "vc_getSwarm client k (wp_namespace p) (wp_swarmName p) = Inr sw \<and> k1 = k
      \<or> initializeCRD client p k = (k1, Inr sw)"
    and w: "swarm_write client now ro p k1 a sw = Inr (k', None)"
    using assms(2) by (auto simp: swarm_Set_def Let_def split: sum.splits goerror.splits prod.splits)
  obtain members r where m: "members_loop now 0 [] (mrange ro (ws_workloads a)) = Inr members"
    and r: "vc_updateSwarm client k1 (wp_namespace p) (sw\<lparr>sw_spec := (sw_spec sw)\<lparr>sp_version := ws_version a,
       sp_size := int (length (ws_workloads a)), sp_members := members\<rparr>\<rparr>) = (k', Inr r)"
    using w by (auto elim: swarm_write_cases)
  have "\<exists>sw'. vc_getSwarm client k' (wp_namespace p) (wp_swarmName p) = Inr sw'
    \<and> sw_spec sw' = (sw_spec sw)\<lparr>sp_version := ws_version a, sp_size := int (length (ws_workloads a)),
       sp_members := members\<rparr>"
    using g
  proof
    assume "initializeCRD client p k = (k1, Inr sw)"
    then show ?thesis
      unfolding initializeCRD_def by (rule swarm_laws_create [OF assms(1) _ _ r]) simp
  qed (use swarm_laws_get [OF assms(1) _ r] in blast)
  then show thesis using that g m by blast
qed

lemma swarm_Set_read_back:
  assumes "swarm_laws client" and "range_order ro" and "mwf (ws_workloads a)"
    and "swarm_Set client now ro p k a = Inr (k', None)"
  obtains w where "swarm_Get client p k' = Inr w" "ws_version w = ws_version a" "mwf (ws_workloads w)"
    "\<forall>n. map_of (ws_workloads w) n = map_option erase_version (map_of (ws_workloads a) n)"
proof -
  obtain k1 sw sw' members where
    "vc_getSwarm client k (wp_namespace p) (wp_swarmName p) = Inr sw \<and> k1 = k
     \<or> initializeCRD client p k = (k1, Inr sw)"
    and m: "members_loop now 0 [] (mrange ro (ws_workloads a)) = Inr members"
    and g: "vc_getSwarm client k' (wp_namespace p) (wp_swarmName p) = Inr sw'"
    "sw_spec sw' = (sw_spec sw)\<lparr>sp_version := ws_version a, sp_size := int (length (ws_workloads a)),
       sp_members := members\<rparr>"
    using assms(1,4) by (rule swarm_Set_written)
  let ?es = "mrange ro (ws_workloads a)"
  let ?w = "\<lparr>ws_workloads = foldl (\<lambda>m (n, w). AList.update n (erase_version w) m) [] ?es,
    ws_version = ws_version a\<rparr>"
  have "swarm_decode_loop [] members = ws_workloads ?w"
    using members_loop_ok [OF m] by simp
  then have "swarm_Get client p k' = Inr ?w"
    by (simp add: swarm_Get_def swarm_decode_def g)
  moreover have "map_of (ws_workloads ?w) n = map_option erase_version (map_of (ws_workloads a) n)" for n
    using foldl_update_lookup [OF mwf_mrange [OF assms(3,2)], of erase_version "[]" n]
      map_of_mrange [OF assms(3,2)] by (simp split: option.split)
  moreover have "mwf (ws_workloads ?w)" by (simp only: workloads.select_convs mwf_foldl_update mwf_Nil)
  ultimately show thesis using that [of ?w] by simp
qed

lemma jobs_at_erased:
  assumes "\<And>n. map_of m n = map_option erase_version (map_of m0 n)"
  shows "jobs_at m = jobs_at m0"
  by (rule ext) (simp add: jobs_at_def assms erase_version_def split: option.split)

interpretation sws: chain_member "swarm_Set client now ro p"
    "\<lambda>k. get_content (swarm_Get client p k)" "\<lambda>k. swarm_laws client \<and> range_order ro"
    "\<lambda>a. mwf (ws_workloads a)"
  for client now ro p
proof
  fix d :: 'a and a d'
  assume l: "swarm_laws client \<and> range_order ro" "mwf (ws_workloads a)"
    and s: "swarm_Set client now ro p d a = Inr (d', None)"
  obtain w where "swarm_Get client p d' = Inr w" "ws_version w = ws_version a" "mwf (ws_workloads w)"
    "\<forall>n. map_of (ws_workloads w) n = map_option erase_version (map_of (ws_workloads a) n)"
    by (rule swarm_Set_read_back [OF conjunct1 [OF l(1)] conjunct2 [OF l(1)] l(2) s])
  then show "get_content (swarm_Get client p d') = Some (content a)"
    by (simp add: get_content_def content_def jobs_at_erased)
qed

section \<open>Properties\<close>

text \<open>
  C21 When \<open>Set\<close> succeeds, whether the swarm existed or was created, \<open>Get\<close> answers with the
  same version and the same workers with the same jobs in the same order, whatever order the
  map was visited in; only the version field of the single workloads comes back as zero. For
  the assignations that \<open>BalanceWorkload\<close> computes, whose fields are zero, it is the same map.
\<close>

theorem swarm_round_trip:
  assumes "swarm_laws client" and "range_order ro" and "mwf (ws_workloads a)"
    and "swarm_Set client now ro p k a = Inr (k', None)"
  shows "\<exists>w. swarm_Get client p k' = Inr w \<and> ws_version w = ws_version a
    \<and> (\<forall>n. map_of (ws_workloads w) n = map_option erase_version (map_of (ws_workloads a) n))
    \<and> (if map_of (ws_workloads a) = assignation setName js m
       then map_of (ws_workloads w) = assignation setName js m else True)"
proof -
  obtain w where w: "swarm_Get client p k' = Inr w" "ws_version w = ws_version a" "mwf (ws_workloads w)"
    "\<forall>n. map_of (ws_workloads w) n = map_option erase_version (map_of (ws_workloads a) n)"
    using assms by (rule swarm_Set_read_back)
  have "map_option erase_version (assignation setName js m n) = assignation setName js m n" for n
    by (cases "n \<in> worker_name setName ` {0..<m}")
      (auto simp: assignation_at assignation_other erase_version_def)
  then show ?thesis using w by (auto simp: fun_eq_iff)
qed

theorem swarm_round_trip_witness:
  "\<exists>k' w. swarm_Set example_versioned int rev (swarm_NewProvider ''swarm'' ''w'') example_cluster
      example_assignation = Inr (k', None)
    \<and> swarm_Get example_versioned (swarm_NewProvider ''swarm'' ''w'') k' = Inr w
    \<and> map_of (ws_workloads w) ''w-0'' = Some (Some \<lparr>wl_jobs = [Job ''a'', Job ''b''], wl_version = 0\<rparr>)"
proof -
  let ?p = "swarm_NewProvider ''swarm'' ''w''"
  have "\<exists>k'. swarm_Set example_versioned int rev ?p example_cluster example_assignation = Inr (k', None)"
    by (simp add: swarm_Set_def swarm_write_def example_versioned_def swarm_NewProvider_def
        example_cluster_def initializeCRD_def zero_objectMeta_def example_assignation_def mrange_def)
  then obtain k' where s: "swarm_Set example_versioned int rev ?p example_cluster example_assignation
      = Inr (k', None)" by blast
  have wf: "mwf (ws_workloads example_assignation)" by (simp add: example_assignation_def mwf_def)
  have "map_option erase_version (map_of (ws_workloads example_assignation) ''w-0'') =
      Some (Some \<lparr>wl_jobs = [Job ''a'', Job ''b''], wl_version = 0\<rparr>)"
    by (simp add: example_assignation_def erase_version_def)
  then show ?thesis
    using swarm_round_trip [OF example_swarm_laws range_order_rev wf s] s by metis
qed

text \<open>
  The object that \<open>Set\<close> stores: its version is the assignation's, its size the number of
  workers, it has exactly one member per worker, all in phase RUNNING; the expected size is not
  written and stays the one of the object that was read, or zero for a created one.
\<close>

theorem swarm_stored_object:
  assumes "swarm_laws client" and "range_order ro" and "mwf (ws_workloads a)"
    and "swarm_Set client now ro p k a = Inr (k', None)"
    and "vc_getSwarm client k (wp_namespace p) (wp_swarmName p) = Inr sw"
  shows "\<exists>sw'. vc_getSwarm client k' (wp_namespace p) (wp_swarmName p) = Inr sw'
    \<and> sp_version (sw_spec sw') = ws_version a
    \<and> sp_size (sw_spec sw') = int (card (mkeys (ws_workloads a)))
    \<and> distinct (map mb_name (sp_members (sw_spec sw')))
    \<and> mb_name ` set (sp_members (sw_spec sw')) = mkeys (ws_workloads a)
    \<and> list_all (\<lambda>m. ms_phase (mb_state m) = PhaseRunning) (sp_members (sw_spec sw'))
    \<and> sp_expectedSize (sw_spec sw') = sp_expectedSize (sw_spec sw)"
proof -
  have c: "swarm_write client now ro p k a sw = Inr (k', None)"
    using assms(4,5) by (simp add: swarm_Set_def)
  obtain members r where m: "members_loop now 0 [] (mrange ro (ws_workloads a)) = Inr members"
    and r: "vc_updateSwarm client k (wp_namespace p) (sw\<lparr>sw_spec := (sw_spec sw)\<lparr>sp_version := ws_version a,
       sp_size := int (length (ws_workloads a)), sp_members := members\<rparr>\<rparr>) = (k', Inr r)"
    using c by (auto elim: swarm_write_cases)
  let ?spec = "(sw_spec sw)\<lparr>sp_version := ws_version a,
       sp_size := int (length (ws_workloads a)), sp_members := members\<rparr>"
  from swarm_laws_get [OF assms(1,5) r] obtain sw' where
    s: "vc_getSwarm client k' (wp_namespace p) (wp_swarmName p) = Inr sw'" "sw_spec sw' = ?spec" by blast
  have n: "map mb_name members = ro (map fst (ws_workloads a))"
    using members_loop_ok [OF m] by (auto simp: mrange_keys)
  have "distinct (map mb_name members)"
    using assms(2,3) by (simp only: n range_order_distinct mwf_def)
  moreover have "mb_name ` set members = mkeys (ws_workloads a)"
    using arg_cong [OF n, of set] assms(2) by (simp add: range_order_set)
  moreover have "list_all (\<lambda>m. ms_phase (mb_state m) = PhaseRunning) members"
    using members_loop_ok [OF m] by auto
  ultimately show ?thesis using s mwf_length [OF assms(3)] by simp
qed

theorem swarm_stored_object_witness:
  "\<exists>k k' sw'. swarm_Set example_versioned int rev (swarm_NewProvider ''swarm'' ''w'') k
      example_assignation = Inr (k', None)
    \<and> vc_getSwarm example_versioned k' ''swarm'' ''w'' = Inr sw' \<and> sp_size (sw_spec sw') = 1"
proof -
  let ?p = "swarm_NewProvider ''swarm'' ''w''"
  obtain k sw where k: "initializeCRD example_versioned ?p example_cluster = (k, Inr sw)"
    by (simp add: initializeCRD_def example_versioned_def)
  have g: "\<exists>sw. vc_getSwarm example_versioned k (wp_namespace ?p) (wp_swarmName ?p) = Inr sw"
    using k by (auto simp: initializeCRD_def example_versioned_def map_simps swarm_NewProvider_def)
  have "\<exists>k'. swarm_Set example_versioned int rev ?p k example_assignation = Inr (k', None)"
    using k by (auto simp: swarm_Set_def swarm_write_def example_versioned_def swarm_NewProvider_def
        initializeCRD_def zero_objectMeta_def example_assignation_def mrange_def map_simps)
  then obtain k' where s: "swarm_Set example_versioned int rev ?p k example_assignation = Inr (k', None)"
    by blast
  have wf: "mwf (ws_workloads example_assignation)" by (simp add: example_assignation_def mwf_def)
  have "card (mkeys (ws_workloads example_assignation)) = 1" by (simp add: example_assignation_def)
  moreover obtain sw0 where "vc_getSwarm example_versioned k (wp_namespace ?p) (wp_swarmName ?p) = Inr sw0"
    using g by blast
  ultimately obtain sw' where "vc_getSwarm example_versioned k' (wp_namespace ?p) (wp_swarmName ?p) = Inr sw'"
    "sp_size (sw_spec sw') = 1"
    using swarm_stored_object [OF example_swarm_laws range_order_rev wf s] by auto
  then show ?thesis using s by (intro exI conjI) (simp_all add: swarm_NewProvider_def)
qed

lemma swarm_set_panics:
  assumes "range_order ro" and "mwf (ws_workloads a)"
  shows "panics (swarm_Set client now ro p k a) \<longleftrightarrow>
      \<not> no_nil (ws_workloads a) \<and> (\<exists>k1 sw. vc_getSwarm client k (wp_namespace p) (wp_swarmName p) = Inr sw
        \<or> (\<exists>reason. vc_getSwarm client k (wp_namespace p) (wp_swarmName p) = Inl (StatusError reason)
              \<and> initializeCRD client p k = (k1, Inr sw)))"
proof -
  have "no_nil (mrange ro (ws_workloads a)) = no_nil (ws_workloads a)"
    using set_mrange [OF assms(2,1)] by (simp add: no_nil_def list_all_iff)
  moreover have "panics (members_loop now i acc es) \<longleftrightarrow> \<not> no_nil es" for i acc es
    by (induction now i acc es rule: members_loop.induct) (simp_all add: no_nil_def)
  moreover have "panics (go_bind m f) \<longleftrightarrow> panics m" if "\<And>x. \<not> panics (f x)"
    for m :: "alpha_member list go" and f :: "alpha_member list \<Rightarrow> ('a \<times> goerror option) go"
    using that by (cases m) simp_all
  ultimately have w: "panics (swarm_write client now ro p k2 a sw) \<longleftrightarrow> \<not> no_nil (ws_workloads a)" for k2 sw
    by (simp add: swarm_write_def Let_def split: prod.split sum.split)
  show ?thesis
    using w by (auto simp: swarm_Set_def Let_def split: sum.splits goerror.splits prod.splits)
qed

text \<open>
  C38 \<open>Set\<close> panics exactly when it got hold of an object, read or created, and some worker's
  workload is nil; a status error of the read, whatever its reason, never reaches the caller
  as such: it is followed by a creation.
\<close>

theorem swarm_set_panics_iff:
  assumes "range_order ro" and "mwf (ws_workloads a)"
  shows "(panics (swarm_Set client now ro p k a) \<longleftrightarrow>
      \<not> no_nil (ws_workloads a) \<and> (\<exists>k1 sw. vc_getSwarm client k (wp_namespace p) (wp_swarmName p) = Inr sw
        \<or> (\<exists>reason. vc_getSwarm client k (wp_namespace p) (wp_swarmName p) = Inl (StatusError reason)
              \<and> initializeCRD client p k = (k1, Inr sw))))
    \<and> swarm_Set client now ro p k a \<noteq> Inr (k', Some (Errorf ''unable to get swarm map '' (Some (StatusError reason))))"
proof -
  have e: "swarm_write client now ro p k2 a sw
      \<noteq> Inr (k', Some (Errorf ''unable to get swarm map '' (Some (StatusError reason))))" for k2 sw
    by (auto simp: swarm_write_def go_bind_Inr_iff Let_def split: prod.split sum.split)
  have "swarm_Set client now ro p k a \<noteq> Inr (k', Some (Errorf ''unable to get swarm map '' (Some (StatusError reason))))"
    using e by (auto simp: swarm_Set_def Let_def split: sum.splits goerror.splits prod.splits)
  then show ?thesis using swarm_set_panics [where client = client and k = k, OF assms] by blast
qed

theorem swarm_set_panics_iff_witness:
  "panics (swarm_Set example_versioned int rev (swarm_NewProvider ''swarm'' ''w'') example_cluster
     \<lparr>ws_workloads = [(''w-0'', None)], ws_version = 1\<rparr>)"
proof -
  have wf: "mwf (ws_workloads \<lparr>ws_workloads = [(''w-0'', None)], ws_version = 1\<rparr>)" by (simp add: mwf_def)
  show ?thesis
    by (simp only: swarm_set_panics_iff [OF range_order_rev wf, THEN conjunct1])
      (simp add: no_nil_def initializeCRD_def example_versioned_def example_cluster_def)
qed

end
