(* ===== verification/Executor.thy ===== *)
theory Executor
  imports Pool_Runtime Swarm_Provider
begin

text \<open>
  What the pool calls through its interface \<open>delegated\<close>:
  \<open>services/controller/internal/app/swarm/executor.go\<close> over the two storages, over
  \<open>RefreshPod\<close> of \<open>operator/pod/provider.go\<close>, which deletes the pod so that its stateful
  set creates it again, and over the HTTP client of \<open>infra/transport/http/version.go\<close>. The
  HTTP library, the rendering of an IP and of a URL, and the JSON decoder are arguments.
\<close>

section \<open>operator/pod/provider.go\<close>

record pod_provider =
  pp_namespace :: string

definition pod_NewProvider :: "string \<Rightarrow> pod_provider" where
  "pod_NewProvider namespace = \<lparr>pp_namespace = namespace\<rparr>"

definition RefreshPod :: "'k kube \<Rightarrow> pod_provider \<Rightarrow> 'k \<Rightarrow> string \<Rightarrow> ('k \<times> goerror option) go" where
  "RefreshPod client p k name =
     (let (k', err) = kube_deletePod client k (pp_namespace p) name
      in case err of
           Some e \<Rightarrow> Inr (k', Some (Errorf (''unable to delete pod '' @ name @ '' error '') (Some e)))
         | None \<Rightarrow> Inr (k', None))"

section \<open>infra/transport/http/version.go\<close>

record url =
  url_scheme :: string
  url_host :: string
  url_path :: string

record version_provider =
  vp_remotePort :: string

definition NewVersionProvider :: "string \<Rightarrow> version_provider" where
  "NewVersionProvider port = \<lparr>vp_remotePort = port\<rparr>"

definition remote_url :: "string \<Rightarrow> string \<Rightarrow> url" where
  "remote_url ip_text remotePort =
     \<lparr>url_scheme = ''http'', url_host = ip_text @ '':'' @ remotePort, url_path = ''/internal/version''\<rparr>"

definition VersionProvider_Assignation ::
    "(url \<Rightarrow> string) \<Rightarrow> (string \<Rightarrow> goerror + 'rq) \<Rightarrow> ('rq \<Rightarrow> goerror + int \<times> 'b) \<Rightarrow> ('b \<Rightarrow> goerror + workload)
     \<Rightarrow> ('ip \<Rightarrow> string) \<Rightarrow> string \<Rightarrow> 'ip \<Rightarrow> goerror + workload option" where
  "VersionProvider_Assignation url_text new_request do_request decode show_ip remotePort IP =
     (case new_request (url_text (remote_url (show_ip IP) remotePort)) of
        Inl err \<Rightarrow> Inl err
      | Inr req \<Rightarrow>
          (case do_request req of
             Inl err \<Rightarrow> Inl err
           | Inr (status, body) \<Rightarrow>
               if status \<noteq> 200
               then Inl (Errorf (''unexpected exchange response status code '' @ show_int status) None)
               else (case decode body of Inl err \<Rightarrow> Inl err | Inr wk \<Rightarrow> Inr (Some wk))))"

section \<open>executor.go\<close>

text \<open>
  The executor holds the one method that it calls of each of its interfaces; its methods take the
  fields that they use.
\<close>

record ('d, 'ip) executor =
  ex_storage :: "'d \<Rightarrow> workloads \<Rightarrow> ('d \<times> goerror option) go"
  ex_remotes :: "'ip \<Rightarrow> goerror + workload option"
  ex_manager :: "'d \<Rightarrow> string \<Rightarrow> ('d \<times> goerror option) go"

definition NewExecutor ::
    "('d \<Rightarrow> workloads \<Rightarrow> ('d \<times> goerror option) go) \<Rightarrow> ('ip \<Rightarrow> goerror + workload option)
     \<Rightarrow> ('d \<Rightarrow> string \<Rightarrow> ('d \<times> goerror option) go) \<Rightarrow> ('d, 'ip) executor" where
  "NewExecutor s p m = \<lparr>ex_storage = s, ex_remotes = p, ex_manager = m\<rparr>"

definition executor_Assign ::
    "('d \<Rightarrow> workloads \<Rightarrow> ('d \<times> goerror option) go) \<Rightarrow> 'd \<Rightarrow> workloads \<Rightarrow> ('d \<times> goerror option) go" where
  "executor_Assign storage_Set d w = storage_Set d w"

definition executor_Assignation ::
    "('ip \<Rightarrow> goerror + workload option) \<Rightarrow> 'ip worker \<Rightarrow> (goerror + workload option) go" where
  "executor_Assignation remotes w =
     (case remotes (w_IP w) of
        Inl err \<Rightarrow> Inr (Inl (Errorf (''unable to get remote assignation on '' @ w_name w @ '' error '') (Some err)))
      | Inr None \<Rightarrow> Inl NilDereference
      | Inr (Some res) \<Rightarrow> Inr (Inr (Some res)))"

definition executor_RestartWorker ::
    "('d \<Rightarrow> string \<Rightarrow> ('d \<times> goerror option) go) \<Rightarrow> 'd \<Rightarrow> string \<Rightarrow> ('d \<times> goerror option) go" where
  "executor_RestartWorker manager_RefreshPod d name = manager_RefreshPod d name"

section \<open>The controller's wiring\<close>

text \<open>
  As \<open>cmd/internal.go\<close> and \<open>cmd/external.go\<close> put it together: the config map first, then
  the swarm.
\<close>

record 'k wiring =
  wi_kube :: "'k kube"
  wi_versioned :: "'k versioned"
  wi_encode :: "workloads \<Rightarrow> goerror + string"
  wi_now :: "nat \<Rightarrow> int"
  wi_order :: "string range_order"
  wi_cm :: cm_provider
  wi_swarm :: swarm_provider
  wi_pod :: pod_provider

definition controller_assign :: "'k wiring \<Rightarrow> 'k \<Rightarrow> workloads \<Rightarrow> ('k \<times> goerror option) go" where
  "controller_assign c =
     executor_Assign
       (ProviderMiddleware_Set
         (cm_Set (wi_kube c) (wi_encode c) (wi_cm c))
         (swarm_Set (wi_versioned c) (wi_now c) (wi_order c) (wi_swarm c)))"

definition controller_restart :: "'k wiring \<Rightarrow> 'k \<Rightarrow> string \<Rightarrow> ('k \<times> goerror option) go" where
  "controller_restart c = executor_RestartWorker (RefreshPod (wi_kube c) (wi_pod c))"

definition wiring_ok :: "'k wiring \<Rightarrow> bool" where
  "wiring_ok c \<longleftrightarrow> cm_laws (wi_kube c) \<and> swarm_laws (wi_versioned c)
     \<and> separate_laws (wi_kube c) (wi_versioned c) \<and> range_order (wi_order c)"

definition config_shown ::
    "'k wiring \<Rightarrow> (string \<Rightarrow> goerror + 'y) \<Rightarrow> ('y \<Rightarrow> goerror + workloads) \<Rightarrow> 'k
     \<Rightarrow> ((string \<Rightarrow> job list option) \<times> int) option" where
  "config_shown c unmarshal decode k =
     get_content (cm_Get (wi_kube c) unmarshal decode (wi_cm c) k)"

definition swarm_shown :: "'k wiring \<Rightarrow> 'k \<Rightarrow> ((string \<Rightarrow> job list option) \<times> int) option" where
  "swarm_shown c k = get_content (swarm_Get (wi_versioned c) (wi_swarm c) k)"

lemma swarm_Set_frame:
  assumes "separate_laws cl vc" and "swarm_Set vc now ro p k a = Inr (k', e)"
  shows "kube_getConfigMap cl k' ns name = kube_getConfigMap cl k ns name"
proof -
  have w: "kube_getConfigMap cl k2 ns name = kube_getConfigMap cl k1 ns name"
    if wr: "swarm_write vc now ro p k1 a sw = Inr (k2, e)" for k1 k2 sw
  proof -
    obtain sw' res where "vc_updateSwarm vc k1 (wp_namespace p) sw' = (k2, res)"
      using wr by (rule swarm_write_cases)
    then have "k2 = fst (vc_updateSwarm vc k1 (wp_namespace p) sw')" by simp
    then show ?thesis using assms(1) by (simp add: separate_laws_def)
  qed
  have c: "kube_getConfigMap cl k1 ns name = kube_getConfigMap cl k ns name"
    if "initializeCRD vc p k = (k1, r)" for k1 r
    using that assms(1) unfolding initializeCRD_def separate_laws_def by (metis fst_conv)
  show ?thesis
    using assms(2) w c
    by (auto simp: swarm_Set_def Let_def split: sum.splits goerror.splits prod.splits)
qed

interpretation sto: chain "cm_Set (wi_kube c) (wi_encode c) (wi_cm c)" "config_shown c unmarshal decode"
    "swarm_Set (wi_versioned c) (wi_now c) (wi_order c) (wi_swarm c)" "swarm_shown c"
    "\<lambda>k. wiring_ok c" "\<lambda>a. codec_ok (wi_encode c) unmarshal decode a \<and> mwf (ws_workloads a)"
  for c unmarshal decode
proof
  fix d :: 'a and a d'
  assume ok: "wiring_ok c" "codec_ok (wi_encode c) unmarshal decode a \<and> mwf (ws_workloads a)"
  show "config_shown c unmarshal decode d' = Some (content a)"
    if "cm_Set (wi_kube c) (wi_encode c) (wi_cm c) d a = Inr (d', None)"
    unfolding config_shown_def
    by (rule cms.put_shown [OF _ _ that]) (use ok in \<open>simp_all add: wiring_ok_def\<close>)
  show "swarm_shown c d' = Some (content a)"
    if "swarm_Set (wi_versioned c) (wi_now c) (wi_order c) (wi_swarm c) d a = Inr (d', None)"
    unfolding swarm_shown_def
    by (rule sws.put_shown [OF _ _ that]) (use ok in \<open>simp_all add: wiring_ok_def\<close>)
next
  fix d :: 'a and a d' e
  assume "wiring_ok c" "swarm_Set (wi_versioned c) (wi_now c) (wi_order c) (wi_swarm c) d a = Inr (d', e)"
  then show "config_shown c unmarshal decode d' = config_shown c unmarshal decode d"
    using swarm_Set_frame [of "wi_kube c" "wi_versioned c"]
    by (simp only: wiring_ok_def config_shown_def cm_Get_def)
qed

section \<open>Properties\<close>

lemma update_published:
  assumes "assignment_inv (p_state p)" and "pool_inv p" and "range_order ro" and "p_expectedSize p \<noteq> n"
    and "UpdateExpectedSize BalanceWorkload Workloads assign ro n (p, d) = Inr (p', d')"
  obtains e where "assign d (Workloads (p_state p')) = Inr (d', e)"
    "map_of (ws_workloads (Workloads (p_state p'))) = assignment_target (p_state p) n"
    "mwf (ws_workloads (Workloads (p_state p')))"
    "BalanceWorkload (p_state p) n (p_version p') = Inr (p_state p', None)"
    "p_version p' = wrap64 (p_version p + 1)" "p_underVariation p'" "p_expectedSize p' = n"
proof -
  obtain st where st: "BalanceWorkload (p_state p) n (wrap64 (p_version p + 1)) = Inr (st, None)"
    "assignment_inv st" "map_of (ws_workloads (Workloads st)) = assignment_target (p_state p) n"
    and u: "UpdateExpectedSize BalanceWorkload Workloads assign ro n (p, d) =
      go_bind (assign d (Workloads st)) (\<lambda>(d', e).
        Inr (p\<lparr>p_heap := mark_all (to_refresh ro p n) (p_heap p), p_state := st,
               p_version := wrap64 (p_version p + 1), p_expectedSize := n,
               p_underVariation := True\<rparr>, d'))"
    using asg.update_spec [OF assms(1-4), of assign d] by metis
  obtain e where "assign d (Workloads st) = Inr (d', e)"
    "p' = p\<lparr>p_heap := mark_all (to_refresh ro p n) (p_heap p), p_state := st,
       p_version := wrap64 (p_version p + 1), p_expectedSize := n, p_underVariation := True\<rparr>"
    using assms(5) unfolding u by (auto simp: go_bind_Inr_iff)
  then show thesis using that st asg.current_wf [OF st(2)] by simp
qed

lemma update_shown:
  assumes "wiring_ok c" and "assignment_inv (p_state p)" and "pool_inv p" and "range_order ro"
    and "p_expectedSize p \<noteq> n"
    and "UpdateExpectedSize BalanceWorkload Workloads (controller_assign c) ro n (p, k) = Inr (p', k')"
    and "controller_assign c k (Workloads (p_state p')) = Inr (k', None)"
    and "codec_ok (wi_encode c) unmarshal decode (Workloads (p_state p'))"
  shows "config_shown c unmarshal decode k' = Some (content (Workloads (p_state p')))"
    and "swarm_shown c k' = Some (content (Workloads (p_state p')))"
    and "jobs_at (ws_workloads (Workloads (p_state p'))) (worker_name (as_setName (p_state p)) i) =
      (if 0 \<le> i \<and> i < n then Some (part_of (as_jobs (p_state p)) n i) else None)"
    and "ws_version (Workloads (p_state p')) =
      (if n = 0 then ws_version (Workloads (p_state p)) else p_version p')"
    and "p_expectedSize p' = n"
proof -
  let ?w = "Workloads (p_state p')"
  obtain e where u: "map_of (ws_workloads ?w) = assignment_target (p_state p) n"
    "mwf (ws_workloads ?w)" "BalanceWorkload (p_state p) n (p_version p') = Inr (p_state p', None)"
    "p_expectedSize p' = n"
    by (rule update_published [OF assms(2-6)])
  have s: "ProviderMiddleware_Set (cm_Set (wi_kube c) (wi_encode c) (wi_cm c))
      (swarm_Set (wi_versioned c) (wi_now c) (wi_order c) (wi_swarm c)) k ?w = Inr (k', None)"
    using assms(7) by (simp add: controller_assign_def executor_Assign_def)
  note both = sto.middleware_both [OF assms(1) conjI [OF assms(8) u(2)] s]
  show "config_shown c unmarshal decode k' = Some (content ?w)" "swarm_shown c k' = Some (content ?w)"
    by (fact both)+
  show "jobs_at (ws_workloads ?w) (worker_name (as_setName (p_state p)) i) =
      (if 0 \<le> i \<and> i < n then Some (part_of (as_jobs (p_state p)) n i) else None)"
    by (simp add: jobs_at_def u(1) assignment_target_def assignation_at)
  show "ws_version ?w = (if n = 0 then ws_version (Workloads (p_state p)) else p_version p')"
    by (rule asg.balance_version [OF assms(2) u(3)])
  show "p_expectedSize p' = n" by (fact u(4))
qed

text \<open>
  C14 From the resize to the readers: when the storages accept the assignation that a change of
  size hands them, both the config map that the workers mount and the swarm resource show
  exactly the assignation specified for the new size. Its version is the pool's new version,
  except for a change to zero workers, where the version stays the old one.
\<close>

theorem resize_publishes_assignation:
  assumes "wiring_ok c" and "assignment_inv (p_state p)" and "pool_inv p" and "range_order ro"
    and "p_expectedSize p \<noteq> n"
    and "UpdateExpectedSize BalanceWorkload Workloads (controller_assign c) ro n (p, k) = Inr (p', k')"
    and "controller_assign c k (Workloads (p_state p')) = Inr (k', None)"
    and "codec_ok (wi_encode c) unmarshal decode (Workloads (p_state p'))"
  shows "\<exists>v. config_shown c unmarshal decode k' = Some (v, ws_version (Workloads (p_state p')))
    \<and> swarm_shown c k' = Some (v, ws_version (Workloads (p_state p')))
    \<and> (\<forall>i. v (worker_name (as_setName (p_state p)) i) =
          (if 0 \<le> i \<and> i < n then Some (part_of (as_jobs (p_state p)) n i) else None))
    \<and> ws_version (Workloads (p_state p')) =
        (if n = 0 then ws_version (Workloads (p_state p)) else p_version p')"
  using update_shown [OF assms] by (simp only: content_def) blast

definition example_wiring :: "cluster wiring" where
  "example_wiring =
     \<lparr>wi_kube = example_kube, wi_versioned = example_versioned, wi_encode = (\<lambda>a. Inr ''yaml''),
      wi_now = int, wi_order = rev, wi_cm = cm_NewProvider ''swarm'' ''cfg'' ''w'',
      wi_swarm = swarm_NewProvider ''swarm'' ''w'', wi_pod = pod_NewProvider ''swarm''\<rparr>"

lemma example_wiring_ok: "wiring_ok example_wiring"
  by (simp add: wiring_ok_def example_wiring_def example_cm_laws example_swarm_laws example_separate_laws)

lemma example_update:
  obtains p' k' where
    "UpdateExpectedSize BalanceWorkload Workloads (controller_assign example_wiring) rev 3
       (example_pool, example_cluster) = Inr (p', k')"
    "controller_assign example_wiring example_cluster (Workloads (p_state p')) = Inr (k', None)"
    "Workloads (p_state p') =
       \<lparr>ws_workloads = [(''w-0'', Some \<lparr>wl_jobs = [Job ''a'', Job ''b''], wl_version = 0\<rparr>),
          (''w-1'', Some \<lparr>wl_jobs = [Job ''c'', Job ''d''], wl_version = 0\<rparr>),
          (''w-2'', Some \<lparr>wl_jobs = [Job ''c''], wl_version = 0\<rparr>)], ws_version = 2\<rparr>"
proof -
  let ?u = "UpdateExpectedSize BalanceWorkload Workloads (controller_assign example_wiring) rev 3
      (example_pool, example_cluster)"
  have "(case ?u of Inl _ \<Rightarrow> None | Inr (p', k') \<Rightarrow>
      Some (controller_assign example_wiring example_cluster (Workloads (p_state p')) = Inr (k', None),
        Workloads (p_state p'))) =
    Some (True, \<lparr>ws_workloads = [(''w-0'', Some \<lparr>wl_jobs = [Job ''a'', Job ''b''], wl_version = 0\<rparr>),
          (''w-1'', Some \<lparr>wl_jobs = [Job ''c'', Job ''d''], wl_version = 0\<rparr>),
          (''w-2'', Some \<lparr>wl_jobs = [Job ''c''], wl_version = 0\<rparr>)], ws_version = 2\<rparr>)"
    by code_simp
  then show thesis using that by (auto split: sum.splits prod.splits)
qed

theorem resize_publishes_assignation_witness:
  "\<exists>k' v n. swarm_shown example_wiring k' = Some (v, n) \<and> v ''w-2'' = Some [Job ''c'']"
proof -
  obtain p' k' where u: "UpdateExpectedSize BalanceWorkload Workloads (controller_assign example_wiring) rev 3
       (example_pool, example_cluster) = Inr (p', k')"
    "controller_assign example_wiring example_cluster (Workloads (p_state p')) = Inr (k', None)"
    by (rule example_update)
  have codec: "codec_ok (wi_encode example_wiring) (\<lambda>s. Inr s) (\<lambda>y. Inr (Workloads (p_state p')))
      (Workloads (p_state p'))"
    by (simp add: codec_ok_def)
  have ne: "p_expectedSize example_pool \<noteq> 3" by (simp add: example_pool_ok)
  obtain v where v: "swarm_shown example_wiring k' = Some (v, ws_version (Workloads (p_state p')))"
    "\<forall>i. v (worker_name (as_setName (p_state example_pool)) i) =
       (if 0 \<le> i \<and> i < 3 then Some (part_of (as_jobs (p_state example_pool)) 3 i) else None)"
    using resize_publishes_assignation [OF example_wiring_ok example_pool_ok(1,2) range_order_rev ne u codec]
    by blast
  have "worker_name (as_setName (p_state example_pool)) 2 = ''w-2''"
    "part_of (as_jobs (p_state example_pool)) 3 2 = [Job ''c'']" by code_simp+
  then show ?thesis using v(1) spec [OF v(2), of 2] by auto
qed



text \<open>
  The two storages are not written together: when \<open>Assign\<close> returns an error, either the
  config map was not accepted, and then the swarm was not asked at all and the cluster is as
  that call left it, or the config map already shows the new assignation.
\<close>

theorem assign_not_atomic:
  assumes "wiring_ok c" and "mwf (ws_workloads a)" and "codec_ok (wi_encode c) unmarshal decode a"
    and "controller_assign c k a = Inr (k', Some e)"
  shows "cm_Set (wi_kube c) (wi_encode c) (wi_cm c) k a = Inr (k', Some e)
    \<or> config_shown c unmarshal decode k' = Some (content a)"
proof -
  have "ProviderMiddleware_Set (cm_Set (wi_kube c) (wi_encode c) (wi_cm c))
      (swarm_Set (wi_versioned c) (wi_now c) (wi_order c) (wi_swarm c)) k a = Inr (k', Some e)"
    using assms(4) by (simp add: controller_assign_def executor_Assign_def)
  then show ?thesis using sto.middleware_failed [OF assms(1)] assms(2,3) by blast
qed

theorem assign_not_atomic_witness:
  "\<exists>c k'. controller_assign c example_cluster example_assignation = Inr (k', Some (Errorf ''unable to update config map ''
       (Some (OtherError ''down''))))
     \<and> config_shown c (\<lambda>s. Inr s) (\<lambda>y. Inr example_assignation) k' = Some (content example_assignation)"
proof -
  let ?vc = "example_versioned\<lparr>vc_updateSwarm := (\<lambda>k ns sw. (k, Inl (OtherError ''down'')))\<rparr>"
  let ?c = "example_wiring\<lparr>wi_versioned := ?vc\<rparr>"
  have ok: "wiring_ok ?c"
    using example_separate_laws example_cm_laws
    by (simp add: wiring_ok_def example_wiring_def swarm_laws_def separate_laws_def)
  have wf: "mwf (ws_workloads example_assignation)" by (simp add: example_assignation_def mwf_def)
  have codec: "codec_ok (wi_encode ?c) (\<lambda>s. Inr s) (\<lambda>y. Inr example_assignation) example_assignation"
    by (simp add: codec_ok_def)
  have "case controller_assign ?c example_cluster example_assignation of Inl _ \<Rightarrow> False
      | Inr (k', e) \<Rightarrow> e = Some (Errorf ''unable to update config map '' (Some (OtherError ''down'')))" by code_simp
  then obtain k' where a: "controller_assign ?c example_cluster example_assignation
      = Inr (k', Some (Errorf ''unable to update config map '' (Some (OtherError ''down''))))"
    by (auto split: sum.splits)
  have "case cm_Set (wi_kube ?c) (wi_encode ?c) (wi_cm ?c) example_cluster example_assignation of
      Inl _ \<Rightarrow> False | Inr (k', e) \<Rightarrow> e = None" by code_simp
  then have "cm_Set (wi_kube ?c) (wi_encode ?c) (wi_cm ?c) example_cluster example_assignation
      \<noteq> Inr (k', Some (Errorf ''unable to update config map '' (Some (OtherError ''down''))))"
    by (auto split: sum.splits)
  then show ?thesis using assign_not_atomic [OF ok wf codec a] a by blast
qed

end
