(* ===== verification/Pod_Handler.thy ===== *)
theory Pod_Handler
  imports Pool_Runtime Kube
begin

text \<open>
  \<open>services/controller/internal/infra/k8s/operator/pod/handler.go\<close>: pods that come and go
  register and unregister workers of the pool. The interface \<open>Pool\<close> is the locale
  \<open>worker_registry\<close>: its two methods are the arguments \<open>add\<close> and \<open>remove\<close>.
  \<open>net.ParseIP\<close> is the argument \<open>parse_ip\<close>.
\<close>

section \<open>Predicates on pods\<close>

definition isScheduled :: "pod \<Rightarrow> bool" where
  "isScheduled pod = (pd_nodeName pod \<noteq> [])"

definition isHostNetworked :: "pod \<Rightarrow> bool" where
  "isHostNetworked pod = pd_hostNetwork pod"

definition hasIPAddress :: "pod \<Rightarrow> bool" where
  "hasIPAddress pod = (pd_podIP pod \<noteq> [])"

definition isRunning :: "pod \<Rightarrow> bool" where
  "isRunning pod = (pd_phase pod = ''Running'')"

fun isReady_loop :: "podCondition list \<Rightarrow> bool" where
  "isReady_loop [] = False"
| "isReady_loop (cond # conds) =
     (if pc_type cond = ''Ready'' \<and> pc_status cond = ''True'' then True else isReady_loop conds)"

definition isReady :: "pod \<Rightarrow> bool" where
  "isReady pod = isReady_loop (pd_conditions pod)"

definition hasDeletionTimestamp :: "pod \<Rightarrow> bool" where
  "hasDeletionTimestamp pod = (om_deletionTimestamp (pd_objectMeta pod) \<noteq> None)"

fun isTerminated_loop :: "bool list \<Rightarrow> bool" where
  "isTerminated_loop [] = False"
| "isTerminated_loop (terminated # rest) = (if terminated then True else isTerminated_loop rest)"

definition isTerminated :: "pod \<Rightarrow> bool" where
  "isTerminated pod = isTerminated_loop (pd_terminated pod)"

definition isReadyPod :: "pod \<Rightarrow> bool" where
  "isReadyPod pod =
     (if isHostNetworked pod then False
      else if \<not> hasIPAddress pod then False
      else if \<not> isScheduled pod then False
      else if \<not> isRunning pod then False
      else True)"

abbreviation pod_name :: "pod \<Rightarrow> string" where
  "pod_name pod \<equiv> om_name (pd_objectMeta pod)"

section \<open>The ordinal of a pod\<close>

definition errBadStatefulSetPodName :: goerror where
  "errBadStatefulSetPodName = OtherError ''malformed pod name, expected statefulset pattern''"

definition num_goerror :: "num_error \<Rightarrow> goerror" where
  "num_goerror e = (case e of ErrSyntax \<Rightarrow> OtherError ''invalid syntax'' | ErrRange \<Rightarrow> OtherError ''value out of range'')"

text \<open>As in Go the value and the error are both returned.\<close>

definition podIndex :: "pod \<Rightarrow> int \<times> goerror option" where
  "podIndex pod =
     (let parts = go_split (CHR ''-'') (pod_name pod)
      in if length parts < 2 then (0, Some errBadStatefulSetPodName)
         else let (i, err) = parse_int (parts ! (length parts - 1))
              in (i, map_option num_goerror err))"

section \<open>The handler\<close>

definition as_pod :: "object \<Rightarrow> pod go" where
  "as_pod obj = (case obj of PodObj pod \<Rightarrow> Inr pod | _ \<Rightarrow> Inl TypeAssertion)"

definition pod_Created ::
    "(int \<Rightarrow> string \<Rightarrow> 'ip \<Rightarrow> 'p \<Rightarrow> 'p \<times> bool) \<Rightarrow> (string \<Rightarrow> 'ip) \<Rightarrow> object \<Rightarrow> 'p \<Rightarrow> 'p go" where
  "pod_Created add parse_ip obj p =
     go_bind (as_pod obj) (\<lambda>pod.
       if \<not> isReadyPod pod then Inr p
       else
         (case podIndex pod of
            (idx, Some err) \<Rightarrow> Inr p
          | (idx, None) \<Rightarrow>
              (case add idx (pod_name pod) (parse_ip (pd_podIP pod)) p of
                 (p', added) \<Rightarrow> if \<not> added then Inr p' else Inr p')))"

definition pod_Deleted :: "(string \<Rightarrow> 'p \<Rightarrow> 'p) \<Rightarrow> object \<Rightarrow> 'p \<Rightarrow> 'p go" where
  "pod_Deleted remove obj p = go_bind (as_pod obj) (\<lambda>pod. Inr (remove (pod_name pod) p))"

definition pod_Updated ::
    "(int \<Rightarrow> string \<Rightarrow> 'ip \<Rightarrow> 'p \<Rightarrow> 'p \<times> bool) \<Rightarrow> (string \<Rightarrow> 'p \<Rightarrow> 'p) \<Rightarrow> (string \<Rightarrow> 'ip)
     \<Rightarrow> object \<Rightarrow> object \<Rightarrow> 'p \<Rightarrow> 'p go" where
  "pod_Updated add remove parse_ip new old p =
     go_bind (as_pod new) (\<lambda>pod.
       if hasDeletionTimestamp pod \<or> isTerminated pod then pod_Deleted remove (PodObj pod) p
       else if \<not> isReadyPod pod then Inr p
       else if \<not> isReady pod then Inr p
       else
         (case podIndex pod of
            (idx, Some err) \<Rightarrow> Inr p
          | (idx, None) \<Rightarrow>
              (case add idx (pod_name pod) (parse_ip (pd_podIP pod)) p of
                 (p', added) \<Rightarrow> if \<not> added then Inr p' else Inr p')))"

section \<open>What the handler relies on and keeps\<close>

lemma isReady_iff: "isReady pod \<longleftrightarrow> (\<exists>c \<in> set (pd_conditions pod). pc_type c = ''Ready'' \<and> pc_status c = ''True'')"
proof -
  have "isReady_loop cs \<longleftrightarrow> (\<exists>c \<in> set cs. pc_type c = ''Ready'' \<and> pc_status c = ''True'')" for cs
    by (induction cs) auto
  then show ?thesis by (simp add: isReady_def)
qed

lemma as_pod_simps [simp]: "as_pod (PodObj pod) = Inr pod"
  by (simp add: as_pod_def)

text \<open>The pods that \<open>Created\<close> and \<open>Updated\<close> register.\<close>

definition registrable :: "pod \<Rightarrow> bool" where
  "registrable pod \<longleftrightarrow> isReadyPod pod \<and> snd (podIndex pod) = None"

definition going_away :: "pod \<Rightarrow> bool" where
  "going_away pod \<longleftrightarrow> hasDeletionTimestamp pod \<or> isTerminated pod"

lemma pod_Created_eq:
  "pod_Created add parse_ip (PodObj pod) p =
     Inr (if registrable pod then fst (add (fst (podIndex pod)) (pod_name pod) (parse_ip (pd_podIP pod)) p) else p)"
  by (cases "podIndex pod"; cases "snd (podIndex pod)")
    (auto simp: pod_Created_def registrable_def split: prod.split)

lemma pod_Updated_eq:
  "pod_Updated add remove parse_ip (PodObj pod) old p =
     Inr (if going_away pod then remove (pod_name pod) p
          else if registrable pod \<and> isReady pod
          then fst (add (fst (podIndex pod)) (pod_name pod) (parse_ip (pd_podIP pod)) p) else p)"
  by (cases "podIndex pod"; cases "snd (podIndex pod)")
    (auto simp: pod_Updated_def pod_Deleted_def registrable_def going_away_def split: prod.split)

context worker_registry
begin

lemma created_members:
  assumes "ok p"
  shows "\<exists>p'. pod_Created add parse_ip (PodObj pod) p = Inr p' \<and> ok p'
    \<and> members p' = members p \<union> (if registrable pod then {pod_name pod} else {})"
  using assms by (simp add: pod_Created_eq add_ok members_add)

lemma deleted_members:
  assumes "ok p"
  shows "\<exists>p'. pod_Deleted remove (PodObj pod) p = Inr p' \<and> ok p' \<and> members p' = members p - {pod_name pod}"
  using assms by (simp add: pod_Deleted_def remove_ok members_remove)

lemma updated_members:
  assumes "ok p"
  shows "\<exists>p'. pod_Updated add remove parse_ip (PodObj pod) old p = Inr p' \<and> ok p'
    \<and> members p' = (if going_away pod then members p - {pod_name pod}
         else members p \<union> (if registrable pod \<and> isReady pod then {pod_name pod} else {}))"
  using assms by (simp add: pod_Updated_eq add_ok members_add remove_ok members_remove)

text \<open>A pod that is registered already keeps its worker: its new IP is not taken over.\<close>

lemma registered_kept:
  assumes "ok p" and "pod_name pod \<in> members p"
  shows "pod_Created add parse_ip (PodObj pod) p = Inr p"
    and "\<not> going_away pod \<Longrightarrow> pod_Updated add remove parse_ip (PodObj pod) old p = Inr p"
  using assms by (simp_all add: pod_Created_eq pod_Updated_eq add_existing)

end

section \<open>Properties\<close>

lemma podIndex_suffix:
  assumes "pod_name pod = pre @ CHR ''-'' # suf" and "CHR ''-'' \<notin> set suf"
  shows "podIndex pod = (fst (parse_int suf), map_option num_goerror (snd (parse_int suf)))"
proof -
  have sp: "go_split (CHR ''-'') (pod_name pod) = go_split (CHR ''-'') pre @ [suf]"
    using assms by (simp add: go_split_append go_split_single)
  have "Suc 0 \<le> length (go_split (CHR ''-'') pre)" by (simp add: Suc_leI)
  then show ?thesis
    by (simp add: podIndex_def sp nth_append split: prod.split)
qed

lemma podIndex_no_dash:
  "CHR ''-'' \<notin> set (pod_name pod) \<Longrightarrow> podIndex pod = (0, Some errBadStatefulSetPodName)"
  by (simp add: podIndex_def go_split_single)

lemma podIndex_worker_name:
  assumes "pod_name pod = worker_name setName i" and "0 \<le> i" and "i < 2 ^ 63"
  shows "podIndex pod = (i, None)"
proof -
  have "podIndex pod = (fst (parse_int (show_nat (nat i))), map_option num_goerror (snd (parse_int (show_nat (nat i)))))"
    using assms by (intro podIndex_suffix [of _ setName])
      (simp_all add: worker_name_def show_int_nonneg show_nat_no_dash)
  then show ?thesis using assms parse_int_show_nat [of "nat i"] by simp
qed

text \<open>
  The ordinal of a pod: for the pods of a stateful set, whose names are the set's name, a
  dash and a number below $2^{63}$, \<open>podIndex\<close> returns that number and no error, also when
  the set's name has dashes itself; a name without a dash is an error; and whenever it returns
  no error, the index is what \<open>ParseInt\<close> reads from the part after the last dash.
\<close>

theorem pod_index_of_stateful_pod:
  assumes "0 \<le> i" and "i < 2 ^ 63"
  shows "(if pod_name pod = worker_name setName i then podIndex pod = (i, None) else True)
    \<and> (if CHR ''-'' \<notin> set (pod_name pod) then podIndex pod = (0, Some errBadStatefulSetPodName) else True)
    \<and> (if podIndex pod = (j, None)
       then \<exists>pre suf. pod_name pod = pre @ CHR ''-'' # suf \<and> CHR ''-'' \<notin> set suf \<and> parse_int suf = (j, None)
       else True)"
proof -
  have "\<exists>pre suf. pod_name pod = pre @ CHR ''-'' # suf \<and> CHR ''-'' \<notin> set suf \<and> parse_int suf = (j, None)"
    if idx: "podIndex pod = (j, None)"
  proof -
    have "CHR ''-'' \<in> set (pod_name pod)" using idx podIndex_no_dash by fastforce
    then obtain pre suf where s: "pod_name pod = pre @ CHR ''-'' # suf" "CHR ''-'' \<notin> set suf"
      by (meson split_list_last)
    then have "parse_int suf = (j, None)"
      using idx podIndex_suffix [OF s] by (cases "parse_int suf") simp
    then show ?thesis using s by blast
  qed
  moreover have "podIndex pod = (i, None)" if "pod_name pod = worker_name setName i"
    by (rule podIndex_worker_name [OF that assms])
  moreover have "podIndex pod = (0, Some errBadStatefulSetPodName)" if "CHR ''-'' \<notin> set (pod_name pod)"
    by (rule podIndex_no_dash [OF that])
  ultimately show ?thesis by presburger
qed

theorem pod_index_of_stateful_pod_witness:
  "podIndex \<lparr>pd_objectMeta = zero_objectMeta\<lparr>om_name := ''swarm-worker-12''\<rparr>, pd_nodeName = [],
     pd_hostNetwork = False, pd_podIP = [], pd_phase = [], pd_conditions = [], pd_terminated = []\<rparr> = (12, None)"
proof -
  have "worker_name ''swarm-worker'' 12 = ''swarm-worker-12''" by code_simp
  then show ?thesis
    using pod_index_of_stateful_pod [of 12 "\<lparr>pd_objectMeta = zero_objectMeta\<lparr>om_name := ''swarm-worker-12''\<rparr>,
     pd_nodeName = [], pd_hostNetwork = False, pd_podIP = [], pd_phase = [], pd_conditions = [],
     pd_terminated = []\<rparr>" "''swarm-worker''"] by simp
qed


definition sample_pod :: "string \<Rightarrow> pod" where
  "sample_pod name =
     \<lparr>pd_objectMeta = zero_objectMeta\<lparr>om_name := name\<rparr>, pd_nodeName = ''node'', pd_hostNetwork = False,
      pd_podIP = ''10.0.0.7'', pd_phase = ''Running'',
      pd_conditions = [\<lparr>pc_type = ''Ready'', pc_status = ''False''\<rparr>], pd_terminated = [False]\<rparr>"


section \<open>Ordinals in the running pool\<close>

text \<open>
  Every registered worker is the one its index names. The register actions of a stateful set
  carry, as \<open>podIndex\<close> gives it, the ordinal of the name.
\<close>

definition ordinals :: "string \<Rightarrow> (assignment_state, 'ip) pool \<Rightarrow> bool" where
  "ordinals setName p \<longleftrightarrow> (\<forall>(n, a) \<in> set (p_index p). n = worker_name setName (index_at (p_heap p) a))"

definition stateful_action :: "string \<Rightarrow> 'ip action \<Rightarrow> bool" where
  "stateful_action setName act =
     (case act of Register i n ip \<Rightarrow> n = worker_name setName i | _ \<Rightarrow> True)"

lemma ordinals_inj: "pool_inv p \<Longrightarrow> ordinals setName p \<Longrightarrow> inj_on (index_at (p_heap p)) (registered p)"
proof (rule inj_onI)
  fix a b
  assume p: "pool_inv p" "ordinals setName p" and ab: "a \<in> registered p" "b \<in> registered p"
    and eq: "index_at (p_heap p) a = index_at (p_heap p) b"
  obtain m n where mn: "(m, a) \<in> set (p_index p)" "(n, b) \<in> set (p_index p)"
    using ab by (auto simp: registered_def)
  then have "m = n"
    using bspec [OF p(2) [unfolded ordinals_def] mn(1)] bspec [OF p(2) [unfolded ordinals_def] mn(2)] eq
    by simp
  then show "a = b" using mn p(1) by (metis eq_key_imp_eq_value mwf_def pool_inv_def)
qed

lemma ordinals_cong:
  assumes "ordinals setName p" and "p_index q = p_index p"
    and "\<And>a. a \<in> registered p \<Longrightarrow> index_at (p_heap q) a = index_at (p_heap p) a"
  shows "ordinals setName q"
  using assms unfolding ordinals_def registered_def by force

lemma ordinals_step:
  "pool_step assign restart s act s' \<Longrightarrow> pool_inv (sys_pool s) \<Longrightarrow> assignment_inv (p_state (sys_pool s))
    \<Longrightarrow> ordinals setName (sys_pool s) \<Longrightarrow> stateful_action setName act \<Longrightarrow> ordinals setName (sys_pool s')"
proof (induction rule: pool_step.induct)
  case (resize ro n s p d)
  show ?case
  proof (cases "p_expectedSize (sys_pool s) = n")
    case True
    then show ?thesis using resize by (simp add: UpdateExpectedSize_def)
  next
    case False
    have "p_index p = p_index (sys_pool s) \<and> (\<forall>a < length (p_heap (sys_pool s)).
        index_at (p_heap p) a = index_at (p_heap (sys_pool s)) a)"
      by (rule asg.update_result [OF resize(4,3,1) False resize(2)]) simp
    then show ?thesis
      using registered_allocated [OF resize(3)] by (intro ordinals_cong [OF resize(5)]) simp_all
  qed
next
  case (register i n ip s p added)
  from register_cases [OF register(2,1)] show ?case
  proof cases
    case 2
    have "index_at (p_heap (sys_pool s) @ [newWorker i n ip]) a = index_at (p_heap (sys_pool s)) a"
      if "a \<in> registered (sys_pool s)" for a
      using registered_allocated [OF register(2) that] by (simp add: nth_append)
    then show ?thesis
      using register(4,5) 2 by (fastforce simp: ordinals_def stateful_action_def registered_def)
  qed (use register(4) in simp)
next
  case (unregister s n)
  then show ?case by (simp add: ordinals_def RemoveWorkerByName_def AList.delete_eq)
next
  case (tick ro s p started)
  then show ?case
    using conciliate_started(2,3) [OF tick(4,1,3)] by (simp add: ordinals_def)
next
  case (finish i s a p)
  then have "p = (sys_pool s)\<lparr>p_heap := (p_heap (sys_pool s))[a := MarkRefreshed (p_heap (sys_pool s) ! a)]\<rparr>"
    "a < length (p_heap (sys_pool s))" by (simp_all add: restart_finish_eq)
  then show ?case
    by (intro ordinals_cong [OF finish(6)]) (simp_all add: nth_list_update)
next
  case (stop s p)
  then show ?case by (simp add: ordinals_def Terminate_eq)
qed simp_all

lemma ordinals_run:
  "pool_run assign restart s acts s' \<Longrightarrow> sys_inv t s \<Longrightarrow> ordinals setName (sys_pool s)
    \<Longrightarrow> list_all (stateful_action setName) acts \<Longrightarrow> ordinals setName (sys_pool s')"
proof (induction rule: pool_run.induct)
  case (run_snoc s acts m act s')
  have "sys_inv t m" by (rule sys_inv_run [OF run_snoc(1,4)])
  then show ?case
    using run_snoc ordinals_step [OF run_snoc(2)] by (simp add: sys_inv_def)
qed

text \<open>
  C24 In every reachable state of a pool whose register actions come from the pods of one
  stateful set, each registered worker sits under the name that the assignation uses for its
  index, and no two registered workers have the same index: this is what the order of the
  restarts and the marking of the surviving workers rest on. And the action that a created pod
  of the stateful set performs is such a register action.
\<close>

theorem reachable_ordinals:
  assumes "int (length jobs) < 2 ^ 63" and "pool_run assign restart (start jobs setName d0) acts s"
    and "list_all (stateful_action setName) acts" and "0 \<le> i" and "i < 2 ^ 63"
    and "pod_name pod = worker_name setName i"
    and "pod_Created AddWorkerIfNotExists parse_ip (PodObj pod) (sys_pool s) = Inr p'"
  shows "(\<forall>(n, a) \<in> set (p_index (sys_pool s)). n = worker_name setName (w_index (p_heap (sys_pool s) ! a)))
    \<and> inj_on (index_at (p_heap (sys_pool s))) (registered (sys_pool s))
    \<and> (p' = sys_pool s \<or> (pool_step assign restart s
          (Register i (worker_name setName i) (parse_ip (pd_podIP pod))) (s\<lparr>sys_pool := p'\<rparr>)
        \<and> stateful_action setName (Register i (worker_name setName i) (parse_ip (pd_podIP pod)))))"
proof -
  let ?t = "assignation setName jobs"
  have "ordinals setName (sys_pool (start jobs setName d0))"
    by (simp add: ordinals_def start_def NewWorkerPool_def)
  note o = ordinals_run [OF assms(2) sys_inv_start [OF assms(1)] this assms(3)]
  have "pool_inv (sys_pool s)"
    using sys_inv_run [OF assms(2) sys_inv_start [OF assms(1)]] by (simp add: sys_inv_def)
  note inj = ordinals_inj [OF this o]
  have p': "p' = (if registrable pod
      then fst (AddWorkerIfNotExists i (worker_name setName i) (parse_ip (pd_podIP pod)) (sys_pool s)) else sys_pool s)"
    using assms(7) podIndex_worker_name [OF assms(6,4,5)] by (auto simp: pod_Created_eq assms(6))
  have "p' = sys_pool s \<or> pool_step assign restart s
      (Register i (worker_name setName i) (parse_ip (pd_podIP pod))) (s\<lparr>sys_pool := p'\<rparr>)"
    using pool_step.register [OF prod.collapse [symmetric], of assign restart s i] p' by auto
  then show ?thesis using o inj by (auto simp: ordinals_def stateful_action_def)
qed

theorem reachable_ordinals_witness:
  "\<exists>s. exec rec_assign rec_restart example_acts example_start = Some s
    \<and> inj_on (index_at (p_heap (sys_pool s))) (registered (sys_pool s))"
proof -
  have "exec rec_assign rec_restart example_acts example_start \<noteq> None" by code_simp
  then obtain s where s: "exec rec_assign rec_restart example_acts example_start = Some s" by blast
  have run: "pool_run rec_assign rec_restart (start [Job ''a'', Job ''b''] ''w'' []) example_acts s"
    using exec_sound [OF s] by (simp add: example_start_def)
  have len: "int (length [Job ''a'', Job ''b'']) < 2 ^ 63" by simp
  have acts: "list_all (stateful_action ''w'') example_acts" by code_simp
  have name: "pod_name (sample_pod (worker_name ''w'' 2)) = worker_name ''w'' 2"
    by (simp add: sample_pod_def)
  obtain p' where "pod_Created AddWorkerIfNotExists (\<lambda>s. ()) (PodObj (sample_pod (worker_name ''w'' 2)))
      (sys_pool s) = Inr p'" by (simp add: pod_Created_eq)
  from reachable_ordinals [OF len run acts _ _ name this] show ?thesis using s by simp
qed

end
