(* ===== verification/StatefulSet_Handler.thy ===== *)
theory StatefulSet_Handler
  imports Worker_Pool Kube
begin

text \<open>
  \<open>services/controller/internal/infra/k8s/operator/statefulset/handler.go\<close>: the replicas of
  the stateful set are the expected size of the pool. The interface \<open>Pool\<close> is the locale
  \<open>resizable\<close>, its method the argument \<open>resize\<close>. \<open>Replicas\<close> is a pointer to an \<open>int32\<close>.
\<close>

definition as_statefulSet :: "object \<Rightarrow> statefulSet go" where
  "as_statefulSet obj = (case obj of StatefulSetObj ss \<Rightarrow> Inr ss | _ \<Rightarrow> Inl TypeAssertion)"

definition replicas_of :: "statefulSet \<Rightarrow> int go" where
  "replicas_of ss = (case st_replicas ss of None \<Rightarrow> Inl NilDereference | Some n \<Rightarrow> Inr n)"

definition sts_Created :: "(int \<Rightarrow> 'p \<Rightarrow> 'p go) \<Rightarrow> object \<Rightarrow> 'p \<Rightarrow> 'p go" where
  "sts_Created resize obj p =
     go_bind (as_statefulSet obj) (\<lambda>ss. go_bind (replicas_of ss) (\<lambda>n. resize n p))"

definition sts_Updated :: "(int \<Rightarrow> 'p \<Rightarrow> 'p go) \<Rightarrow> object \<Rightarrow> object \<Rightarrow> 'p \<Rightarrow> 'p go" where
  "sts_Updated resize new old p =
     go_bind (as_statefulSet new) (\<lambda>ss. go_bind (replicas_of ss) (\<lambda>n. resize n p))"

definition sts_Deleted :: "(int \<Rightarrow> 'p \<Rightarrow> 'p go) \<Rightarrow> object \<Rightarrow> 'p \<Rightarrow> 'p go" where
  "sts_Deleted resize obj p = go_bind (as_statefulSet obj) (\<lambda>ss. resize 0 p)"

text \<open>The size that an event asks for.\<close>

context resizable
begin

lemma created_size:
  assumes "ok p" and "sts_Created resize (StatefulSetObj ss) p = Inr p'"
  shows "st_replicas ss = Some (size_of p')" and "ok p'"
  using assms resize_size resize_ok
  by (auto simp: sts_Created_def as_statefulSet_def replicas_of_def split: option.splits)

lemma created_repeated:
  assumes "ok p" and "sts_Created resize (StatefulSetObj ss) p = Inr p'"
  shows "sts_Created resize (StatefulSetObj ss) p' = Inr p'"
    and "sts_Updated resize (StatefulSetObj ss) old p' = Inr p'"
proof -
  have "st_replicas ss = Some (size_of p')" by (rule created_size(1) [OF assms])
  then show "sts_Created resize (StatefulSetObj ss) p' = Inr p'"
    "sts_Updated resize (StatefulSetObj ss) old p' = Inr p'"
    by (simp_all add: sts_Created_def sts_Updated_def as_statefulSet_def replicas_of_def resize_same)
qed

lemma deleted_size:
  assumes "ok p" and "sts_Deleted resize (StatefulSetObj ss) p = Inr p'"
  shows "size_of p' = 0" and "ok p'"
  using assms resize_size resize_ok by (auto simp: sts_Deleted_def as_statefulSet_def)

end

lemma sts_Updated_Created: "sts_Updated resize new old p = sts_Created resize new p"
  by (simp add: sts_Updated_def sts_Created_def)

section \<open>Properties\<close>



end
