(* ===== verification/Resource_Events.thy ===== *)
theory Resource_Events
  imports Kube
begin

text \<open>
  From the informer to the queue: \<open>event.go\<close>, \<open>selector.go\<close> and
  \<open>resource_event_handler.go\<close> of \<open>services/controller/internal/infra/k8s/operator\<close>. The
  informer calls \<open>Add\<close>, \<open>Update\<close> and \<open>Delete\<close> with an \<open>interface{}\<close>, which may be nil.
  \<open>meta.Accessor\<close>, the two key functions of \<open>client-go\<close> and the queue's \<open>Add\<close> are
  arguments. \<open>DeepCopyObject\<close> gives an equal object; nothing here writes to objects.
\<close>

section \<open>event.go\<close>

datatype event =
    Event (ev_key: string) (ev_obj: object)
  | UpdateEvent (ev_key: string) (ev_oldObj: object) (ev_newObj: object)

definition GetKey :: "event \<Rightarrow> string" where
  "GetKey e = (case e of Event key obj \<Rightarrow> key | UpdateEvent key oldObj newObj \<Rightarrow> key)"

section \<open>selector.go\<close>

definition ErrNoAppLabelFound :: goerror where
  "ErrNoAppLabelFound = OtherError ''no app label found ''"

definition getAppLabel :: "(object \<Rightarrow> goerror + objectMeta) \<Rightarrow> object \<Rightarrow> goerror + string" where
  "getAppLabel accessor obj =
     (case accessor obj of
        Inl err \<Rightarrow> Inl (Errorf ''meta accessor error: '' (Some err))
      | Inr acc \<Rightarrow>
          (case map_of (om_labels acc) ''app'' of
             None \<Rightarrow> Inl ErrNoAppLabelFound
           | Some v \<Rightarrow> Inr v))"

definition hasWatchedLabel ::
    "(object \<Rightarrow> goerror + objectMeta) \<Rightarrow> string \<Rightarrow> object \<Rightarrow> goerror + bool" where
  "hasWatchedLabel accessor watched obj =
     (case getAppLabel accessor obj of
        Inl err \<Rightarrow> Inl (Errorf ''meta app label error: '' (Some err))
      | Inr label \<Rightarrow> Inr (label = watched))"

definition selector_Validate ::
    "(object \<Rightarrow> goerror + objectMeta) \<Rightarrow> string \<Rightarrow> object \<Rightarrow> goerror option" where
  "selector_Validate accessor watched obj =
     (case hasWatchedLabel accessor watched obj of
        Inl err \<Rightarrow> Some err
      | Inr v \<Rightarrow>
          if \<not> v
          then (case getAppLabel accessor obj of
                  Inl err \<Rightarrow> Some (Errorf ''selector validate error, not watched label, app label not found, skip object, error '' (Some err))
                | Inr l \<Rightarrow> Some (Errorf (''label '' @ l @ '' not queue'') None))
          else None)"

definition nop_Validate :: "object \<Rightarrow> goerror option" where
  "nop_Validate obj = None"

text \<open>The objects with the watched label.\<close>

definition watched_by :: "(object \<Rightarrow> goerror + objectMeta) \<Rightarrow> string \<Rightarrow> object \<Rightarrow> bool" where
  "watched_by accessor watched obj \<longleftrightarrow>
     (case accessor obj of Inl _ \<Rightarrow> False | Inr m \<Rightarrow> map_of (om_labels m) ''app'' = Some watched)"

section \<open>resource_event_handler.go\<close>

text \<open>The type assertion to \<open>runtime.Object\<close>.\<close>

definition is_runtime_object :: "object \<Rightarrow> bool" where
  "is_runtime_object obj =
     (case obj of Tombstone key known \<Rightarrow> False | Foreign name r \<Rightarrow> r | _ \<Rightarrow> True)"

definition as_runtime_object :: "object \<Rightarrow> object go" where
  "as_runtime_object obj = (if is_runtime_object obj then Inr obj else Inl TypeAssertion)"

definition handler_Add ::
    "(object \<Rightarrow> goerror option) \<Rightarrow> (object \<Rightarrow> goerror + string) \<Rightarrow> ('q \<Rightarrow> event \<Rightarrow> 'q)
     \<Rightarrow> object option \<Rightarrow> 'q \<Rightarrow> 'q go" where
  "handler_Add validate meta_key queue_add obj q =
     (case obj of
        None \<Rightarrow> Inr q
      | Some ob \<Rightarrow>
          go_bind (as_runtime_object ob) (\<lambda>v.
            case validate v of
              Some err \<Rightarrow> Inr q
            | None \<Rightarrow>
                (case meta_key ob of
                   Inl err \<Rightarrow> Inr q
                 | Inr key \<Rightarrow> Inr (queue_add q (Event key v)))))"

definition handler_Update ::
    "(object \<Rightarrow> goerror option) \<Rightarrow> (object \<Rightarrow> goerror + string) \<Rightarrow> ('q \<Rightarrow> event \<Rightarrow> 'q)
     \<Rightarrow> object option \<Rightarrow> object option \<Rightarrow> 'q \<Rightarrow> 'q go" where
  "handler_Update validate meta_key queue_add oldObj newObj q =
     (case newObj of
        None \<Rightarrow> Inr q
      | Some new \<Rightarrow>
          (case oldObj of
             None \<Rightarrow> Inr q
           | Some old \<Rightarrow>
               go_bind (as_runtime_object new) (\<lambda>n.
                 case validate n of
                   Some err \<Rightarrow> Inr q
                 | None \<Rightarrow>
                     (case meta_key new of
                        Inl err \<Rightarrow> Inr q
                      | Inr key \<Rightarrow>
                          go_bind (as_runtime_object old)
                            (\<lambda>v. Inr (queue_add q (UpdateEvent key v n)))))))"

definition handler_Delete ::
    "(object \<Rightarrow> goerror option) \<Rightarrow> (object \<Rightarrow> goerror + string) \<Rightarrow> ('q \<Rightarrow> event \<Rightarrow> 'q)
     \<Rightarrow> object option \<Rightarrow> 'q \<Rightarrow> 'q go" where
  "handler_Delete validate deletion_key queue_add obj q =
     (case obj of
        None \<Rightarrow> Inr q
      | Some ob \<Rightarrow>
          go_bind (as_runtime_object ob) (\<lambda>v.
            case validate v of
              Some err \<Rightarrow> Inr q
            | None \<Rightarrow>
                (case deletion_key ob of
                   Inl err \<Rightarrow> Inr q
                 | Inr key \<Rightarrow> Inr (queue_add q (Event key v)))))"

section \<open>Selector, as the event handler sees it\<close>

text \<open>\<open>accepts\<close> are the objects for which \<open>Validate\<close> returns no error.\<close>

locale object_selector =
  fixes validate :: "object \<Rightarrow> goerror option"
    and accepts :: "object \<Rightarrow> bool"
  assumes validate_iff: "validate obj = None \<longleftrightarrow> accepts obj"
begin

lemma validate_cases:
  obtains "accepts obj" "validate obj = None" | e where "\<not> accepts obj" "validate obj = Some e"
  using validate_iff [of obj] by (cases "validate obj") auto

lemma add_spec:
  assumes "is_runtime_object obj"
  shows "handler_Add validate meta_key queue_add (Some obj) q =
    (if accepts obj then (case meta_key obj of Inr key \<Rightarrow> Inr (queue_add q (Event key obj)) | Inl e \<Rightarrow> Inr q)
     else Inr q)"
  using assms by (cases rule: validate_cases [of obj])
    (simp_all add: handler_Add_def as_runtime_object_def split: sum.split)

lemma delete_spec:
  assumes "is_runtime_object obj"
  shows "handler_Delete validate deletion_key queue_add (Some obj) q =
    (if accepts obj then (case deletion_key obj of Inr key \<Rightarrow> Inr (queue_add q (Event key obj)) | Inl e \<Rightarrow> Inr q)
     else Inr q)"
  using assms by (cases rule: validate_cases [of obj])
    (simp_all add: handler_Delete_def as_runtime_object_def split: sum.split)

lemma update_spec:
  assumes "is_runtime_object new" and "is_runtime_object old"
  shows "handler_Update validate meta_key queue_add (Some old) (Some new) q =
    (if accepts new
     then (case meta_key new of Inr key \<Rightarrow> Inr (queue_add q (UpdateEvent key old new)) | Inl e \<Rightarrow> Inr q)
     else Inr q)"
  using assms by (cases rule: validate_cases [of new])
    (simp_all add: handler_Update_def as_runtime_object_def split: sum.split)

end

interpretation sel: object_selector "selector_Validate accessor watched" "watched_by accessor watched"
  for accessor watched
  by unfold_locales
    (simp add: selector_Validate_def hasWatchedLabel_def getAppLabel_def watched_by_def
      split: sum.split option.split)

interpretation nop: object_selector nop_Validate "\<lambda>obj. True"
  by unfold_locales (simp add: nop_Validate_def)

section \<open>Properties\<close>

text \<open>
  What reaches the queue of a watched resource: an added, updated or deleted object of the
  cluster gives one event, with the object's key, when its metadata can be read, its label
  \<open>app\<close> is the watched one and its key can be built; otherwise it gives none, and nothing else
  is done to the queue. For an update only the new object's label counts, so an object that
  loses the label gives no event at all.
\<close>

theorem watched_objects_enqueued:
  assumes "is_runtime_object obj" and "is_runtime_object old"
  shows "handler_Add (selector_Validate accessor watched) key_of queue_add (Some obj) q =
      (if watched_by accessor watched obj
       then (case key_of obj of Inr key \<Rightarrow> Inr (queue_add q (Event key obj)) | Inl e \<Rightarrow> Inr q)
       else Inr q)
    \<and> handler_Delete (selector_Validate accessor watched) key_of queue_add (Some obj) q =
        handler_Add (selector_Validate accessor watched) key_of queue_add (Some obj) q
    \<and> handler_Update (selector_Validate accessor watched) key_of queue_add (Some old) (Some obj) q =
      (if watched_by accessor watched obj
       then (case key_of obj of Inr key \<Rightarrow> Inr (queue_add q (UpdateEvent key old obj)) | Inl e \<Rightarrow> Inr q)
       else Inr q)"
  by (simp add: sel.add_spec sel.delete_spec sel.update_spec assms)

definition example_pod :: "string \<Rightarrow> string \<Rightarrow> pod" where
  "example_pod name ip =
     \<lparr>pd_objectMeta = zero_objectMeta\<lparr>om_name := name, om_namespace := ''swarm'', om_labels := [(''app'', ''w'')]\<rparr>,
      pd_nodeName = ''n1'', pd_hostNetwork = False, pd_podIP = ip, pd_phase = ''Running'',
      pd_conditions = [\<lparr>pc_type = ''Ready'', pc_status = ''True''\<rparr>], pd_terminated = [False]\<rparr>"

definition example_accessor :: "object \<Rightarrow> goerror + objectMeta" where
  "example_accessor obj =
     (case obj of
        PodObj p \<Rightarrow> Inr (pd_objectMeta p)
      | StatefulSetObj s \<Rightarrow> Inr (st_objectMeta s)
      | SwarmObj s \<Rightarrow> Inr (sw_objectMeta s)
      | _ \<Rightarrow> Inl (OtherError ''object does not implement the Object interfaces''))"

definition example_key :: "object \<Rightarrow> goerror + string" where
  "example_key obj =
     (case example_accessor obj of
        Inl e \<Rightarrow> Inl e
      | Inr m \<Rightarrow> Inr (om_namespace m @ ''/'' @ om_name m))"

theorem watched_objects_enqueued_witness:
  "handler_Add (selector_Validate example_accessor ''w'') example_key (\<lambda>q e. q @ [e])
     (Some (PodObj (example_pod ''w-0'' ''10.0.0.1''))) []
   = Inr [Event ''swarm/w-0'' (PodObj (example_pod ''w-0'' ''10.0.0.1''))]"
proof -
  let ?o = "PodObj (example_pod ''w-0'' ''10.0.0.1'')"
  have r: "is_runtime_object ?o" by (simp add: is_runtime_object_def)
  show ?thesis
    by (subst watched_objects_enqueued [OF r r, THEN conjunct1])
      (simp add: watched_by_def example_key_def example_accessor_def example_pod_def)
qed

text \<open>
  When the callbacks panic: \<open>Add\<close> and \<open>Delete\<close> exactly for a value that is no
  \<open>runtime.Object\<close>, before selector and key function are asked. The tombstone that the informer
  delivers for a deletion it missed is such a value, so it panics in \<open>Delete\<close>, although the
  key function chosen there understands tombstones. \<open>Update\<close> panics for such a new value, and
  for such an old one only after the new one was accepted and has a key; a nil value is skipped.
\<close>

theorem event_handlers_panic_iff:
  "(panics (handler_Add validate key_of queue_add obj q) \<longleftrightarrow> (\<exists>ob. obj = Some ob \<and> \<not> is_runtime_object ob))
   \<and> (panics (handler_Delete validate key_of queue_add obj q) \<longleftrightarrow> (\<exists>ob. obj = Some ob \<and> \<not> is_runtime_object ob))
   \<and> (panics (handler_Update validate key_of queue_add old obj q) \<longleftrightarrow>
        (\<exists>new ol. obj = Some new \<and> old = Some ol \<and>
          (if is_runtime_object new
           then validate new = None \<and> (\<exists>key. key_of new = Inr key) \<and> \<not> is_runtime_object ol else True)))
   \<and> handler_Delete validate key_of queue_add (Some (Tombstone key lastObj)) q = Inl TypeAssertion"
proof -
  have "panics (handler_Update validate key_of queue_add (Some ol) (Some new) q) \<longleftrightarrow>
      (if is_runtime_object new
       then validate new = None \<and> (\<exists>key. key_of new = Inr key) \<and> \<not> is_runtime_object ol else True)" for ol new
    by (cases "validate new"; cases "key_of new")
      (simp_all add: handler_Update_def as_runtime_object_def)
  moreover have "panics (handler_Update validate key_of queue_add None x q) = False"
    "panics (handler_Update validate key_of queue_add x None q) = False" for x
    by (simp_all add: handler_Update_def split: option.split)
  ultimately show ?thesis
    by (cases obj; cases old)
      (simp_all add: handler_Add_def handler_Delete_def as_runtime_object_def is_runtime_object_def
        split: option.split sum.split)
qed

end
