(* ===== verification/Processor.thy ===== *)
theory Processor
  imports Resource_Events
begin

text \<open>
  From the queue to the handlers: \<open>processor.go\<close> and \<open>controller.go\<close> of
  \<open>services/controller/internal/infra/k8s/operator\<close>. The informer's store is asked by the
  argument \<open>get_by_key\<close>, which tells whether a key exists; the queue of \<open>client-go\<close> is a
  record of functions. The \<open>Handle\<close> of a processor may panic; the panic ends the worker.
\<close>

section \<open>processor.go\<close>

text \<open>
  \<open>Updated\<close> is called with the new object first, as every handler of the program takes it (the
  interface \<open>ResourceHandler\<close> names its parameters the other way round).
\<close>

definition processor_Handle ::
    "(string \<Rightarrow> goerror + bool) \<Rightarrow> (object \<Rightarrow> 's \<Rightarrow> 's go) \<Rightarrow> (object \<Rightarrow> object \<Rightarrow> 's \<Rightarrow> 's go)
     \<Rightarrow> (object \<Rightarrow> 's \<Rightarrow> 's go) \<Rightarrow> event \<Rightarrow> 's \<Rightarrow> ('s \<times> goerror option) go" where
  "processor_Handle get_by_key created updated deleted ev s =
     (case get_by_key (GetKey ev) of
        Inl err \<Rightarrow> Inr (s, Some err)
      | Inr exists \<Rightarrow>
          if \<not> exists
          then (case ev of
                  Event key obj \<Rightarrow> go_bind (deleted obj s) (\<lambda>s'. Inr (s', None))
                | UpdateEvent key oldObj newObj \<Rightarrow> go_bind (deleted oldObj s) (\<lambda>s'. Inr (s', None)))
          else (case ev of
                  Event key obj \<Rightarrow> go_bind (created obj s) (\<lambda>s'. Inr (s', None))
                | UpdateEvent key oldObj newObj \<Rightarrow>
                    go_bind (updated newObj oldObj s) (\<lambda>s'. Inr (s', None))))"

section \<open>controller.go\<close>

definition maxRequeue :: int where
  "maxRequeue = 5"

text \<open>
  The queue: items are compared by identity, so an item is a value of its own, \<open>event_of\<close>
  gives the event it points to, \<open>None\<close> if it is none. \<open>Get\<close> gives no item when the queue was
  shut down.
\<close>

record ('q, 'i) workqueue =
  wq_Get :: "'q \<Rightarrow> 'q \<times> 'i option"
  wq_Done :: "'q \<Rightarrow> 'i \<Rightarrow> 'q"
  wq_Forget :: "'q \<Rightarrow> 'i \<Rightarrow> 'q"
  wq_NumRequeues :: "'q \<Rightarrow> 'i \<Rightarrow> int"
  wq_AddRateLimited :: "'q \<Rightarrow> 'i \<Rightarrow> 'q"

definition handleError :: "('q, 'i) workqueue \<Rightarrow> 'q \<Rightarrow> 'i \<Rightarrow> goerror \<Rightarrow> 'q" where
  "handleError wq q key err =
     (if wq_NumRequeues wq q key < maxRequeue then wq_AddRateLimited wq q key
      else wq_Forget wq q key)"

text \<open>The deferred \<open>Done\<close> comes last on every path; the result tells whether to go on.\<close>

definition processNextItem ::
    "('q, 'i) workqueue \<Rightarrow> ('i \<Rightarrow> 'e option) \<Rightarrow> ('e \<Rightarrow> 's \<Rightarrow> ('s \<times> goerror option) go)
     \<Rightarrow> 'q \<times> 's \<Rightarrow> (('q \<times> 's) \<times> bool) go" where
  "processNextItem wq event_of handle qs =
     (let (q, s) = qs in
      case wq_Get wq q of
        (q1, None) \<Rightarrow> Inr ((q1, s), False)
      | (q1, Some ev) \<Rightarrow>
          (case event_of ev of
             None \<Rightarrow> Inr ((wq_Done wq q1 ev, s), True)
           | Some e \<Rightarrow>
               go_bind (handle e s) (\<lambda>(s', err).
                 case err of
                   Some er \<Rightarrow> Inr ((wq_Done wq (handleError wq q1 ev er) ev, s'), True)
                 | None \<Rightarrow> Inr ((wq_Done wq (wq_Forget wq q1 ev) ev, s'), True))))"

text \<open>
  The loop of \<open>runWorker\<close>, cut off after \<open>fuel\<close> rounds; the result tells whether it ended by
  itself, that is, because the queue was shut down.
\<close>

fun runWorker ::
    "nat \<Rightarrow> ('q, 'i) workqueue \<Rightarrow> ('i \<Rightarrow> 'e option) \<Rightarrow> ('e \<Rightarrow> 's \<Rightarrow> ('s \<times> goerror option) go)
     \<Rightarrow> 'q \<times> 's \<Rightarrow> (('q \<times> 's) \<times> bool) go" where
  "runWorker 0 wq event_of handle qs = Inr (qs, False)"
| "runWorker (Suc fuel) wq event_of handle qs =
     go_bind (processNextItem wq event_of handle qs) (\<lambda>(qs', go_on).
       if go_on then runWorker fuel wq event_of handle qs' else Inr (qs', True))"

section \<open>EventProcessor, as the controller sees it\<close>

text \<open>\<open>good\<close> are the events the processor is made for, \<open>ok\<close> the invariant behind it.\<close>

locale event_handling =
  fixes handle :: "'e \<Rightarrow> 's \<Rightarrow> ('s \<times> goerror option) go"
    and good :: "'e \<Rightarrow> bool"
    and ok :: "'s \<Rightarrow> bool"
  assumes handle_ok: "ok s \<Longrightarrow> good e \<Longrightarrow> handle e s = Inr (s', err) \<Longrightarrow> ok s'"
    and handle_cast: "ok s \<Longrightarrow> good e \<Longrightarrow> handle e s \<noteq> Inl TypeAssertion"
begin

lemma next_item_ok:
  assumes "ok s" and "\<forall>i e. event_of i = Some e \<longrightarrow> good e"
  shows "processNextItem wq event_of handle (q, s) \<noteq> Inl TypeAssertion"
    and "processNextItem wq event_of handle (q, s) = Inr ((q', s'), b) \<Longrightarrow> ok s'"
proof -
  obtain q1 i where g: "wq_Get wq q = (q1, i)" by (metis surj_pair)
  have "processNextItem wq event_of handle (q, s) \<noteq> Inl TypeAssertion
    \<and> (processNextItem wq event_of handle (q, s) = Inr ((q', s'), b) \<longrightarrow> ok s')"
  proof (cases "i = None \<or> event_of (the i) = None")
    case True
    then show ?thesis using assms(1) g by (auto simp: processNextItem_def split: option.split)
  next
    case False
    then obtain ev e where i: "i = Some ev" "event_of ev = Some e" by auto
    have "good e" using assms(2) i(2) by blast
    note c = handle_cast [OF assms(1) this] and o = handle_ok [OF assms(1) this]
    show ?thesis
    proof (cases "handle e s")
      case (Inl pc)
      then show ?thesis using g i c by (simp add: processNextItem_def)
    next
      case (Inr r)
      then show ?thesis using g i o by (cases r) (auto simp: processNextItem_def split: option.split)
    qed
  qed
  then show "processNextItem wq event_of handle (q, s) \<noteq> Inl TypeAssertion"
    and "processNextItem wq event_of handle (q, s) = Inr ((q', s'), b) \<Longrightarrow> ok s'" by blast+
qed

text \<open>So the worker keeps the invariant, and no type assertion of it fails, for any queue.\<close>

lemma run_worker_ok:
  assumes "ok s" and "\<forall>i e. event_of i = Some e \<longrightarrow> good e"
  shows "runWorker fuel wq event_of handle (q, s) \<noteq> Inl TypeAssertion
    \<and> (\<forall>q' s' b. runWorker fuel wq event_of handle (q, s) = Inr ((q', s'), b) \<longrightarrow> ok s')"
  using assms(1)
proof (induction fuel arbitrary: q s)
  case 0
  then show ?case by simp
next
  case (Suc fuel)
  note n = next_item_ok [where wq = wq and event_of = event_of and q = q, OF Suc.prems assms(2)]
  show ?case
  proof (cases "processNextItem wq event_of handle (q, s)")
    case (Inl pc)
    then show ?thesis using n(1) by simp
  next
    case (Inr r)
    then obtain q1 s1 b where r: "processNextItem wq event_of handle (q, s) = Inr ((q1, s1), b)"
      by (metis surj_pair)
    have "ok s1" by (rule n(2) [OF r])
    then show ?thesis using r Suc.IH [of s1 q1] by simp
  qed
qed

end

section \<open>ResourceHandler, as the processor sees it\<close>

definition event_kind :: "(object \<Rightarrow> bool) \<Rightarrow> event \<Rightarrow> bool" where
  "event_kind kind ev =
     (case ev of Event key obj \<Rightarrow> kind obj | UpdateEvent key old new \<Rightarrow> kind old \<and> kind new)"

text \<open>\<open>kind\<close> are the objects of the resource the handler is for.\<close>

locale resource_handling =
  fixes created :: "object \<Rightarrow> 's \<Rightarrow> 's go"
    and updated :: "object \<Rightarrow> object \<Rightarrow> 's \<Rightarrow> 's go"
    and deleted :: "object \<Rightarrow> 's \<Rightarrow> 's go"
    and kind :: "object \<Rightarrow> bool"
    and ok :: "'s \<Rightarrow> bool"
  assumes created_ok: "ok s \<Longrightarrow> kind obj \<Longrightarrow> created obj s = Inr s' \<Longrightarrow> ok s'"
    and updated_ok: "ok s \<Longrightarrow> kind new \<Longrightarrow> kind old \<Longrightarrow> updated new old s = Inr s' \<Longrightarrow> ok s'"
    and deleted_ok: "ok s \<Longrightarrow> kind obj \<Longrightarrow> deleted obj s = Inr s' \<Longrightarrow> ok s'"
    and created_cast: "ok s \<Longrightarrow> kind obj \<Longrightarrow> created obj s \<noteq> Inl TypeAssertion"
    and updated_cast: "ok s \<Longrightarrow> kind new \<Longrightarrow> kind old \<Longrightarrow> updated new old s \<noteq> Inl TypeAssertion"
    and deleted_cast: "ok s \<Longrightarrow> kind obj \<Longrightarrow> deleted obj s \<noteq> Inl TypeAssertion"

text \<open>What the processor calls for an event, given whether the key exists.\<close>

definition dispatch ::
    "(object \<Rightarrow> 's \<Rightarrow> 's go) \<Rightarrow> (object \<Rightarrow> object \<Rightarrow> 's \<Rightarrow> 's go) \<Rightarrow> (object \<Rightarrow> 's \<Rightarrow> 's go)
     \<Rightarrow> bool \<Rightarrow> event \<Rightarrow> 's \<Rightarrow> 's go" where
  "dispatch created updated deleted exists ev s =
     (case ev of
        Event key obj \<Rightarrow> if exists then created obj s else deleted obj s
      | UpdateEvent key old new \<Rightarrow> if exists then updated new old s else deleted old s)"

lemma processor_Handle_dispatch:
  "processor_Handle get_by_key created updated deleted ev s =
     (case get_by_key (GetKey ev) of
        Inl err \<Rightarrow> Inr (s, Some err)
      | Inr exists \<Rightarrow> go_bind (dispatch created updated deleted exists ev s) (\<lambda>s'. Inr (s', None)))"
  by (auto simp: processor_Handle_def dispatch_def split: sum.split event.split)

context resource_handling
begin

lemma dispatch_ok:
  "ok s \<Longrightarrow> event_kind kind ev \<Longrightarrow> dispatch created updated deleted exists ev s = Inr s' \<Longrightarrow> ok s'"
  by (cases ev; cases exists)
    (simp_all add: dispatch_def event_kind_def, (blast intro: created_ok updated_ok deleted_ok)+)

lemma dispatch_cast:
  "ok s \<Longrightarrow> event_kind kind ev \<Longrightarrow> dispatch created updated deleted exists ev s \<noteq> Inl TypeAssertion"
  by (cases ev; cases exists)
    (simp_all add: dispatch_def event_kind_def created_cast updated_cast deleted_cast)

end

sublocale resource_handling \<subseteq> processing: event_handling
    "processor_Handle get_by_key created updated deleted" "event_kind kind" ok
  for get_by_key
proof
  fix s e s' err
  assume s: "ok s" "event_kind kind e"
  show "processor_Handle get_by_key created updated deleted e s \<noteq> Inl TypeAssertion"
    using dispatch_cast [OF s]
    by (cases "get_by_key (GetKey e)") (simp_all add: processor_Handle_dispatch go_bind_Inl_iff)
  assume "processor_Handle get_by_key created updated deleted e s = Inr (s', err)"
  then show "ok s'"
    using s dispatch_ok [OF s]
    by (cases "get_by_key (GetKey e)") (auto simp: processor_Handle_dispatch go_bind_Inr_iff)
qed

section \<open>How often an item is tried\<close>

text \<open>
  What the queue's documentation says of the count of requeues: \<open>AddRateLimited\<close> increments the
  item's count, \<open>Forget\<close> clears it, the other operations leave it, and items do not share it.
\<close>

definition requeue_laws :: "('q, 'i) workqueue \<Rightarrow> bool" where
  "requeue_laws wq \<longleftrightarrow>
     (\<forall>q i j. wq_NumRequeues wq (wq_AddRateLimited wq q i) j = wq_NumRequeues wq q j + (if j = i then 1 else 0)
       \<and> wq_NumRequeues wq (wq_Forget wq q i) j = (if j = i then 0 else wq_NumRequeues wq q j)
       \<and> wq_NumRequeues wq (wq_Done wq q i) j = wq_NumRequeues wq q j
       \<and> wq_NumRequeues wq (fst (wq_Get wq q)) j = wq_NumRequeues wq q j)"

text \<open>
  A history of the controller in which the item \<open>i\<close> was taken \<open>n\<close> times and failed each time.
  In between anything may happen that leaves its count: other items, other writers of the queue,
  other changes of the state. The counter \<open>k\<close> is the number of times it was put back.
\<close>

inductive failing ::
    "('q, 'i) workqueue \<Rightarrow> ('i \<Rightarrow> 'e option) \<Rightarrow> ('e \<Rightarrow> 's \<Rightarrow> ('s \<times> goerror option) go) \<Rightarrow> 'i
     \<Rightarrow> 'q \<times> 's \<Rightarrow> nat \<Rightarrow> nat \<Rightarrow> 'q \<times> 's \<Rightarrow> bool"
  for wq event_of handle i qs0 where
  untried: "failing wq event_of handle i qs0 0 0 qs0"
| meanwhile: "failing wq event_of handle i qs0 n k (q, s) \<Longrightarrow> wq_NumRequeues wq q' i = wq_NumRequeues wq q i
    \<Longrightarrow> failing wq event_of handle i qs0 n k (q', s')"
| again: "failing wq event_of handle i qs0 n k (q, s) \<Longrightarrow> wq_Get wq q = (q1, Some i)
    \<Longrightarrow> event_of i = Some e \<Longrightarrow> handle e s = Inr (s1, Some err)
    \<Longrightarrow> processNextItem wq event_of handle (q, s) = Inr ((q2, s2), b)
    \<Longrightarrow> failing wq event_of handle i qs0 (Suc n)
          (if q2 = wq_Done wq (wq_AddRateLimited wq q1 i) i then Suc k else k) (q2, s2)"

lemma next_item_failed:
  assumes "wq_Get wq q = (q1, Some i)" and "event_of i = Some e" and "handle e s = Inr (s1, Some err)"
  shows "processNextItem wq event_of handle (q, s) =
    Inr ((wq_Done wq (if wq_NumRequeues wq q1 i < 5 then wq_AddRateLimited wq q1 i else wq_Forget wq q1 i) i,
          s1), True)"
  using assms by (simp add: processNextItem_def handleError_def maxRequeue_def)

lemma failing_counts:
  assumes "requeue_laws wq" and "failing wq event_of handle i qs0 n k qs"
    and "wq_NumRequeues wq (fst qs0) i = 0"
  shows "wq_NumRequeues wq (fst qs) i = int (n mod 6) \<and> k + (n div 6) = n"
  using assms(2)
proof (induction rule: failing.induct)
  case untried
  then show ?case using assms(3) by simp
next
  case (meanwhile n k q s q' s')
  then show ?case by simp
next
  case (again n k q s q1 e s1 err q2 s2 b)
  have num: "wq_NumRequeues wq q1 i = int (n mod 6)"
    using assms(1) again.IH again.hyps(2) unfolding requeue_laws_def by (metis fst_conv)
  have q2: "q2 = wq_Done wq (if int (n mod 6) < 5 then wq_AddRateLimited wq q1 i else wq_Forget wq q1 i) i"
    using next_item_failed [where event_of = event_of and handle = handle, OF again.hyps(2-4)]
      again.hyps(5) num by simp
  show ?case
  proof (cases "n mod 6 < 5")
    case True
    then have "wq_NumRequeues wq q2 i = int (n mod 6) + 1"
      using assms(1) num q2 by (simp add: requeue_laws_def)
    moreover have "Suc n mod 6 = Suc (n mod 6)" "Suc n div 6 = n div 6"
      using True by (simp_all add: mod_Suc div_Suc)
    ultimately show ?thesis using True again.IH q2 by simp
  next
    case False
    then have m: "n mod 6 = 5" using mod_less_divisor [of 6 n] by linarith
    then have "wq_NumRequeues wq q2 i = 0" using assms(1) q2 by (simp add: requeue_laws_def)
    moreover have "q2 \<noteq> wq_Done wq (wq_AddRateLimited wq q1 i) i"
    proof
      assume "q2 = wq_Done wq (wq_AddRateLimited wq q1 i) i"
      then have "wq_NumRequeues wq q2 i = int (n mod 6) + 1"
        using assms(1) num by (simp add: requeue_laws_def)
      then show False using \<open>wq_NumRequeues wq q2 i = 0\<close> by simp
    qed
    moreover have "Suc n mod 6 = 0" "Suc n div 6 = Suc (n div 6)"
      using m by (simp_all add: mod_Suc div_Suc)
    ultimately show ?thesis using again.IH by simp
  qed
qed

text \<open>
  C34 An event whose handling always fails is tried exactly six times: it is put back five
  times, and after the sixth failure it is dropped with its count cleared, whatever happens to
  the queue and the state in between. In general, of \<open>n\<close> failures every sixth drops the event.
\<close>

theorem failing_event_dropped:
  assumes "requeue_laws wq" and "wq_NumRequeues wq q0 i = 0"
    and "failing wq event_of handle i (q0, s0) n k (q, s)"
  shows "k = n - n div 6 \<and> wq_NumRequeues wq q i = int (n mod 6)
    \<and> (n = 6 \<longleftrightarrow> k = 5 \<and> wq_NumRequeues wq q i = 0)"
proof -
  have c: "wq_NumRequeues wq q i = int (n mod 6)" "k + n div 6 = n"
    using failing_counts [OF assms(1,3)] assms(2) by simp_all
  have "n = 6" if "k = 5" "n mod 6 = 0"
  proof -
    have "n = 6 * (n div 6)" using that(2) by (metis mult_div_mod_eq add_0_right)
    then show ?thesis using that(1) c(2) by linarith
  qed
  moreover have "k = 5" if "n = 6" using c(2) that by simp
  moreover have "k = n - n div 6" using c(2) by simp
  ultimately show ?thesis using c(1) by auto
qed

text \<open>A queue of waiting items and counts, for the example.\<close>

definition list_queue :: "(nat list \<times> (nat \<Rightarrow> int), nat) workqueue" where
  "list_queue =
     \<lparr>wq_Get = (\<lambda>(xs, c). case xs of [] \<Rightarrow> (([], c), None) | x # ys \<Rightarrow> ((ys, c), Some x)),
      wq_Done = (\<lambda>q i. q), wq_Forget = (\<lambda>(xs, c) i. (xs, c(i := 0))),
      wq_NumRequeues = (\<lambda>(xs, c) i. c i),
      wq_AddRateLimited = (\<lambda>(xs, c) i. (xs @ [i], c(i := c i + 1)))\<rparr>"

lemma list_queue_laws: "requeue_laws list_queue"
  by (auto simp: requeue_laws_def list_queue_def split: list.split)

theorem failing_event_dropped_witness:
  "\<exists>k q s. failing list_queue Some (\<lambda>e s. Inr (s + 1, Some (OtherError ''x''))) 7 (([7], \<lambda>i. 0), 0 :: nat) 1 k (q, s)
    \<and> k = 1 \<and> wq_NumRequeues list_queue q 7 = 1"
proof -
  let ?h = "\<lambda>e s. Inr (s + 1, Some (OtherError ''x''))"
  let ?q0 = "([7], \<lambda>i. 0) :: nat list \<times> (nat \<Rightarrow> int)"
  have g: "wq_Get list_queue ?q0 = (([], \<lambda>i. 0), Some 7)" by (simp add: list_queue_def)
  obtain q2 s2 b where p: "processNextItem list_queue Some ?h (?q0, 0 :: nat) = Inr ((q2, s2), b)"
    using next_item_failed [where event_of = Some and handle = ?h and s = 0, OF g refl refl] by blast
  obtain k where f: "failing list_queue Some ?h 7 (?q0, 0) (Suc 0) k (q2, s2)"
    using failing.again [where event_of = Some and handle = ?h, OF failing.untried g refl refl p] by blast
  have z: "wq_NumRequeues list_queue ?q0 7 = 0" by (simp add: list_queue_def)
  have "k = 1 \<and> wq_NumRequeues list_queue q2 7 = 1"
    using failing_event_dropped [OF list_queue_laws z f] by simp
  then show ?thesis using f by (intro exI [of _ k] exI [of _ q2] exI [of _ s2]) simp
qed

end
