(* ===== verification/Crd_Handler.thy ===== *)
theory Crd_Handler
  imports Kube Processor
begin

text \<open>
  \<open>services/controller/internal/infra/k8s/operator/crd/handler.go\<close>: the handler of swarm
  events only reports them. The report is a list of lines that the methods extend; the
  rendering of a swarm and the difference of two, of \<open>go-cmp\<close>, are arguments, as is
  \<open>unicode.IsGraphic\<close>.
\<close>

definition as_swarm :: "object \<Rightarrow> swarm go" where
  "as_swarm obj = (case obj of SwarmObj sw \<Rightarrow> Inr sw | _ \<Rightarrow> Inl TypeAssertion)"

text \<open>\<open>strings.TrimFunc\<close>: the leading and trailing characters that satisfy \<open>f\<close> are dropped.\<close>

definition trim_func :: "(char \<Rightarrow> bool) \<Rightarrow> string \<Rightarrow> string" where
  "trim_func f s = rev (dropWhile f (rev (dropWhile f s)))"

definition crd_Created :: "(swarm \<Rightarrow> string) \<Rightarrow> object \<Rightarrow> string list \<Rightarrow> string list go" where
  "crd_Created show_swarm obj out =
     go_bind (as_swarm obj) (\<lambda>sw. Inr (out @ [''Created Swarm '' @ show_swarm sw]))"

definition crd_Updated ::
    "(swarm \<Rightarrow> swarm \<Rightarrow> string) \<Rightarrow> (char \<Rightarrow> bool) \<Rightarrow> object \<Rightarrow> object \<Rightarrow> string list \<Rightarrow> string list go" where
  "crd_Updated diff is_graphic new old out =
     go_bind (as_swarm new) (\<lambda>swn. go_bind (as_swarm old) (\<lambda>swo.
       let d = diff swo swn;
           cleanDiff = trim_func (\<lambda>r. \<not> is_graphic r) d
       in Inr (out @ [''UPDATE Swarm diff:  '' @ cleanDiff])))"

definition crd_Deleted :: "(swarm \<Rightarrow> string) \<Rightarrow> object \<Rightarrow> string list \<Rightarrow> string list go" where
  "crd_Deleted show_swarm obj out =
     go_bind (as_swarm obj) (\<lambda>sw. Inr (out @ [''Deleted Swarm '' @ show_swarm sw]))"

lemma as_swarm_simps [simp]: "as_swarm (SwarmObj sw) = Inr sw"
  by (simp add: as_swarm_def)

definition is_swarm :: "object \<Rightarrow> bool" where
  "is_swarm obj = (case obj of SwarmObj sw \<Rightarrow> True | _ \<Rightarrow> False)"

lemma is_swarm_iff: "is_swarm obj \<longleftrightarrow> (\<exists>sw. obj = SwarmObj sw)"
  by (simp add: is_swarm_def split: object.split)

interpretation crdh: resource_handling "crd_Created show_swarm" "crd_Updated diff is_graphic"
    "crd_Deleted show_swarm" is_swarm "\<lambda>out. True"
  for show_swarm diff is_graphic
  by unfold_locales
    (auto simp: is_swarm_iff crd_Created_def crd_Updated_def crd_Deleted_def Let_def)

end
