(* ===== verification/Operator.thy ===== *)
theory Operator
  imports Executor Pod_Handler StatefulSet_Handler Crd_Handler
begin

text \<open>
  The controllers of \<open>cmd/internal.go\<close> and \<open>cmd/external.go\<close> put together: for each resource an
  event handler with its selector, a queue, a processor with the handler of the resource, and
  a worker. This theory instantiates the interfaces of \<open>Processor\<close> with the handlers, and
  states what holds from the informer to the pool and on to the published assignation.
\<close>

section \<open>The handlers as resource handlers\<close>

definition is_pod :: "object \<Rightarrow> bool" where
  "is_pod obj = (case obj of PodObj pod \<Rightarrow> True | _ \<Rightarrow> False)"

definition is_stateful_set :: "object \<Rightarrow> bool" where
  "is_stateful_set obj = (case obj of StatefulSetObj ss \<Rightarrow> True | _ \<Rightarrow> False)"

lemma is_pod_iff: "is_pod obj \<longleftrightarrow> (\<exists>pod. obj = PodObj pod)"
  by (simp add: is_pod_def split: object.split)

lemma is_stateful_set_iff: "is_stateful_set obj \<longleftrightarrow> (\<exists>ss. obj = StatefulSetObj ss)"
  by (simp add: is_stateful_set_def split: object.split)

interpretation podh: resource_handling "pod_Created AddWorkerIfNotExists parse_ip"
    "pod_Updated AddWorkerIfNotExists RemoveWorkerByName parse_ip" "pod_Deleted RemoveWorkerByName"
    is_pod pool_inv
  for parse_ip
  by unfold_locales
    (auto simp: is_pod_iff pod_Created_eq pod_Updated_eq pod_Deleted_def pool_inv_add pool_inv_remove)

text \<open>The state behind the stateful set's handler: the pool and the world of its storage.\<close>

definition sts_ok :: "('d \<Rightarrow> workloads \<Rightarrow> ('d \<times> goerror option) go) \<Rightarrow> string range_order
    \<Rightarrow> (assignment_state, 'ip) pool \<times> 'd \<Rightarrow> bool" where
  "sts_ok assign ro pd \<longleftrightarrow> (pool_inv (fst pd) \<and> assignment_inv (p_state (fst pd)) \<and> range_order ro)
     \<and> (\<forall>d w. assign d w \<noteq> Inl TypeAssertion)"

lemma resize_cast:
  assumes "sts_ok assign ro pd"
  shows "UpdateExpectedSize BalanceWorkload Workloads assign ro n pd \<noteq> Inl TypeAssertion"
proof (cases "p_expectedSize (fst pd) = n")
  case True
  then show ?thesis by (cases pd) (simp add: UpdateExpectedSize_def)
next
  case False
  obtain p d where pd: "pd = (p, d)" by (cases pd)
  then have i: "assignment_inv (p_state p)" "pool_inv p" "range_order ro" "p_expectedSize p \<noteq> n"
    "\<And>w. assign d w \<noteq> Inl TypeAssertion"
    using assms False by (simp_all add: sts_ok_def)
  show ?thesis
    by (rule asg.update_spec [OF i(1-4), of assign d]) (use i(5) pd in \<open>auto simp: go_bind_Inl_iff\<close>)
qed

lemma resize_sts_ok:
  assumes "sts_ok assign ro pd" and "UpdateExpectedSize BalanceWorkload Workloads assign ro n pd = Inr pd'"
  shows "sts_ok assign ro pd'"
  using rsz.resize_ok [OF _ assms(2)] assms(1) by (simp add: sts_ok_def)

interpretation stsh: resource_handling
    "sts_Created (UpdateExpectedSize BalanceWorkload Workloads assign ro)"
    "sts_Updated (UpdateExpectedSize BalanceWorkload Workloads assign ro)"
    "sts_Deleted (UpdateExpectedSize BalanceWorkload Workloads assign ro)" is_stateful_set "sts_ok assign ro"
  for assign ro
  by unfold_locales
    (auto simp: is_stateful_set_iff sts_Created_def sts_Updated_def sts_Deleted_def as_statefulSet_def
      replicas_of_def go_bind_Inl_iff go_bind_Inr_iff resize_cast resize_sts_ok split: option.splits)

section \<open>The controllers\<close>

text \<open>\<open>Handle\<close> of the processor of each resource.\<close>

definition pod_handle ::
    "(string \<Rightarrow> goerror + bool) \<Rightarrow> (string \<Rightarrow> 'ip) \<Rightarrow> event \<Rightarrow> ('s, 'ip) pool
     \<Rightarrow> (('s, 'ip) pool \<times> goerror option) go" where
  "pod_handle get_by_key parse_ip =
     processor_Handle get_by_key (pod_Created AddWorkerIfNotExists parse_ip)
       (pod_Updated AddWorkerIfNotExists RemoveWorkerByName parse_ip) (pod_Deleted RemoveWorkerByName)"

definition sts_handle ::
    "(string \<Rightarrow> goerror + bool) \<Rightarrow> ('d \<Rightarrow> workloads \<Rightarrow> ('d \<times> goerror option) go) \<Rightarrow> string range_order
     \<Rightarrow> event \<Rightarrow> (assignment_state, 'ip) pool \<times> 'd
     \<Rightarrow> (((assignment_state, 'ip) pool \<times> 'd) \<times> goerror option) go" where
  "sts_handle get_by_key assign ro =
     processor_Handle get_by_key (sts_Created (UpdateExpectedSize BalanceWorkload Workloads assign ro))
       (sts_Updated (UpdateExpectedSize BalanceWorkload Workloads assign ro))
       (sts_Deleted (UpdateExpectedSize BalanceWorkload Workloads assign ro))"

lemma pod_handle_cases:
  "pod_handle get_by_key parse_ip ev p =
     (case get_by_key (GetKey ev) of
        Inl err \<Rightarrow> Inr (p, Some err)
      | Inr exists \<Rightarrow> go_bind (dispatch (pod_Created AddWorkerIfNotExists parse_ip)
          (pod_Updated AddWorkerIfNotExists RemoveWorkerByName parse_ip) (pod_Deleted RemoveWorkerByName)
          exists ev p) (\<lambda>p'. Inr (p', None)))"
  by (simp add: pod_handle_def processor_Handle_dispatch)

text \<open>Not only do the pods' casts succeed: no step of their handler panics.\<close>

lemma pod_handle_total:
  "event_kind is_pod ev \<Longrightarrow> \<exists>r. pod_handle get_by_key parse_ip ev p = Inr r"
  by (cases ev)
    (auto simp: pod_handle_cases dispatch_def event_kind_def is_pod_iff pod_Created_eq pod_Updated_eq
      pod_Deleted_def split: sum.split)

section \<open>Properties\<close>

text \<open>
  The workers of the two queues are safe for any queue and any informer store: if the queue
  of the pods holds events of pods and that of the stateful sets holds events of stateful sets,
  no type assertion fails in any number of rounds, and every state they reach keeps the pool's
  invariant, and for the second queue the assignation's.
\<close>

theorem workers_keep_invariants:
  assumes "pool_inv p" and "\<forall>i e. event_of i = Some e \<longrightarrow> event_kind is_pod e"
    and "sts_ok assign ro pd" and "\<forall>i e. event_of' i = Some e \<longrightarrow> event_kind is_stateful_set e"
  shows "runWorker fuel wq event_of (pod_handle get_by_key parse_ip) (q, p) \<noteq> Inl TypeAssertion
    \<and> (\<forall>q' p' b. runWorker fuel wq event_of (pod_handle get_by_key parse_ip) (q, p) = Inr ((q', p'), b)
        \<longrightarrow> pool_inv p')
    \<and> runWorker fuel wq' event_of' (sts_handle get_by_key' assign ro) (q0, pd) \<noteq> Inl TypeAssertion
    \<and> (\<forall>q' pd' b. runWorker fuel wq' event_of' (sts_handle get_by_key' assign ro) (q0, pd) = Inr ((q', pd'), b)
        \<longrightarrow> pool_inv (fst pd') \<and> assignment_inv (p_state (fst pd')))"
proof -
  have s: "runWorker fuel wq' event_of' (sts_handle get_by_key' assign ro) (q0, pd) \<noteq> Inl TypeAssertion
    \<and> (\<forall>q' pd' b. runWorker fuel wq' event_of' (sts_handle get_by_key' assign ro) (q0, pd) = Inr ((q', pd'), b)
        \<longrightarrow> sts_ok assign ro pd')"
    unfolding sts_handle_def by (rule stsh.processing.run_worker_ok [OF assms(3,4)])
  have "runWorker fuel wq event_of (pod_handle get_by_key parse_ip) (q, p) \<noteq> Inl TypeAssertion
    \<and> (\<forall>q' p' b. runWorker fuel wq event_of (pod_handle get_by_key parse_ip) (q, p) = Inr ((q', p'), b)
        \<longrightarrow> pool_inv p')"
    unfolding pod_handle_def by (rule podh.processing.run_worker_ok [OF assms(1,2)])
  then show ?thesis using s by (simp add: sts_ok_def)
qed

text \<open>
  C33 A deletion that is handled after a pod of the same name is there again is taken for a
  creation of the deleted pod: the worker is registered, with the IP of the old pod, and if it
  was registered already it stays exactly as it is. Only when the key is gone is the worker
  removed. As a restart deletes a pod that its stateful set creates again under the same name,
  the order of the two decides.
\<close>

theorem stale_delete_keeps_worker:
  assumes "pool_inv p" and "registrable pod" and "get_by_key key = Inr exists"
  shows "\<exists>p'. pod_handle get_by_key parse_ip (Event key (PodObj pod)) p = Inr (p', None)
    \<and> (pod_name pod \<in> mkeys (p_index p') \<longleftrightarrow> exists)
    \<and> (if exists \<and> pod_name pod \<in> mkeys (p_index p) then p' = p else True)"
proof (cases "exists")
  case True
  obtain p' where p': "pod_Created AddWorkerIfNotExists parse_ip (PodObj pod) p = Inr p'"
    "mkeys (p_index p') = mkeys (p_index p) \<union> {pod_name pod}"
    using reg.created_members [OF assms(1), of parse_ip pod] assms(2) by auto
  moreover have "p' = p" if "pod_name pod \<in> mkeys (p_index p)"
    using reg.registered_kept(1) [OF assms(1) that, of parse_ip] p'(1) by simp
  ultimately show ?thesis
    using True assms(3) by (simp add: pod_handle_cases dispatch_def GetKey_def)
next
  case False
  obtain p' where "pod_Deleted RemoveWorkerByName (PodObj pod) p = Inr p'"
    "mkeys (p_index p') = mkeys (p_index p) - {pod_name pod}"
    using reg.deleted_members [OF assms(1), of pod] by auto
  then show ?thesis
    using False assms(3) by (simp add: pod_handle_cases dispatch_def GetKey_def)
qed

text \<open>
  From the informer to the readers: a watched stateful set with \<open>n\<close> replicas that the
  informer adds is queued, and the next item of the worker takes it, resizes the pool to \<open>n\<close> and
  leaves both the config map and the swarm showing the assignation specified for \<open>n\<close> workers,
  when the storages accept it; the item is forgotten and the worker goes on.
\<close>

theorem stateful_set_to_assignation:
  assumes "wiring_ok c" and "assignment_inv (p_state p)" and "pool_inv p" and "range_order ro"
    and "p_expectedSize p \<noteq> n"
    and "watched_by accessor label (StatefulSetObj ss)" and "key_of (StatefulSetObj ss) = Inr key"
    and "st_replicas ss = Some n" and "get_by_key key = Inr True"
    and "wq_Get wq (queue_add q (Event key (StatefulSetObj ss))) = (q1, Some i)"
    and "event_of i = Some (Event key (StatefulSetObj ss))"
    and "UpdateExpectedSize BalanceWorkload Workloads (controller_assign c) ro n (p, k) = Inr (p', k')"
    and "controller_assign c k (Workloads (p_state p')) = Inr (k', None)"
    and "codec_ok (wi_encode c) unmarshal decode (Workloads (p_state p'))"
  shows "\<exists>q' v ver. handler_Add (selector_Validate accessor label) key_of queue_add
        (Some (StatefulSetObj ss)) q = Inr q'
    \<and> processNextItem wq event_of (sts_handle get_by_key (controller_assign c) ro) (q', (p, k)) =
        Inr ((wq_Done wq (wq_Forget wq q1 i) i, (p', k')), True)
    \<and> p_expectedSize p' = n
    \<and> config_shown c unmarshal decode k' = Some (v, ver) \<and> swarm_shown c k' = Some (v, ver)
    \<and> (\<forall>j. v (worker_name (as_setName (p_state p)) j) =
          (if 0 \<le> j \<and> j < n then Some (part_of (as_jobs (p_state p)) n j) else None))"
proof -
  let ?ev = "Event key (StatefulSetObj ss)"
  have "is_runtime_object (StatefulSetObj ss)" by (simp add: is_runtime_object_def)
  then have add: "handler_Add (selector_Validate accessor label) key_of queue_add
      (Some (StatefulSetObj ss)) q = Inr (queue_add q ?ev)"
    using assms(6,7) by (simp add: sel.add_spec)
  have "sts_handle get_by_key (controller_assign c) ro ?ev (p, k) = Inr ((p', k'), None)"
    using assms(8,9,12)
    by (simp add: sts_handle_def processor_Handle_def GetKey_def sts_Created_def as_statefulSet_def
        replicas_of_def)
  then have next_item: "processNextItem wq event_of (sts_handle get_by_key (controller_assign c) ro)
      (queue_add q ?ev, (p, k)) = Inr ((wq_Done wq (wq_Forget wq q1 i) i, (p', k')), True)"
    using assms(10,11) by (simp add: processNextItem_def)
  note shown = update_shown [OF assms(1-5,12-14)]
  show ?thesis using add next_item shown(1,2,3,5) unfolding content_def by blast
qed

theorem stateful_set_to_assignation_witness:
  "\<exists>q' k' v ver. handler_Add (selector_Validate example_accessor ''w'') example_key (\<lambda>q e. q @ [e])
      (Some (StatefulSetObj \<lparr>st_objectMeta = zero_objectMeta\<lparr>om_labels := [(''app'', ''w'')]\<rparr>,
         st_replicas = Some 3\<rparr>)) [] = Inr q'
    \<and> swarm_shown example_wiring k' = Some (v, ver) \<and> v ''w-2'' = Some [Job ''c'']"
proof -
  let ?ss = "\<lparr>st_objectMeta = zero_objectMeta\<lparr>om_labels := [(''app'', ''w'')]\<rparr>, st_replicas = Some 3\<rparr>"
  let ?ev = "Event ''/'' (StatefulSetObj ?ss)"
  let ?add = "\<lambda>q e. q @ [e] :: event list"
  let ?wq = "\<lparr>wq_Get = (\<lambda>q. case q of [] \<Rightarrow> ([], None) | e # es \<Rightarrow> (es, Some e)), wq_Done = (\<lambda>q i. q),
    wq_Forget = (\<lambda>q i. q), wq_NumRequeues = (\<lambda>q i. 0), wq_AddRateLimited = (\<lambda>q i. q)\<rparr> :: (event list, event) workqueue"
  obtain p' k' where u: "UpdateExpectedSize BalanceWorkload Workloads (controller_assign example_wiring) rev 3
       (example_pool, example_cluster) = Inr (p', k')"
    "controller_assign example_wiring example_cluster (Workloads (p_state p')) = Inr (k', None)"
    by (rule example_update)
  have codec: "codec_ok (wi_encode example_wiring) (\<lambda>s. Inr s) (\<lambda>y. Inr (Workloads (p_state p')))
      (Workloads (p_state p'))" by (simp add: codec_ok_def)
  have ne: "p_expectedSize example_pool \<noteq> 3" by (simp add: example_pool_ok)
  have w: "watched_by example_accessor ''w'' (StatefulSetObj ?ss)"
    and key: "example_key (StatefulSetObj ?ss) = Inr ''/''"
    by (simp_all add: watched_by_def example_accessor_def example_key_def zero_objectMeta_def)
  have rep: "st_replicas ?ss = Some 3" and get: "wq_Get ?wq (?add [] ?ev) = ([], Some ?ev)" by simp_all
  obtain q' v ver where r: "handler_Add (selector_Validate example_accessor ''w'') example_key ?add
      (Some (StatefulSetObj ?ss)) [] = Inr q'"
    "swarm_shown example_wiring k' = Some (v, ver)"
    "\<forall>j. v (worker_name (as_setName (p_state example_pool)) j) =
       (if 0 \<le> j \<and> j < 3 then Some (part_of (as_jobs (p_state example_pool)) 3 j) else None)"
    using stateful_set_to_assignation [where get_by_key = "\<lambda>key. Inr True" and event_of = Some and key = "''/''"
        and queue_add = ?add and q = "[]" and wq = ?wq and accessor = example_accessor and key_of = example_key,
        OF example_wiring_ok example_pool_ok(1,2) range_order_rev ne w key rep refl get refl u codec] by blast
  have "worker_name (as_setName (p_state example_pool)) 2 = ''w-2''"
    "part_of (as_jobs (p_state example_pool)) 3 2 = [Job ''c'']" by code_simp+
  then have "v ''w-2'' = Some [Job ''c'']" using spec [OF r(3), of 2] by simp
  then show ?thesis using r(1,2) by blast
qed

theorem stale_delete_keeps_worker_witness:
  "\<exists>p'. pod_handle (\<lambda>key. Inr True) (\<lambda>s. ()) (Event ''swarm/w-1'' (PodObj (sample_pod ''w-1''))) example_pool
      = Inr (p', None) \<and> p' = example_pool"
proof -
  have "''w-1'' = worker_name ''w'' 1" by code_simp
  then have "podIndex (sample_pod ''w-1'') = (1, None)"
    by (intro podIndex_worker_name [of _ "''w''"]) (simp_all add: sample_pod_def)
  moreover have "isReadyPod (sample_pod ''w-1'')" by code_simp
  ultimately have r: "registrable (sample_pod ''w-1'')" by (simp add: registrable_def)
  have "pod_name (sample_pod ''w-1'') \<in> mkeys (p_index example_pool)" by code_simp
  then show ?thesis
    using stale_delete_keeps_worker [OF example_pool_ok(2) r, of "\<lambda>key. Inr True" "''swarm/w-1''" True "\<lambda>s. ()"]
    by auto
qed

theorem workers_keep_invariants_witness:
  "runWorker 3 list_queue (\<lambda>i. Some (Event ''swarm/w-1'' (PodObj (sample_pod ''w-1''))))
     (pod_handle (\<lambda>key. Inr True) (\<lambda>s. ())) (([7], \<lambda>i. 0), example_pool) \<noteq> Inl TypeAssertion"
proof -
  have pods: "\<forall>i e. (\<lambda>i :: nat. Some (Event ''swarm/w-1'' (PodObj (sample_pod ''w-1'')))) i = Some e
      \<longrightarrow> event_kind is_pod e" by (simp add: event_kind_def is_pod_def)
  have sets: "\<forall>i e. (\<lambda>i :: nat. None :: event option) i = Some e \<longrightarrow> event_kind is_stateful_set e" by simp
  have ok: "sts_ok (\<lambda>d w. Inr (d, None)) rev (example_pool, ())"
    by (simp add: sts_ok_def example_pool_ok)
  show ?thesis
    by (rule workers_keep_invariants [where fuel = 3 and wq = list_queue,
          OF example_pool_ok(2) pods ok sets, THEN conjunct1])
qed

end
