(* ===== verification/Runtime_Config.thy ===== *)
theory Runtime_Config
  imports Config
begin

text \<open>
  Start-up and logging: the settings of \<open>pkg/config/config.go\<close> (\<open>SetCoreFlags\<close>,
  \<open>BuildLogger\<close>) and of \<open>services/controller/cmd/root.go\<close> (\<open>init\<close>, \<open>initConfig\<close>), and the
  log formatter and hook of \<open>pkg/log\<close>. A package variable that a flag is bound to is a
  \<open>setting\<close>; \<open>StringVar\<close> of \<open>pflag\<close> stores the default and binds the variable, and the
  command line stores into bound variables in its order. The environment gives the empty string
  for an unset variable.
\<close>

section \<open>Settings\<close>

datatype setting =
    LogLevel | Env | ConfigFile | ConfigFilePath | HttpPort
  | Namespace | WatchLabel | WorkersConfigMapName

record flag_set =
  fs_values :: "setting \<Rightarrow> string"
  fs_flags :: "(string, setting) gomap"

definition StringVar :: "setting \<Rightarrow> string \<Rightarrow> string \<Rightarrow> flag_set \<Rightarrow> flag_set" where
  "StringVar v name value fs =
     fs\<lparr>fs_values := (fs_values fs)(v := value), fs_flags := AList.update name v (fs_flags fs)\<rparr>"

text \<open>\<open>if p := os.Getenv(name); p != "" { v = p }\<close>\<close>

definition from_env :: "(string \<Rightarrow> string) \<Rightarrow> string \<Rightarrow> setting \<Rightarrow> flag_set \<Rightarrow> flag_set" where
  "from_env getenv name v fs =
     (let p = getenv name in if p \<noteq> [] then fs\<lparr>fs_values := (fs_values fs)(v := p)\<rparr> else fs)"

definition SetCoreFlags :: "(string \<Rightarrow> string) \<Rightarrow> string \<Rightarrow> flag_set \<Rightarrow> flag_set" where
  "SetCoreFlags getenv service fs =
     (let fs1 = StringVar LogLevel ''log-level'' ''info'' fs;
          fs2 = StringVar Env ''env'' ''dev'' fs1;
          fs3 = StringVar ConfigFile ''config'' ''config.yml'' fs2;
          fs4 = StringVar ConfigFilePath ''config-path'' (''services/'' @ service @ ''/config'') fs3;
          fs5 = from_env getenv ''CONFIG_PATH'' ConfigFilePath fs4;
          fs6 = StringVar HttpPort ''http-port'' ''9090'' fs5
      in from_env getenv ''HTTP_PORT'' HttpPort fs6)"

text \<open>\<open>init\<close> of \<open>services/controller/cmd/root.go\<close>.\<close>

definition controller_init :: "(string \<Rightarrow> string) \<Rightarrow> flag_set \<Rightarrow> flag_set" where
  "controller_init getenv fs =
     (let fs1 = SetCoreFlags getenv ''controller'' fs;
          fs2 = StringVar Namespace ''namespace'' ''swarm'' fs1;
          fs3 = from_env getenv ''NAMESPACE'' Namespace fs2;
          fs4 = StringVar WatchLabel ''label'' ''swarm-worker'' fs3;
          fs5 = from_env getenv ''WATCHED_LABEL'' WatchLabel fs4;
          fs6 = StringVar WorkersConfigMapName ''configmap'' ''swarm-worker-config'' fs5
      in from_env getenv ''WORKERS_CONFIGMAP_NAME'' WorkersConfigMapName fs6)"

text \<open>The command line, as the flags it sets with their values; an unknown flag is an error.\<close>

fun parse_flags :: "(string \<times> string) list \<Rightarrow> flag_set \<Rightarrow> goerror + flag_set" where
  "parse_flags [] fs = Inr fs"
| "parse_flags ((name, value) # args) fs =
     (case map_of (fs_flags fs) name of
        None \<Rightarrow> Inl (OtherError (''unknown flag: --'' @ name))
      | Some v \<Rightarrow> parse_flags args (fs\<lparr>fs_values := (fs_values fs)(v := value)\<rparr>))"

definition no_flags :: flag_set where
  "no_flags = \<lparr>fs_values = (\<lambda>v. []), fs_flags = []\<rparr>"

section \<open>Logger\<close>

record ('l, 'f) logger =
  lg_level :: 'l
  lg_reportCaller :: bool
  lg_formatter :: 'f
  lg_hooks :: "(string \<times> string) list"

text \<open>A hook is \<open>globalFieldHook\<close>: the service and the environment.\<close>

definition NewGlobalFieldHook :: "string \<Rightarrow> string \<Rightarrow> string \<times> string" where
  "NewGlobalFieldHook service env = (service, env)"

definition Fire :: "string \<times> string \<Rightarrow> (string, string) gomap \<Rightarrow> (string, string) gomap" where
  "Fire h data = AList.update ''env'' (snd h) (AList.update ''service'' (fst h) data)"

definition BuildLogger ::
    "(string \<Rightarrow> goerror + 'l) \<Rightarrow> 'f \<Rightarrow> (setting \<Rightarrow> string) \<Rightarrow> string \<Rightarrow> ('l, 'f) logger
     \<Rightarrow> ('l, 'f) logger \<times> goerror option" where
  "BuildLogger parse_level formatter settings appID lg =
     (case parse_level (settings LogLevel) of
        Inl err \<Rightarrow> (lg, Some (Errorf ''unexpected error parsing level, error '' (Some err)))
      | Inr level \<Rightarrow>
          (lg\<lparr>lg_level := level, lg_reportCaller := True, lg_formatter := formatter,
              lg_hooks := lg_hooks lg @ [NewGlobalFieldHook appID (settings Env)]\<rparr>, None))"

text \<open>
  \<open>initConfig\<close> of the controller: every failure ends the process. The result is the logger and
  the jobs of the configuration file.
\<close>

definition controller_initConfig ::
    "(string \<Rightarrow> goerror + 'l) \<Rightarrow> 'f \<Rightarrow> (string \<Rightarrow> string \<Rightarrow> goerror + 'raw) \<Rightarrow> ('raw \<Rightarrow> goerror + workload)
     \<Rightarrow> (setting \<Rightarrow> string) \<Rightarrow> ('l, 'f) logger \<Rightarrow> (('l, 'f) logger \<times> workload) go" where
  "controller_initConfig parse_level formatter read_config unmarshal settings lg =
     (case BuildLogger parse_level formatter settings ''k8s-swarm-controller'' lg of
        (lg1, Some err) \<Rightarrow> Inl ProcessExit
      | (lg1, None) \<Rightarrow>
          (case read_config (settings ConfigFilePath) (settings ConfigFile) of
             Inl err \<Rightarrow> Inl ProcessExit
           | Inr raw \<Rightarrow>
               (case unmarshal raw of
                  Inl err \<Rightarrow> Inl ProcessExit
                | Inr config \<Rightarrow> Inr (lg1, config))))"

section \<open>Formatter\<close>

text \<open>
  \<open>CallerPrettyfier\<close>: the function's name after its last dot, and the file's after its last
  slash with the line. Name, file and line are the runtime's.
\<close>

definition after_last :: "char \<Rightarrow> string \<Rightarrow> string" where
  "after_last b s = (let i = last_index b s in if i \<noteq> - 1 then drop (nat (i + 1)) s else s)"

definition CallerPrettyfier :: "string \<Rightarrow> string \<Rightarrow> int \<Rightarrow> string \<times> string" where
  "CallerPrettyfier name path line =
     (after_last (CHR ''.'') name, after_last (CHR ''/'') path @ '':'' @ show_int line)"

definition FieldMap :: "(string \<times> string) list" where
  "FieldMap = [(''time'', ''@timestamp''), (''level'', ''@level''), (''msg'', ''@message''),
     (''func'', ''@caller''), (''file'', ''@file'')]"

lemma after_last_append: "b \<notin> set t \<Longrightarrow> after_last b (s @ b # t) = t"
  by (simp add: after_last_def last_index_append nat_add_distrib)

lemma after_last_absent: "b \<notin> set s \<Longrightarrow> after_last b s = s"
  by (simp add: after_last_def last_index_absent)

section \<open>Properties\<close>

text \<open>The last value that the command line gives a flag.\<close>

definition flag_given :: "string \<Rightarrow> (string \<times> string) list \<Rightarrow> string option" where
  "flag_given name args = map_of (rev args) name"

lemma parse_flags_values:
  assumes "parse_flags args fs = Inr fs'" and "inj_on (\<lambda>n. the (map_of (fs_flags fs) n)) (dom (map_of (fs_flags fs)))"
    and "map_of (fs_flags fs) name = Some v"
  shows "fs_values fs' v = (case flag_given name args of Some x \<Rightarrow> x | None \<Rightarrow> fs_values fs v)"
  using assms
proof (induction args arbitrary: fs)
  case Nil
  then show ?case by (simp add: flag_given_def)
next
  case (Cons arg args)
  obtain n x where arg: "arg = (n, x)" by (cases arg)
  obtain u where u: "map_of (fs_flags fs) n = Some u"
    using Cons.prems(1) by (auto simp: arg split: option.splits)
  let ?fs = "fs\<lparr>fs_values := (fs_values fs)(u := x)\<rparr>"
  have IH: "fs_values fs' v = (case flag_given name args of Some y \<Rightarrow> y | None \<Rightarrow> fs_values ?fs v)"
    using Cons.IH [of ?fs] Cons.prems u by (simp add: arg)
  have "u = v \<longleftrightarrow> n = name"
  proof
    assume "u = v"
    then show "n = name"
      using inj_onD [OF Cons.prems(2), of n name] u Cons.prems(3) by (simp add: domI)
  qed (use u Cons.prems(3) in simp)
  then show ?case
    using IH by (auto simp: flag_given_def arg map_add_def split: option.split)
qed

lemma from_env_simps [simp]:
  "fs_flags (from_env getenv n v fs) = fs_flags fs"
  "fs_values (from_env getenv n v fs) u =
     (if u = v \<and> getenv n \<noteq> [] then getenv n else fs_values fs u)"
  by (simp_all add: from_env_def Let_def)

lemma StringVar_simps [simp]:
  "fs_flags (StringVar v n d fs) = AList.update n v (fs_flags fs)"
  "fs_values (StringVar v n d fs) u = (if u = v then d else fs_values fs u)"
  by (simp_all add: StringVar_def)

lemma controller_flags:
  "fs_flags (controller_init getenv no_flags) =
     [(''log-level'', LogLevel), (''env'', Env), (''config'', ConfigFile), (''config-path'', ConfigFilePath),
      (''http-port'', HttpPort), (''namespace'', Namespace), (''label'', WatchLabel),
      (''configmap'', WorkersConfigMapName)]"
  by (simp add: controller_init_def SetCoreFlags_def Let_def no_flags_def)

lemma controller_flags_inj:
  "inj_on (\<lambda>n. the (map_of (fs_flags (controller_init getenv no_flags)) n))
     (dom (map_of (fs_flags (controller_init getenv no_flags))))"
  unfolding controller_flags dom_map_of_conv_image_fst
  by (simp add: inj_on_def)

text \<open>A setting after start-up: its flag, else its environment variable, else its default.\<close>

definition setting_of ::
    "(string \<times> string) list \<Rightarrow> string \<Rightarrow> string option \<Rightarrow> string \<Rightarrow> string" where
  "setting_of args flag env_value otherwise =
     (case flag_given flag args of
        Some x \<Rightarrow> x
      | None \<Rightarrow> (case env_value of Some p \<Rightarrow> if p \<noteq> [] then p else otherwise | None \<Rightarrow> otherwise))"

text \<open>
  Where the controller's settings come from: the last value of its flag on the command line;
  without one the environment variable, for the five settings that have one and if it is not
  empty; else the default. In particular a flag wins over the environment, and the log level,
  the environment's name and the configuration file's name are not read from the environment.
\<close>

theorem controller_settings_precedence:
  assumes "parse_flags args (controller_init getenv no_flags) = Inr fs"
  shows "fs_values fs LogLevel = setting_of args ''log-level'' None ''info''
    \<and> fs_values fs Env = setting_of args ''env'' None ''dev''
    \<and> fs_values fs ConfigFile = setting_of args ''config'' None ''config.yml''
    \<and> fs_values fs ConfigFilePath =
        setting_of args ''config-path'' (Some (getenv ''CONFIG_PATH'')) ''services/controller/config''
    \<and> fs_values fs HttpPort = setting_of args ''http-port'' (Some (getenv ''HTTP_PORT'')) ''9090''
    \<and> fs_values fs Namespace = setting_of args ''namespace'' (Some (getenv ''NAMESPACE'')) ''swarm''
    \<and> fs_values fs WatchLabel = setting_of args ''label'' (Some (getenv ''WATCHED_LABEL'')) ''swarm-worker''
    \<and> fs_values fs WorkersConfigMapName =
        setting_of args ''configmap'' (Some (getenv ''WORKERS_CONFIGMAP_NAME'')) ''swarm-worker-config''"
proof -
  have v: "fs_values fs v = (case flag_given n args of Some x \<Rightarrow> x
      | None \<Rightarrow> fs_values (controller_init getenv no_flags) v)"
    if "map_of (fs_flags (controller_init getenv no_flags)) n = Some v" for n v
    by (rule parse_flags_values [OF assms controller_flags_inj that])
  note v' = v [unfolded controller_flags]
  note init = controller_init_def SetCoreFlags_def Let_def no_flags_def setting_of_def
  have core: "fs_values fs LogLevel = setting_of args ''log-level'' None ''info''"
      "fs_values fs Env = setting_of args ''env'' None ''dev''"
      "fs_values fs ConfigFile = setting_of args ''config'' None ''config.yml''"
    using v' [of "''log-level''" LogLevel] v' [of "''env''" Env] v' [of "''config''" ConfigFile]
    by (simp_all add: init split: option.splits)
  have paths: "fs_values fs ConfigFilePath =
        setting_of args ''config-path'' (Some (getenv ''CONFIG_PATH'')) ''services/controller/config''"
      "fs_values fs HttpPort = setting_of args ''http-port'' (Some (getenv ''HTTP_PORT'')) ''9090''"
    using v' [of "''config-path''" ConfigFilePath] v' [of "''http-port''" HttpPort]
    by (simp_all add: init split: option.splits)
  have cluster: "fs_values fs Namespace = setting_of args ''namespace'' (Some (getenv ''NAMESPACE'')) ''swarm''"
      "fs_values fs WatchLabel = setting_of args ''label'' (Some (getenv ''WATCHED_LABEL'')) ''swarm-worker''"
      "fs_values fs WorkersConfigMapName =
        setting_of args ''configmap'' (Some (getenv ''WORKERS_CONFIGMAP_NAME'')) ''swarm-worker-config''"
    using v' [of "''namespace''" Namespace] v' [of "''label''" WatchLabel]
      v' [of "''configmap''" WorkersConfigMapName]
    by (simp_all add: init split: option.splits)
  show ?thesis using core paths cluster by (intro conjI)
qed

theorem controller_settings_precedence_witness:
  "\<exists>fs. parse_flags [(''namespace'', ''a''), (''namespace'', ''b'')]
       (controller_init (\<lambda>n. if n = ''NAMESPACE'' then ''env'' else []) no_flags) = Inr fs
    \<and> fs_values fs Namespace = ''b''"
proof -
  let ?init = "controller_init (\<lambda>n. if n = ''NAMESPACE'' then ''env'' else []) no_flags"
  let ?args = "[(''namespace'', ''a''), (''namespace'', ''b'')]"
  obtain fs where fs: "parse_flags ?args ?init = Inr fs" by (simp add: controller_flags)
  have "setting_of ?args ''namespace'' (Some ''env'') ''swarm'' = ''b''"
    by (simp add: setting_of_def flag_given_def)
  then show ?thesis using controller_settings_precedence [OF fs] fs by simp
qed

text \<open>
  What the log shows of a caller: the function's name is the part after its last dot and the
  file's the part after its last slash, the whole if there is none, followed by the line.
\<close>

lemma caller_prettified:
  "(\<exists>pkg fn. fst (CallerPrettyfier name path line) = fn \<and> CHR ''.'' \<notin> set fn
      \<and> (name = fn \<or> name = pkg @ CHR ''.'' # fn))
   \<and> (\<exists>dir base. snd (CallerPrettyfier name path line) = base @ '':'' @ show_int line
      \<and> CHR ''/'' \<notin> set base \<and> (path = base \<or> path = dir @ CHR ''/'' # base))"
proof -
  have a: "\<exists>pre suf. after_last b s = suf \<and> b \<notin> set suf \<and> (s = suf \<or> s = pre @ b # suf)" for b s
  proof (cases "b \<in> set s")
    case True
    then obtain pre suf where "s = pre @ b # suf" "b \<notin> set suf" by (meson split_list_last)
    then show ?thesis using after_last_append by blast
  next
    case False
    then show ?thesis using after_last_absent by blast
  qed
  show ?thesis
    using a [of "CHR ''.''" name] a [of "CHR ''/''" path] by (auto simp: CallerPrettyfier_def)
qed

text \<open>
  Every failure of the start-up ends the process, and only then: when it goes on, the logger
  has the configured level and one more hook, which stamps the controller's name and the
  environment on every entry and leaves its other fields.
\<close>

lemma init_config_stamps_entries:
  assumes "controller_initConfig parse_level formatter read_config unmarshal settings lg = Inr (lg', config)"
  shows "parse_level (settings LogLevel) = Inr (lg_level lg')
    \<and> (\<exists>raw. read_config (settings ConfigFilePath) (settings ConfigFile) = Inr raw \<and> unmarshal raw = Inr config)
    \<and> lg_hooks lg' = lg_hooks lg @ [(''k8s-swarm-controller'', settings Env)]
    \<and> map_of (Fire (last (lg_hooks lg')) data) = (map_of data)(''service'' \<mapsto> ''k8s-swarm-controller'', ''env'' \<mapsto> settings Env)"
  using assms
  by (auto simp: controller_initConfig_def BuildLogger_def NewGlobalFieldHook_def Fire_def update_conv'
      split: sum.splits prod.splits option.splits)

end
