(* ===== verification/Worker_Service.thy ===== *)
theory Worker_Service
  imports Executor Runtime_Config
begin

text \<open>
  The worker process: \<open>services/worker/internal/config/config.go\<close> (the assignation loaded from
  the mounted config map), \<open>cmd/root.go\<close>, \<open>internal/app/app.go\<close>, \<open>internal/transport/http/version.go\<close> and
  \<open>updateWorkloadFromConfig\<close> of \<open>cmd/worker.go\<close>. The package variable \<open>workloadsConfig\<close> is a
  state that the functions take and return; each holds the mutex and is one step. The file
  reader and the decoder of \<open>viper\<close>, the environment and the JSON encoder are arguments.
\<close>

section \<open>internal/config\<close>

record worker_config =
  wc_Workload :: "(string, workload option) gomap"
  wc_Version :: int

definition Config_HostWorkLoad ::
    "(worker_config \<Rightarrow> string) \<Rightarrow> worker_config \<Rightarrow> string \<Rightarrow> (goerror + workload option) go" where
  "Config_HostWorkLoad show_config cfg host =
     (case map_of (wc_Workload cfg) host of
        None \<Rightarrow> Inr (Inl (Errorf (''unable to find host '' @ host @ '' keySet config '' @ show_config cfg) None))
      | Some v \<Rightarrow>
          (case v of
             None \<Rightarrow> Inl NilDereference
           | Some w \<Rightarrow> Inr (Inr (Some w))))"

definition HostWorkLoad ::
    "(worker_config \<Rightarrow> string) \<Rightarrow> worker_config \<Rightarrow> string \<Rightarrow> (goerror + workload option) go" where
  "HostWorkLoad show_config workloadsConfig host = Config_HostWorkLoad show_config workloadsConfig host"

definition config_Version :: "worker_config \<Rightarrow> int" where
  "config_Version workloadsConfig = wc_Version workloadsConfig"

definition VersionAdapter_Version :: "worker_config \<Rightarrow> int" where
  "VersionAdapter_Version workloadsConfig = config_Version workloadsConfig"

definition VersionAdapter_Workload ::
    "(worker_config \<Rightarrow> string) \<Rightarrow> string \<Rightarrow> worker_config \<Rightarrow> workload option go" where
  "VersionAdapter_Workload show_config hostName workloadsConfig =
     go_bind (HostWorkLoad show_config workloadsConfig hostName) (\<lambda>r.
       case r of Inl err \<Rightarrow> Inr None | Inr w \<Rightarrow> Inr w)"

text \<open>The environment gives the empty string for an unset variable.\<close>

definition HostName :: "(string \<Rightarrow> string) \<Rightarrow> string \<Rightarrow> string" where
  "HostName getenv defaultHostName =
     (let p = getenv ''HOSTNAME'' in if p = [] then defaultHostName else p)"

text \<open>
  \<open>viper.Unmarshal\<close> decodes into the variable as it is and may leave it changed when it fails.
\<close>

definition LoadConfig ::
    "(string \<Rightarrow> string \<Rightarrow> goerror + 'raw) \<Rightarrow> ('raw \<Rightarrow> worker_config \<Rightarrow> worker_config \<times> goerror option)
     \<Rightarrow> string \<Rightarrow> string \<Rightarrow> worker_config \<Rightarrow> worker_config \<times> goerror option" where
  "LoadConfig read_config unmarshal configFilePath configFile workloadsConfig =
     (case read_config configFilePath configFile of
        Inl err \<Rightarrow> (workloadsConfig,
          Some (Errorf (''unable to load config file '' @ configFile @ '' from path '' @ configFilePath @ '', error '')
            (Some err)))
      | Inr raw \<Rightarrow>
          (case unmarshal raw workloadsConfig of
             (cfg, Some err) \<Rightarrow> (cfg, Some (Errorf ''unable to unMarshall config, error '' (Some err)))
           | (cfg, None) \<Rightarrow> (cfg, None)))"

text \<open>\<open>initConfig\<close> of \<open>cmd/root.go\<close>: every failure ends the process.\<close>

definition worker_initConfig ::
    "(string \<Rightarrow> goerror + 'l) \<Rightarrow> 'f \<Rightarrow> (string \<Rightarrow> string \<Rightarrow> goerror + 'raw)
     \<Rightarrow> ('raw \<Rightarrow> worker_config \<Rightarrow> worker_config \<times> goerror option) \<Rightarrow> (setting \<Rightarrow> string)
     \<Rightarrow> ('l, 'f) logger \<times> worker_config \<Rightarrow> (('l, 'f) logger \<times> worker_config) go" where
  "worker_initConfig parse_level formatter read_config unmarshal settings lc =
     (case BuildLogger parse_level formatter settings ''swarm-worker'' (fst lc) of
        (lg1, Some err) \<Rightarrow> Inl ProcessExit
      | (lg1, None) \<Rightarrow>
          (case LoadConfig read_config unmarshal (settings ConfigFilePath) (settings ConfigFile) (snd lc) of
             (cfg1, Some err) \<Rightarrow> Inl ProcessExit
           | (cfg1, None) \<Rightarrow> Inr (lg1, cfg1)))"

section \<open>internal/app\<close>

type_synonym app = "workload option"

definition NewApp :: app where
  "NewApp = None"

definition App_Assign :: "app \<Rightarrow> workload option \<Rightarrow> (app \<times> goerror option) go" where
  "App_Assign a w =
     (case w of
        None \<Rightarrow> Inl NilDereference
      | Some v \<Rightarrow>
          (case a of
             None \<Rightarrow> Inr (w, None)
           | Some state \<Rightarrow>
               go_bind (Difference a w) (\<lambda>(i, e).
                 if length i = 0 \<and> length e = 0 then Inr (a, None) else Inr (a, None))))"

section \<open>cmd/worker.go\<close>

definition DefaultHostName :: string where
  "DefaultHostName = ''swarm-worker-0''"

definition updateWorkloadFromConfig ::
    "(string \<Rightarrow> string \<Rightarrow> goerror + 'raw) \<Rightarrow> ('raw \<Rightarrow> worker_config \<Rightarrow> worker_config \<times> goerror option)
     \<Rightarrow> (worker_config \<Rightarrow> string) \<Rightarrow> (string \<Rightarrow> string) \<Rightarrow> string \<Rightarrow> string
     \<Rightarrow> worker_config \<times> app \<Rightarrow> ((worker_config \<times> app) \<times> goerror option) go" where
  "updateWorkloadFromConfig read_config unmarshal show_config getenv configFilePath configFile ca =
     (let (cfg, a) = ca in
      case LoadConfig read_config unmarshal configFilePath configFile cfg of
        (cfg1, Some err) \<Rightarrow> Inl ProcessExit
      | (cfg1, None) \<Rightarrow>
          go_bind (HostWorkLoad show_config cfg1 (HostName getenv DefaultHostName)) (\<lambda>r.
            case r of
              Inl err \<Rightarrow> Inr ((cfg1, a), None)
            | Inr wl \<Rightarrow>
                go_bind (App_Assign a wl) (\<lambda>(a1, err).
                  case err of
                    Some e \<Rightarrow> Inr ((cfg1, a1), Some (Errorf ''unable to start manager, error '' (Some e)))
                  | None \<Rightarrow> Inr ((cfg1, a1), None))))"

section \<open>internal/transport/http/version.go\<close>

record response =
  rs_headers :: "(string, string) gomap"
  rs_body :: string

text \<open>
  \<open>versionHandler\<close> asks the accessor five times in turn, and the configuration may be
  reloaded between two of them: \<open>at i\<close> is the configuration at question \<open>i\<close>, from 0 on. The
  answer to the first question, a version, is only logged.
\<close>

definition versionHandler ::
    "(workload \<Rightarrow> goerror + string) \<Rightarrow> (worker_config \<Rightarrow> string) \<Rightarrow> string \<Rightarrow> (nat \<Rightarrow> worker_config)
     \<Rightarrow> response \<Rightarrow> response go" where
  "versionHandler encode show_config hostName at w =
     (let w1 = w\<lparr>rs_headers := AList.update ''Content-Type'' ''application/json'' (rs_headers w)\<rparr>
      in go_bind (VersionAdapter_Workload show_config hostName (at 1)) (\<lambda>logged.
         go_bind (VersionAdapter_Workload show_config hostName (at 2)) (\<lambda>asked.
         go_bind
           (case asked of
              None \<Rightarrow> Inr []
            | Some _ \<Rightarrow>
                go_bind (VersionAdapter_Workload show_config hostName (at 3)) (\<lambda>again.
                  case again of None \<Rightarrow> Inl NilDereference | Some v \<Rightarrow> Inr (wl_jobs v)))
           (\<lambda>jobs.
             let wrk = \<lparr>wl_jobs = jobs, wl_version = VersionAdapter_Version (at 4)\<rparr>
             in case encode wrk of
                  Inl err \<Rightarrow> Inr w1
                | Inr body \<Rightarrow> Inr (w1\<lparr>rs_body := rs_body w1 @ body\<rparr>)))))"

section \<open>pkg/infra/transport/http/health.go\<close>

record checker =
  ck_version :: string
  ck_date :: string

definition NewChecker :: "string \<Rightarrow> string \<Rightarrow> checker" where
  "NewChecker commitVersion date = \<lparr>ck_version = commitVersion, ck_date = date\<rparr>"

definition healthHandler ::
    "((string, string) gomap \<Rightarrow> goerror + string) \<Rightarrow> checker \<Rightarrow> response \<Rightarrow> response" where
  "healthHandler encode a w =
     (let w1 = w\<lparr>rs_headers := AList.update ''Content-Type'' ''application/json'' (rs_headers w)\<rparr>;
          res = [(''version'', ck_version a), (''date'', ck_date a)]
      in case encode res of
           Inl err \<Rightarrow> w1
         | Inr body \<Rightarrow> w1\<lparr>rs_body := rs_body w1 @ body\<rparr>)"

section \<open>Properties\<close>

text \<open>A sequence of assignations, as the reloads of the configuration deliver them.\<close>

fun App_Assigns :: "app \<Rightarrow> workload option list \<Rightarrow> app go" where
  "App_Assigns a [] = Inr a"
| "App_Assigns a (w # ws) = go_bind (App_Assign a w) (\<lambda>(a', err). App_Assigns a' ws)"

lemma App_Assign_running: "App_Assign (Some a) (Some w) = Inr (Some a, None)"
  by (simp add: App_Assign_def Difference_eq)

text \<open>
  The application keeps its first workload for ever: after any sequence of assignations the
  state is the first one, so every difference is computed against it and not against the
  workload that was assigned last; and no assignation ever returns an error.
\<close>

theorem app_keeps_first_workload:
  "App_Assigns NewApp (map Some (w # ws)) = Inr (Some w)
   \<and> App_Assign (Some w) (Some v) = Inr (Some w, None) \<and> App_Assign NewApp (Some v) = Inr (Some v, None)"
proof -
  have "App_Assigns (Some w) (map Some ws) = Inr (Some w)"
    by (induction ws) (simp_all add: App_Assign_running)
  moreover have "App_Assign NewApp (Some v) = Inr (Some v, None)" for v
    by (simp add: App_Assign_def NewApp_def)
  ultimately show ?thesis by (simp add: App_Assign_running)
qed

text \<open>What the handler answers while the configuration stays the same.\<close>

lemma version_answer:
  assumes "no_nil (wc_Workload cfg)"
    and "encode \<lparr>wl_jobs = (case jobs_at (wc_Workload cfg) host of None \<Rightarrow> [] | Some js \<Rightarrow> js),
           wl_version = wc_Version cfg\<rparr> = Inr body"
  shows "versionHandler encode show_config host (\<lambda>i. cfg) \<lparr>rs_headers = [], rs_body = []\<rparr> =
    Inr \<lparr>rs_headers = [(''Content-Type'', ''application/json'')], rs_body = body\<rparr>"
proof (cases "map_of (wc_Workload cfg) host")
  case None
  then show ?thesis
    using assms(2)
    by (simp add: versionHandler_def VersionAdapter_Version_def config_Version_def VersionAdapter_Workload_def
        HostWorkLoad_def Config_HostWorkLoad_def jobs_at_def)
next
  case (Some x)
  then obtain w where "x = Some w" using no_nil_lookup [OF assms(1)] by blast
  then show ?thesis
    using assms(2) Some
    by (simp add: versionHandler_def VersionAdapter_Version_def config_Version_def VersionAdapter_Workload_def
        HostWorkLoad_def Config_HostWorkLoad_def jobs_at_def)
qed

text \<open>
  What the controller reads of a worker is what the worker was configured with: the answer of
  the worker's \<open>/internal/version\<close>, with a configuration that is not reloaded meanwhile, decoded
  by the controller's \<open>Assignation\<close>, carries the jobs of the worker's own host, none if the host
  has no entry, and the version of the whole configuration, not that of the workload.
\<close>

theorem worker_version_round_trip:
  assumes "no_nil (wc_Workload cfg)"
    and "decode body = Inr \<lparr>wl_jobs = (case jobs_at (wc_Workload cfg) host of None \<Rightarrow> [] | Some js \<Rightarrow> js),
           wl_version = wc_Version cfg\<rparr>"
    and "encode \<lparr>wl_jobs = (case jobs_at (wc_Workload cfg) host of None \<Rightarrow> [] | Some js \<Rightarrow> js),
           wl_version = wc_Version cfg\<rparr> = Inr body"
    and "new_request (url_text (remote_url (show_ip IP) port)) = Inr req"
  shows "\<exists>r. versionHandler encode show_config host (\<lambda>i. cfg) \<lparr>rs_headers = [], rs_body = []\<rparr> = Inr r
    \<and> VersionProvider_Assignation url_text new_request (\<lambda>rq. Inr (200, rs_body r)) decode show_ip port IP =
        Inr (Some \<lparr>wl_jobs = (case jobs_at (wc_Workload cfg) host of None \<Rightarrow> [] | Some js \<Rightarrow> js),
               wl_version = wc_Version cfg\<rparr>)"
  using version_answer [where encode = encode and cfg = cfg and host = host, OF assms(1,3)] assms(2,4) by (simp add: VersionProvider_Assignation_def)

theorem worker_version_round_trip_witness:
  "\<exists>r :: response. VersionProvider_Assignation url_host (\<lambda>u. Inr u) (\<lambda>rq. Inr (200, rs_body r))
      (\<lambda>b. Inr \<lparr>wl_jobs = [Job ''a''], wl_version = 5\<rparr>) (\<lambda>ip. ip) ''9090'' ''10.0.0.1'' =
    Inr (Some \<lparr>wl_jobs = [Job ''a''], wl_version = 5\<rparr>)"
proof -
  let ?cfg = "\<lparr>wc_Workload = [(''w-0'', Some \<lparr>wl_jobs = [Job ''a''], wl_version = 0\<rparr>)], wc_Version = 5\<rparr>"
  let ?w = "\<lparr>wl_jobs = (case jobs_at (wc_Workload ?cfg) ''w-0'' of None \<Rightarrow> [] | Some js \<Rightarrow> js),
    wl_version = wc_Version ?cfg\<rparr>"
  have w: "?w = \<lparr>wl_jobs = [Job ''a''], wl_version = 5\<rparr>" by (simp add: jobs_at_def)
  have n: "no_nil (wc_Workload ?cfg)" by (simp add: no_nil_def)
  have d: "(\<lambda>b :: string. Inr ?w :: goerror + workload) ''json'' = Inr ?w"
    and e: "(\<lambda>w :: workload. Inr ''json'' :: goerror + string) ?w = Inr ''json''" by simp_all
  have q: "(\<lambda>u :: string. Inr u :: goerror + string)
      (url_host (remote_url ((\<lambda>ip :: string. ip) ''10.0.0.1'') ''9090'')) = Inr ''10.0.0.1:9090''"
    by (simp add: remote_url_def)
  from worker_version_round_trip [where cfg = ?cfg and host = "''w-0''" and body = "''json''"
      and decode = "\<lambda>b. Inr ?w" and encode = "\<lambda>w. Inr ''json''" and new_request = "\<lambda>u. Inr u"
      and url_text = url_host and show_ip = "\<lambda>ip. ip" and IP = "''10.0.0.1''" and port = "''9090''"
      and show_config = "\<lambda>c. []", OF n d e q]
  show ?thesis unfolding w by blast
qed

text \<open>
  What the documentation of \<open>mapstructure\<close> says of decoding into a map that is there already,
  without \<open>ZeroFields\<close>: the map is merged, the entries of the file are stored over the old ones.
  \<open>file_entries raw\<close> are the workloads of the file.
\<close>

definition merge_law ::
    "('raw \<Rightarrow> worker_config \<Rightarrow> worker_config \<times> goerror option)
     \<Rightarrow> ('raw \<Rightarrow> (string, workload option) gomap) \<Rightarrow> bool" where
  "merge_law unmarshal file_entries \<longleftrightarrow> (\<forall>raw cfg cfg'. unmarshal raw cfg = (cfg', None)
     \<longrightarrow> (\<forall>h. map_of (wc_Workload cfg') h = (case map_of (file_entries raw) h of
            Some w \<Rightarrow> Some w | None \<Rightarrow> map_of (wc_Workload cfg) h)))"

text \<open>
  A worker that a new assignation leaves out goes on with its old one: when the reloaded file
  has no entry for the host, the load succeeds, \<open>HostWorkLoad\<close> still finds the workload of an
  earlier load, and it is assigned again; for a host of the file the reload is seen.
\<close>

theorem reload_keeps_removed_host:
  assumes "merge_law unmarshal file_entries" and "read_config path name = Inr raw"
    and "unmarshal raw cfg = (cfg', None)"
    and "map_of (wc_Workload cfg) (HostName getenv DefaultHostName) = Some (Some w)"
    and "no_nil (file_entries raw)"
  shows "\<exists>v. updateWorkloadFromConfig read_config unmarshal show_config getenv path name (cfg, a) =
      Inr ((cfg', case a of None \<Rightarrow> Some v | Some u \<Rightarrow> Some u), None)
    \<and> HostWorkLoad show_config cfg' (HostName getenv DefaultHostName) = Inr (Inr (Some v))
    \<and> (case map_of (file_entries raw) (HostName getenv DefaultHostName) of
         None \<Rightarrow> v = w | Some u \<Rightarrow> u = Some v)"
proof -
  let ?h = "HostName getenv DefaultHostName"
  have look: "map_of (wc_Workload cfg') ?h = (case map_of (file_entries raw) ?h of
      Some u \<Rightarrow> Some u | None \<Rightarrow> Some (Some w))"
    using assms(1,3,4) unfolding merge_law_def by (simp split: option.split)
  obtain v where v: "map_of (wc_Workload cfg') ?h = Some (Some v)"
    "case map_of (file_entries raw) ?h of None \<Rightarrow> v = w | Some u \<Rightarrow> u = Some v"
    using look no_nil_lookup [OF assms(5)] by (cases "map_of (file_entries raw) ?h") auto
  then have "HostWorkLoad show_config cfg' ?h = Inr (Inr (Some v))"
    by (simp add: HostWorkLoad_def Config_HostWorkLoad_def)
  moreover from this have "updateWorkloadFromConfig read_config unmarshal show_config getenv path name (cfg, a)
      = Inr ((cfg', case a of None \<Rightarrow> Some v | Some u \<Rightarrow> Some u), None)"
    using assms(2,3)
    by (cases a) (simp_all add: updateWorkloadFromConfig_def LoadConfig_def App_Assign_running
        App_Assign_def [of None])
  ultimately show ?thesis using v(2) by blast
qed

theorem reload_keeps_removed_host_witness:
  "\<exists>cfg'. HostWorkLoad (\<lambda>c. []) cfg' ''swarm-worker-0'' =
     Inr (Inr (Some \<lparr>wl_jobs = [Job ''a''], wl_version = 0\<rparr>))"
proof -
  let ?w = "\<lparr>wl_jobs = [Job ''a''], wl_version = 0\<rparr>"
  let ?cfg = "\<lparr>wc_Workload = [(''swarm-worker-0'', Some ?w)], wc_Version = 1\<rparr>"
  let ?unmarshal = "\<lambda>(raw :: (string, workload option) gomap) cfg. (cfg\<lparr>wc_Workload := raw @ wc_Workload cfg\<rparr>, None)"
  have m: "merge_law ?unmarshal (\<lambda>raw. raw)"
    by (auto simp: merge_law_def map_add_def split: option.split)
  have r: "(\<lambda>path name. Inr []) ''path'' ''config.yml'' = (Inr [] :: goerror + (string, workload option) gomap)"
    by simp
  have u: "?unmarshal [] ?cfg = (?cfg, None)" by simp
  have h: "map_of (wc_Workload ?cfg) (HostName (\<lambda>v. []) DefaultHostName) = Some (Some ?w)"
    by (simp add: HostName_def DefaultHostName_def)
  have n: "no_nil ((\<lambda>raw. raw) ([] :: (string, workload option) gomap))" by (simp add: no_nil_def)
  have "HostWorkLoad (\<lambda>c. []) ?cfg (HostName (\<lambda>v. []) DefaultHostName) = Inr (Inr (Some ?w))"
    using reload_keeps_removed_host [where unmarshal = ?unmarshal and file_entries = "\<lambda>raw. raw"
        and read_config = "\<lambda>path name. Inr []" and raw = "[]" and cfg = ?cfg and cfg' = ?cfg
        and getenv = "\<lambda>v. []" and w = ?w and show_config = "\<lambda>c. []" and a = NewApp, OF m r u h n]
    by simp
  moreover have "HostName (\<lambda>v. []) DefaultHostName = ''swarm-worker-0''"
    by (simp add: HostName_def DefaultHostName_def)
  ultimately show ?thesis by metis
qed

end
