(* ===== verification/Deep_Copy.thy ===== *)
theory Deep_Copy
  imports Main
begin

text \<open>
  What a generated deep copy does, over an explicit store: the loop over a slice, the copy behind
  a pointer, and the contract they keep. What the copies are for is that nothing behind a copy is
  shared with the original, so pointers and the arrays behind slices are addresses of cells here.
  \<open>Swarm_Copies\<close> instantiates this with the types of \<open>zz_generated.deepcopy.go\<close>.
\<close>

section \<open>Store\<close>

text \<open>
  A store is a list of cells, allocation appends. A cell is an array, and a variable allocated
  with \<open>new\<close> an array of length one. A slice is nil or an address with an offset and a length;
  a pointer is nil or an address with an index. \<open>dest\<close> reads a cell as an array of one element
  type; the language's types see to it that it is one, which is part of \<open>slice_ok\<close>.
\<close>

datatype slice = NilSlice | Slice nat nat nat

type_synonym pointer = "(nat \<times> nat) option"

definition array :: "('c \<Rightarrow> 'v list option) \<Rightarrow> 'c list \<Rightarrow> nat \<Rightarrow> 'v list" where
  "array dest h a =
     (if a < length h then (case dest (h ! a) of Some vs \<Rightarrow> vs | None \<Rightarrow> []) else [])"

definition elements :: "('c \<Rightarrow> 'v list option) \<Rightarrow> 'c list \<Rightarrow> slice \<Rightarrow> 'v list" where
  "elements dest h s =
     (case s of NilSlice \<Rightarrow> [] | Slice a off len \<Rightarrow> take len (drop off (array dest h a)))"

definition slice_ok :: "('c \<Rightarrow> 'v list option) \<Rightarrow> 'c list \<Rightarrow> slice \<Rightarrow> bool" where
  "slice_ok dest h s =
     (case s of NilSlice \<Rightarrow> True
      | Slice a off len \<Rightarrow> a < length h \<and> off + len \<le> length (array dest h a))"

definition extends :: "'c list \<Rightarrow> 'c list \<Rightarrow> bool" where
  "extends h h' \<longleftrightarrow> length h \<le> length h' \<and> (\<forall>a < length h. h' ! a = h ! a)"

text \<open>
  \<open>for i := range *in { (*in)[i].DeepCopyInto(&(*out)[i]) }\<close>, with \<open>n\<close> elements to go from the
  index \<open>i\<close> and the new array at \<open>b\<close>; and the statement around it, which leaves nil as it is.
  \<open>copy(*out, *in)\<close> is the same with elements that are just assigned.
\<close>

fun copy_loop ::
    "('v \<Rightarrow> 'c list \<Rightarrow> 'v \<times> 'c list) \<Rightarrow> ('c \<Rightarrow> 'v list option) \<Rightarrow> ('v list \<Rightarrow> 'c) \<Rightarrow> slice \<Rightarrow> nat
     \<Rightarrow> nat \<Rightarrow> nat \<Rightarrow> 'c list \<Rightarrow> 'c list" where
  "copy_loop copy dest mk src b i 0 h = h"
| "copy_loop copy dest mk src b i (Suc n) h =
     (let (v, h1) = copy (elements dest h src ! i) h
      in copy_loop copy dest mk src b (i + 1) n (h1[b := mk ((array dest h1 b)[i := v])]))"

definition slice_copy ::
    "('v \<Rightarrow> 'c list \<Rightarrow> 'v \<times> 'c list) \<Rightarrow> 'v \<Rightarrow> ('c \<Rightarrow> 'v list option) \<Rightarrow> ('v list \<Rightarrow> 'c) \<Rightarrow> slice
     \<Rightarrow> 'c list \<Rightarrow> slice \<times> 'c list" where
  "slice_copy copy zero dest mk s h =
     (case s of
        NilSlice \<Rightarrow> (NilSlice, h)
      | Slice a off len \<Rightarrow>
          (let b = length h; h1 = h @ [mk (replicate len zero)]
           in (Slice b 0 len, copy_loop copy dest mk s b 0 len h1)))"

definition assign_elem :: "'v \<Rightarrow> 'c list \<Rightarrow> 'v \<times> 'c list" where
  "assign_elem v h = (v, h)"

text \<open>\<open>DeepCopy\<close>: nil stays nil, otherwise \<open>new\<close> and \<open>DeepCopyInto\<close>.\<close>

definition new_copy ::
    "('v \<Rightarrow> 'c list \<Rightarrow> 'v \<times> 'c list) \<Rightarrow> 'v \<Rightarrow> ('c \<Rightarrow> 'v list option) \<Rightarrow> ('v list \<Rightarrow> 'c) \<Rightarrow> pointer
     \<Rightarrow> 'c list \<Rightarrow> pointer \<times> 'c list" where
  "new_copy copy zero dest mk p h =
     (case p of
        None \<Rightarrow> (None, h)
      | Some (a, i) \<Rightarrow>
          (let b = length h; h1 = h @ [mk [zero]];
               (v, h2) = copy (array dest h1 a ! i) h1
           in (Some (b, 0), h2[b := mk [v]])))"

section \<open>The contract of a deep copy\<close>

text \<open>
  \<open>reads h v\<close> is the value behind \<open>v\<close> with everything it refers to, \<open>fp h v\<close> the addresses it
  refers to. A copy only allocates, reads as the original did, and refers to new cells only; what
  a value reads as depends on the cells it refers to and on no others.
\<close>

locale deep_copier =
  fixes copy :: "'v \<Rightarrow> 'c list \<Rightarrow> 'v \<times> 'c list"
    and reads :: "'c list \<Rightarrow> 'v \<Rightarrow> 'a"
    and fp :: "'c list \<Rightarrow> 'v \<Rightarrow> nat set"
    and ok :: "'c list \<Rightarrow> 'v \<Rightarrow> bool"
  assumes copy_spec: "ok h v \<Longrightarrow> copy v h = (v', h') \<Longrightarrow>
      extends h h' \<and> ok h' v' \<and> reads h' v' = reads h v \<and> fp h' v' \<subseteq> {length h..<length h'}"
    and fp_allocated: "ok h v \<Longrightarrow> fp h v \<subseteq> {..<length h}"
    and frame: "ok h v \<Longrightarrow> length h \<le> length g \<Longrightarrow> \<forall>a \<in> fp h v. g ! a = h ! a \<Longrightarrow>
      ok g v \<and> reads g v = reads h v \<and> fp g v = fp h v"
begin

lemma extends_frame:
  assumes "ok h v" and "extends h g"
  shows "ok g v \<and> reads g v = reads h v \<and> fp g v = fp h v"
proof (rule frame [OF assms(1)])
  show "length h \<le> length g" using assms(2) by (simp add: extends_def)
  show "\<forall>a \<in> fp h v. g ! a = h ! a"
    using fp_allocated [OF assms(1)] assms(2) by (auto simp: extends_def)
qed

text \<open>Original and copy are isolated: writes to the cells of one do not show in the other.\<close>

lemma isolated:
  assumes "ok h v" and "copy v h = (v', h')" and "length g = length h'"
  shows "\<forall>a < length h. g ! a = h ! a \<Longrightarrow> reads g v = reads h v"
    and "\<forall>a \<in> {length h..<length h'}. g ! a = h' ! a \<Longrightarrow> reads g v' = reads h v"
proof -
  have c: "extends h h'" "ok h' v'" "reads h' v' = reads h v" "fp h' v' \<subseteq> {length h..<length h'}"
    using copy_spec [OF assms(1,2)] by blast+
  show "reads g v = reads h v" if "\<forall>a < length h. g ! a = h ! a"
    using extends_frame [OF assms(1), of g] that c(1) assms(3) by (simp add: extends_def)
  show "reads g v' = reads h v" if "\<forall>a \<in> {length h..<length h'}. g ! a = h' ! a"
    using frame [OF c(2), of g] that c(3,4) assms(3) by auto
qed

end

lemma extends_refl [simp]: "extends h h"
  by (simp add: extends_def)

lemma extends_trans: "extends h g \<Longrightarrow> extends g k \<Longrightarrow> extends h k"
  by (simp add: extends_def)

lemma extends_append [simp]: "extends h (h @ k)"
  by (simp add: extends_def nth_append)

lemma extends_array: "extends h g \<Longrightarrow> a < length h \<Longrightarrow> array dest g a = array dest h a"
  by (simp add: extends_def array_def)


section \<open>Copies of slices and of variables\<close>

definition slice_reads :: "('c list \<Rightarrow> 'v \<Rightarrow> 'a) \<Rightarrow> ('c \<Rightarrow> 'v list option) \<Rightarrow> 'c list \<Rightarrow> slice \<Rightarrow> 'a list option" where
  "slice_reads reads dest h s =
     (case s of NilSlice \<Rightarrow> None | Slice a off len \<Rightarrow> Some (map (reads h) (elements dest h s)))"

definition slice_fp :: "('c list \<Rightarrow> 'v \<Rightarrow> nat set) \<Rightarrow> ('c \<Rightarrow> 'v list option) \<Rightarrow> 'c list \<Rightarrow> slice \<Rightarrow> nat set" where
  "slice_fp fp dest h s =
     (case s of NilSlice \<Rightarrow> {} | Slice a off len \<Rightarrow> insert a (\<Union>v \<in> set (elements dest h s). fp h v))"

definition slice_fit :: "('c list \<Rightarrow> 'v \<Rightarrow> bool) \<Rightarrow> ('c \<Rightarrow> 'v list option) \<Rightarrow> 'c list \<Rightarrow> slice \<Rightarrow> bool" where
  "slice_fit ok dest h s \<longleftrightarrow> slice_ok dest h s \<and> list_all (ok h) (elements dest h s)"

lemma elements_length: "slice_ok dest h (Slice a off len) \<Longrightarrow> length (elements dest h (Slice a off len)) = len"
  by (auto simp: slice_ok_def elements_def)

lemma elements_extends:
  "slice_ok dest h s \<Longrightarrow> extends h g \<Longrightarrow> elements dest g s = elements dest h s"
  by (cases s) (auto simp: slice_ok_def elements_def extends_array)

locale array_copier = deep_copier copy reads fp ok
  for copy :: "'v \<Rightarrow> 'c list \<Rightarrow> 'v \<times> 'c list" and reads :: "'c list \<Rightarrow> 'v \<Rightarrow> 'a" and fp and ok +
  fixes dest :: "'c \<Rightarrow> 'v list option" and mk :: "'v list \<Rightarrow> 'c" and zero :: 'v
  assumes dest_mk [simp]: "dest (mk vs) = Some vs"
begin

text \<open>What the loop has done when \<open>i\<close> elements are copied into the array at \<open>length h\<close>.\<close>

definition copied :: "'c list \<Rightarrow> 'v list \<Rightarrow> nat \<Rightarrow> 'c list \<Rightarrow> bool" where
  "copied h es i g \<longleftrightarrow> extends h g \<and> length h < length g \<and> length (array dest g (length h)) = length es
     \<and> (\<forall>j < i. ok g (array dest g (length h) ! j) \<and> reads g (array dest g (length h) ! j) = reads h (es ! j)
          \<and> fp g (array dest g (length h) ! j) \<subseteq> {Suc (length h)..<length g})"

lemma copied_step:
  assumes "copied h es i g" and "i < length es" and "ok h (es ! i)" and "copy (es ! i) g = (v, g1)"
  shows "copied h es (i + 1) (g1[length h := mk ((array dest g1 (length h))[i := v])])"
proof -
  let ?b = "length h" and ?outs = "array dest g (length h)"
  have g: "extends h g" "?b < length g" "length ?outs = length es"
    and past: "\<forall>j < i. ok g (?outs ! j) \<and> reads g (?outs ! j) = reads h (es ! j)
        \<and> fp g (?outs ! j) \<subseteq> {Suc ?b..<length g}"
    using assms(1) by (simp_all add: copied_def)
  have e: "ok g (es ! i)" "reads g (es ! i) = reads h (es ! i)"
    using extends_frame [OF assms(3) g(1)] by simp_all
  have c: "extends g g1" "ok g1 v" "reads g1 v = reads h (es ! i)" "fp g1 v \<subseteq> {length g..<length g1}"
    using copy_spec [OF e(1) assms(4)] e(2) by simp_all
  have len: "length g \<le> length g1" using c(1) by (simp add: extends_def)
  have outs: "array dest g1 ?b = ?outs" using extends_array [OF c(1) g(2)] .
  let ?g2 = "g1[?b := mk (?outs[i := v])]"
  have new: "array dest ?g2 ?b = ?outs[i := v]" using g(2) len by (simp add: array_def)
  have keep: "ok ?g2 w \<and> reads ?g2 w = reads g1 w \<and> fp ?g2 w = fp g1 w"
    if "ok g1 w" "fp g1 w \<subseteq> {Suc ?b..<length g1}" for w
    by (rule frame [OF that(1)]) (use that(2) in \<open>auto simp: nth_list_update\<close>)
  have each: "ok ?g2 (?outs[i := v] ! j) \<and> reads ?g2 (?outs[i := v] ! j) = reads h (es ! j)
      \<and> fp ?g2 (?outs[i := v] ! j) \<subseteq> {Suc ?b..<length ?g2}" if "j < i + 1" for j
  proof (cases "j = i")
    case True
    have "fp g1 v \<subseteq> {Suc ?b..<length g1}" using c(4) g(2) by auto
    with keep [OF c(2)] c(3) True assms(2) g(3) show ?thesis by simp
  next
    case False
    then have j: "ok g (?outs ! j)" "reads g (?outs ! j) = reads h (es ! j)"
      "fp g (?outs ! j) \<subseteq> {Suc ?b..<length g}" using that past by simp_all
    have k: "ok g1 (?outs ! j)" "reads g1 (?outs ! j) = reads g (?outs ! j)" "fp g1 (?outs ! j) = fp g (?outs ! j)"
      using extends_frame [OF j(1) c(1)] by simp_all
    have "fp g1 (?outs ! j) \<subseteq> {Suc ?b..<length g1}" unfolding k(3) using j(3) len by auto
    with keep [OF k(1)] j(2) k(2) False show ?thesis by simp
  qed
  have "extends h ?g2" using extends_trans [OF g(1) c(1)] by (simp add: extends_def)
  then show ?thesis
    unfolding copied_def outs new using each g(2,3) len by simp
qed

lemma copy_loop_copied:
  assumes "slice_fit ok dest h s" and "elements dest h s = es"
  shows "i + n = length es \<Longrightarrow> copied h es i g
    \<Longrightarrow> copied h es (length es) (copy_loop copy dest mk s (length h) i n g)"
proof (induction n arbitrary: i g)
  case (Suc n)
  have ex: "extends h g" using Suc.prems(2) by (simp add: copied_def)
  have i: "i < length es" using Suc.prems(1) by simp
  then have "ok h (es ! i)" using assms by (auto simp: slice_fit_def list_all_length)
  moreover obtain v g1 where c: "copy (es ! i) g = (v, g1)" by fastforce
  ultimately have "copied h es (i + 1) (g1[length h := mk ((array dest g1 (length h))[i := v])])"
    using copied_step [OF Suc.prems(2) i] by blast
  moreover have "elements dest g s = es"
    using elements_extends [of dest h s g] ex assms by (simp add: slice_fit_def)
  ultimately show ?case using Suc.IH Suc.prems(1) c by (simp add: Let_def)
qed simp

lemma slice_copy_spec:
  assumes "slice_fit ok dest h s" and "slice_copy copy zero dest mk s h = (s', h')"
  shows "extends h h' \<and> slice_fit ok dest h' s' \<and> slice_reads reads dest h' s' = slice_reads reads dest h s
    \<and> slice_fp fp dest h' s' \<subseteq> {length h..<length h'}"
proof (cases s)
  case NilSlice
  then show ?thesis
    using assms by (simp add: slice_copy_def slice_fit_def slice_ok_def elements_def slice_reads_def slice_fp_def)
next
  case (Slice a off len)
  let ?es = "elements dest h s" and ?b = "length h" and ?h1 = "h @ [mk (replicate len zero)]"
  have len: "length ?es = len" using assms(1) Slice elements_length [of dest h a off len] by (simp add: slice_fit_def)
  have s': "s' = Slice ?b 0 len" "h' = copy_loop copy dest mk s ?b 0 len ?h1"
    using assms(2) Slice by (simp_all add: slice_copy_def Let_def)
  have "copied h ?es 0 ?h1" by (simp add: copied_def array_def len)
  then have c: "copied h ?es (length ?es) h'"
    unfolding s' using copy_loop_copied [OF assms(1) refl, of 0 len] len by simp
  let ?outs = "array dest h' ?b"
  have out: "elements dest h' s' = ?outs" "length ?outs = len"
    using c len by (simp_all add: s'(1) elements_def copied_def)
  have each: "\<forall>j < len. ok h' (?outs ! j) \<and> reads h' (?outs ! j) = reads h (?es ! j)
      \<and> fp h' (?outs ! j) \<subseteq> {Suc ?b..<length h'}"
    using c len by (simp add: copied_def)
  have "slice_fit ok dest h' s'"
    using c each out len by (simp add: slice_fit_def slice_ok_def s'(1) list_all_length copied_def)
  moreover have "map (reads h') ?outs = map (reads h) ?es"
    using each out(2) len by (simp add: list_eq_iff_nth_eq)
  moreover have "fp h' v \<subseteq> {?b..<length h'}" if "v \<in> set ?outs" for v
    using that each out(2) by (fastforce simp: in_set_conv_nth)
  ultimately show ?thesis
    using c out(1) Slice s'(1) by (auto simp: copied_def slice_reads_def slice_fp_def)
qed

end

sublocale array_copier \<subseteq> slices: deep_copier "slice_copy copy zero dest mk" "slice_reads reads dest"
    "slice_fp fp dest" "slice_fit ok dest"
proof
  fix h s s' h'
  assume "slice_fit ok dest h s" "slice_copy copy zero dest mk s h = (s', h')"
  then show "extends h h' \<and> slice_fit ok dest h' s' \<and> slice_reads reads dest h' s' = slice_reads reads dest h s
    \<and> slice_fp fp dest h' s' \<subseteq> {length h..<length h'}" by (rule slice_copy_spec)
next
  fix h s
  assume "slice_fit ok dest h s"
  then show "slice_fp fp dest h s \<subseteq> {..<length h}"
    using fp_allocated
    by (fastforce simp: slice_fit_def slice_fp_def slice_ok_def list_all_iff split: slice.splits)
next
  fix h s g
  assume s: "slice_fit ok dest h s" "length h \<le> length g" "\<forall>a \<in> slice_fp fp dest h s. g ! a = h ! a"
  show "slice_fit ok dest g s \<and> slice_reads reads dest g s = slice_reads reads dest h s
    \<and> slice_fp fp dest g s = slice_fp fp dest h s"
  proof (cases s)
    case (Slice a off len)
    have a: "a < length h" using s(1) Slice by (simp add: slice_fit_def slice_ok_def)
    have "array dest g a = array dest h a" using a s(2,3) Slice by (simp add: array_def slice_fp_def)
    then have es: "elements dest g s = elements dest h s" and sok: "slice_ok dest g s"
      using s(1,2) a Slice by (simp_all add: elements_def slice_ok_def slice_fit_def)
    have "ok g v \<and> reads g v = reads h v \<and> fp g v = fp h v" if "v \<in> set (elements dest h s)" for v
      by (rule frame) (use that s Slice in \<open>auto simp: slice_fit_def list_all_iff slice_fp_def\<close>)
    then show ?thesis
      using es sok Slice by (auto simp: slice_fit_def list_all_iff slice_reads_def slice_fp_def)
  qed (simp add: slice_fit_def slice_ok_def elements_def slice_reads_def slice_fp_def)
qed

text \<open>A pointer to a variable is a slice of length one in what a copy does to it.\<close>

definition deref_reads :: "('c list \<Rightarrow> 'v \<Rightarrow> 'a) \<Rightarrow> ('c \<Rightarrow> 'v list option) \<Rightarrow> 'c list \<Rightarrow> pointer \<Rightarrow> 'a option" where
  "deref_reads reads dest h p =
     (case p of None \<Rightarrow> None | Some (a, i) \<Rightarrow> Some (reads h (array dest h a ! i)))"

definition pointer_ok :: "('c list \<Rightarrow> 'v \<Rightarrow> bool) \<Rightarrow> ('c \<Rightarrow> 'v list option) \<Rightarrow> 'c list \<Rightarrow> pointer \<Rightarrow> bool" where
  "pointer_ok ok dest h p = (case p of None \<Rightarrow> True | Some (a, i) \<Rightarrow> slice_fit ok dest h (Slice a i 1))"

text \<open>
  What the callers of a deep copy rely on: it only allocates, is nil for nil, reads the same, and
  afterwards neither writes to the copy's cells show in the original nor the other way round.
\<close>

definition isolated_copy ::
    "('c list \<Rightarrow> 'v \<Rightarrow> 'a) \<Rightarrow> ('c \<Rightarrow> 'v list option) \<Rightarrow> 'c list \<Rightarrow> pointer \<Rightarrow> 'c list \<Rightarrow> pointer \<Rightarrow> bool" where
  "isolated_copy reads dest h p h' q \<longleftrightarrow>
     extends h h' \<and> (q = None \<longleftrightarrow> p = None)
     \<and> deref_reads reads dest h' q = deref_reads reads dest h p
     \<and> (\<forall>g. length g = length h' \<longrightarrow>
          ((\<forall>a < length h. g ! a = h ! a) \<longrightarrow> deref_reads reads dest g p = deref_reads reads dest h p)
          \<and> ((\<forall>a \<in> {length h..<length h'}. g ! a = h' ! a)
               \<longrightarrow> deref_reads reads dest g q = deref_reads reads dest h p))"

lemma elements_one: "i + 1 \<le> length (array dest h a) \<Longrightarrow> elements dest h (Slice a i 1) = [array dest h a ! i]"
  by (simp add: elements_def take_Suc_conv_app_nth hd_drop_conv_nth take_Suc)

context array_copier
begin

lemma new_copy_slice:
  assumes "slice_fit ok dest h (Slice a i 1)"
  shows "new_copy copy zero dest mk (Some (a, i)) h =
    (Some (length h, 0), snd (slice_copy copy zero dest mk (Slice a i 1) h))"
proof -
  let ?h1 = "h @ [mk [zero]]"
  have one: "a < length h" "i + 1 \<le> length (array dest h a)" "ok h (array dest h a ! i)"
    using assms elements_one [of i dest h a] by (auto simp: slice_fit_def slice_ok_def)
  have a1: "array dest ?h1 a = array dest h a" using one(1) by (simp add: array_def nth_append)
  obtain v g where c: "copy (array dest h a ! i) ?h1 = (v, g)" by fastforce
  have "ok ?h1 (array dest h a ! i)" using extends_frame [OF one(3) extends_append] by simp
  then have "extends ?h1 g" using copy_spec c by blast
  then have "array dest g (length h) = [zero]"
    using extends_array [of ?h1 g "length h" dest] by (simp add: array_def)
  moreover have "elements dest ?h1 (Slice a i 1) = [array dest h a ! i]"
    using elements_one [of i dest ?h1 a] one(2) a1 by simp
  ultimately show ?thesis using c a1 by (simp add: new_copy_def slice_copy_def Let_def)
qed

lemma deref_slice:
  assumes "slice_ok dest h (Slice a i 1)"
  shows "deref_reads reads dest h (Some (a, i)) = map_option hd (slice_reads reads dest h (Slice a i 1))"
  using elements_one [of i dest h a] assms by (simp add: deref_reads_def slice_reads_def slice_ok_def)

text \<open>The contract of a deep copy makes \<open>DeepCopy\<close> an isolated copy.\<close>

lemma new_copy_isolated:
  assumes "pointer_ok ok dest h p" and "new_copy copy zero dest mk p h = (q, h')"
  shows "isolated_copy reads dest h p h' q"
proof (cases p)
  case None
  then show ?thesis using assms(2) by (simp add: new_copy_def isolated_copy_def deref_reads_def)
next
  case (Some ai)
  obtain a i where p: "p = Some (a, i)" using Some by (cases ai) simp
  let ?s = "Slice a i 1"
  have fit: "slice_fit ok dest h ?s" using assms(1) p by (simp add: pointer_ok_def)
  have q: "q = Some (length h, 0)" and sc: "slice_copy copy zero dest mk ?s h = (Slice (length h) 0 1, h')"
    using assms(2) new_copy_slice [OF fit] by (auto simp: p slice_copy_def Let_def)
  have spec: "extends h h'" "slice_fit ok dest h' (Slice (length h) 0 1)"
    "slice_reads reads dest h' (Slice (length h) 0 1) = slice_reads reads dest h ?s"
    using slices.copy_spec [OF fit sc] by blast+
  have old: "deref_reads reads dest g p = deref_reads reads dest h p"
    if "length g = length h'" "\<forall>a < length h. g ! a = h ! a" for g
  proof -
    have "extends h g" using that spec(1) by (simp add: extends_def)
    then have "slice_fit ok dest g ?s" using slices.extends_frame [OF fit] by blast
    then show ?thesis
      using slices.isolated(1) [OF fit sc that] fit deref_slice [of g a i] deref_slice [of h a i]
      by (simp add: p slice_fit_def)
  qed
  have new: "deref_reads reads dest g q = deref_reads reads dest h p"
    if "length g = length h'" "\<forall>a \<in> {length h..<length h'}. g ! a = h' ! a" for g
  proof -
    have "slice_fp fp dest h' (Slice (length h) 0 1) \<subseteq> {length h..<length h'}"
      using slices.copy_spec [OF fit sc] by blast
    then have "slice_fit ok dest g (Slice (length h) 0 1)"
      using slices.frame [OF spec(2), of g] that by auto
    then show ?thesis
      using slices.isolated(2) [OF fit sc that] fit deref_slice [of g "length h" 0] deref_slice [of h a i]
      by (simp add: p q slice_fit_def)
  qed
  have "deref_reads reads dest h' q = deref_reads reads dest h p" using new [of h'] by simp
  then show ?thesis unfolding isolated_copy_def using spec(1) p q old new by simp
qed

end

section \<open>One copy after the other\<close>

locale two_copiers = c1: deep_copier copy1 reads1 fp1 ok1 + c2: deep_copier copy2 reads2 fp2 ok2
  for copy1 :: "'v \<Rightarrow> 'c list \<Rightarrow> 'v \<times> 'c list" and reads1 :: "'c list \<Rightarrow> 'v \<Rightarrow> 'a" and fp1 ok1
    and copy2 :: "'w \<Rightarrow> 'c list \<Rightarrow> 'w \<times> 'c list" and reads2 :: "'c list \<Rightarrow> 'w \<Rightarrow> 'b" and fp2 ok2
begin

lemma both_spec:
  assumes "ok1 h x" and "ok2 h y" and "copy1 x h = (x', h1)" and "copy2 y h1 = (y', h2)"
  shows "extends h h2" and "ok1 h2 x'" and "ok2 h2 y'"
    and "reads1 h2 x' = reads1 h x" and "reads2 h2 y' = reads2 h y"
    and "fp1 h2 x' \<union> fp2 h2 y' \<subseteq> {length h..<length h2}"
proof -
  have a: "extends h h1" "ok1 h1 x'" "reads1 h1 x' = reads1 h x" "fp1 h1 x' \<subseteq> {length h..<length h1}"
    using c1.copy_spec [OF assms(1,3)] by blast+
  have y: "ok2 h1 y" "reads2 h1 y = reads2 h y" using c2.extends_frame [OF assms(2) a(1)] by blast+
  have b: "extends h1 h2" "ok2 h2 y'" "reads2 h2 y' = reads2 h1 y" "fp2 h2 y' \<subseteq> {length h1..<length h2}"
    using c2.copy_spec [OF y(1) assms(4)] by blast+
  have c: "ok1 h2 x'" "reads1 h2 x' = reads1 h1 x'" "fp1 h2 x' = fp1 h1 x'"
    using c1.extends_frame [OF a(2) b(1)] by blast+
  have len: "length h \<le> length h1" "length h1 \<le> length h2" using a(1) b(1) by (simp_all add: extends_def)
  show "extends h h2" by (rule extends_trans [OF a(1) b(1)])
  show "ok1 h2 x'" "ok2 h2 y'" "reads1 h2 x' = reads1 h x" "reads2 h2 y' = reads2 h y"
    using a b c y by simp_all
  show "fp1 h2 x' \<union> fp2 h2 y' \<subseteq> {length h..<length h2}" using a(4) b(4) c(3) len by auto
qed

lemma both_frame:
  assumes "ok1 h x" and "ok2 h y" and "length h \<le> length g" and "\<forall>a \<in> fp1 h x \<union> fp2 h y. g ! a = h ! a"
  shows "ok1 g x \<and> reads1 g x = reads1 h x \<and> fp1 g x = fp1 h x
    \<and> ok2 g y \<and> reads2 g y = reads2 h y \<and> fp2 g y = fp2 h y"
  using c1.frame [OF assms(1,3)] c2.frame [OF assms(2,3)] assms(4) by auto

end

end
