(* ===== verification/Swarm_Copies.thy ===== *)
theory Swarm_Copies
  imports Deep_Copy Kube
begin

text \<open>
  \<open>services/controller/internal/infra/k8s/apis/swarm/v1alpha1/zz_generated.deepcopy.go\<close>: the
  deep copies of the swarm's types over the store of \<open>Deep_Copy\<close>. \<open>DeepCopyInto\<close> is a function
  from the value of \<open>*in\<close> to the value of \<open>*out\<close>, two different variables. The \<open>DeepCopyInto\<close> of
  the metadata belongs to the Kubernetes library: it is an argument with the same contract.
\<close>

section \<open>Types over the store\<close>

text \<open>
  Each type has its references as a parameter: over the store they are addresses, in what a value
  reads as they are the values behind them, an option for a slice, since nil is not empty.
\<close>

record ('m, 'js) member_var =
  dm_typeMeta :: typeMeta
  dm_objectMeta :: 'm
  dm_name :: string
  dm_jobs :: 'js
  dm_state :: memberStatus
  dm_createdAt :: int

record 'ms spec_var =
  ds_version :: int
  ds_expectedSize :: int
  ds_size :: int
  ds_members :: 'ms

record ('m, 'ms) swarm_var =
  dw_typeMeta :: typeMeta
  dw_objectMeta :: 'm
  dw_spec :: "'ms spec_var"
  dw_status :: swarmStatus

record ('l, 'ws) swarmList_var =
  dl_typeMeta :: typeMeta
  dl_listMeta :: 'l
  dl_items :: 'ws

datatype ('m, 'l, 'x) cell =
    LibCell 'x
  | JobCell "alpha_job list"
  | MemberCell "('m, slice) member_var list"
  | MemberStatusCell "memberStatus list"
  | SpecCell "slice spec_var list"
  | SwarmCell "('m, slice) swarm_var list"
  | SwarmStatusCell "swarmStatus list"
  | SwarmListCell "('l, slice) swarmList_var list"

definition dest_jobs :: "('m, 'l, 'x) cell \<Rightarrow> alpha_job list option" where
  "dest_jobs c = (case c of JobCell vs \<Rightarrow> Some vs | _ \<Rightarrow> None)"

definition dest_members :: "('m, 'l, 'x) cell \<Rightarrow> ('m, slice) member_var list option" where
  "dest_members c = (case c of MemberCell vs \<Rightarrow> Some vs | _ \<Rightarrow> None)"

definition dest_memberStatuses :: "('m, 'l, 'x) cell \<Rightarrow> memberStatus list option" where
  "dest_memberStatuses c = (case c of MemberStatusCell vs \<Rightarrow> Some vs | _ \<Rightarrow> None)"

definition dest_specs :: "('m, 'l, 'x) cell \<Rightarrow> slice spec_var list option" where
  "dest_specs c = (case c of SpecCell vs \<Rightarrow> Some vs | _ \<Rightarrow> None)"

definition dest_swarms :: "('m, 'l, 'x) cell \<Rightarrow> ('m, slice) swarm_var list option" where
  "dest_swarms c = (case c of SwarmCell vs \<Rightarrow> Some vs | _ \<Rightarrow> None)"

definition dest_swarmStatuses :: "('m, 'l, 'x) cell \<Rightarrow> swarmStatus list option" where
  "dest_swarmStatuses c = (case c of SwarmStatusCell vs \<Rightarrow> Some vs | _ \<Rightarrow> None)"

definition dest_swarmLists :: "('m, 'l, 'x) cell \<Rightarrow> ('l, slice) swarmList_var list option" where
  "dest_swarmLists c = (case c of SwarmListCell vs \<Rightarrow> Some vs | _ \<Rightarrow> None)"

lemmas dest_defs = dest_jobs_def dest_members_def dest_memberStatuses_def dest_specs_def
  dest_swarms_def dest_swarmStatuses_def dest_swarmLists_def

text \<open>
  The metadata of the library: its \<open>DeepCopyInto\<close> and zero value, and, for the statements, what
  it reads as, the cells it refers to, and when it is well-formed.
\<close>

record ('v, 'c, 'a) library_copy =
  lc_copy :: "'v \<Rightarrow> 'c list \<Rightarrow> 'v \<times> 'c list"
  lc_zero :: 'v
  lc_reads :: "'c list \<Rightarrow> 'v \<Rightarrow> 'a"
  lc_fp :: "'c list \<Rightarrow> 'v \<Rightarrow> nat set"
  lc_ok :: "'c list \<Rightarrow> 'v \<Rightarrow> bool"

definition lawful_copy :: "('v, 'c, 'a) library_copy \<Rightarrow> bool" where
  "lawful_copy C \<longleftrightarrow>
     (\<forall>h v v' h'. lc_ok C h v \<longrightarrow> lc_copy C v h = (v', h') \<longrightarrow>
        extends h h' \<and> lc_ok C h' v' \<and> lc_reads C h' v' = lc_reads C h v
        \<and> lc_fp C h' v' \<subseteq> {length h..<length h'})
     \<and> (\<forall>h v. lc_ok C h v \<longrightarrow> lc_fp C h v \<subseteq> {..<length h})
     \<and> (\<forall>h g v. lc_ok C h v \<longrightarrow> length h \<le> length g \<longrightarrow> (\<forall>a \<in> lc_fp C h v. g ! a = h ! a) \<longrightarrow>
          lc_ok C g v \<and> lc_reads C g v = lc_reads C h v \<and> lc_fp C g v = lc_fp C h v)"

section \<open>The generated functions\<close>

definition MemberStatus_DeepCopyInto :: "memberStatus \<Rightarrow> 'c list \<Rightarrow> memberStatus \<times> 'c list" where
  "MemberStatus_DeepCopyInto v h = (let out = v in (out, h))"

definition SwarmStatus_DeepCopyInto :: "swarmStatus \<Rightarrow> 'c list \<Rightarrow> swarmStatus \<times> 'c list" where
  "SwarmStatus_DeepCopyInto v h = (let out = v in (out, h))"

definition Member_DeepCopyInto ::
    "('m, ('m, 'l, 'x) cell, 'a) library_copy \<Rightarrow> ('m, slice) member_var \<Rightarrow> ('m, 'l, 'x) cell list
     \<Rightarrow> ('m, slice) member_var \<times> ('m, 'l, 'x) cell list" where
  "Member_DeepCopyInto C v h =
     (let out = v\<lparr>dm_typeMeta := dm_typeMeta v\<rparr>;
          (meta, h1) = lc_copy C (dm_objectMeta v) h;
          (jobs, h2) = slice_copy assign_elem (AlphaJob []) dest_jobs JobCell (dm_jobs v) h1
      in (out\<lparr>dm_objectMeta := meta, dm_jobs := jobs, dm_state := dm_state v\<rparr>, h2))"

definition zero_member :: "('m, 'c, 'a) library_copy \<Rightarrow> ('m, slice) member_var" where
  "zero_member C = \<lparr>dm_typeMeta = zero_typeMeta, dm_objectMeta = lc_zero C, dm_name = [], dm_jobs = NilSlice,
     dm_state = \<lparr>ms_phase = []\<rparr>, dm_createdAt = 0\<rparr>"

definition SwarmSpec_DeepCopyInto ::
    "('m, ('m, 'l, 'x) cell, 'a) library_copy \<Rightarrow> slice spec_var \<Rightarrow> ('m, 'l, 'x) cell list
     \<Rightarrow> slice spec_var \<times> ('m, 'l, 'x) cell list" where
  "SwarmSpec_DeepCopyInto C v h =
     (let out = v;
          (members, h1) = slice_copy (Member_DeepCopyInto C) (zero_member C) dest_members MemberCell (ds_members v) h
      in (out\<lparr>ds_members := members\<rparr>, h1))"

definition zero_spec :: "slice spec_var" where
  "zero_spec = \<lparr>ds_version = 0, ds_expectedSize = 0, ds_size = 0, ds_members = NilSlice\<rparr>"

definition Swarm_DeepCopyInto ::
    "('m, ('m, 'l, 'x) cell, 'a) library_copy \<Rightarrow> ('m, slice) swarm_var \<Rightarrow> ('m, 'l, 'x) cell list
     \<Rightarrow> ('m, slice) swarm_var \<times> ('m, 'l, 'x) cell list" where
  "Swarm_DeepCopyInto C v h =
     (let out = v\<lparr>dw_typeMeta := dw_typeMeta v\<rparr>;
          (meta, h1) = lc_copy C (dw_objectMeta v) h;
          (spec, h2) = SwarmSpec_DeepCopyInto C (dw_spec v) h1
      in (out\<lparr>dw_objectMeta := meta, dw_spec := spec, dw_status := dw_status v\<rparr>, h2))"

definition zero_swarm :: "('m, 'c, 'a) library_copy \<Rightarrow> ('m, slice) swarm_var" where
  "zero_swarm C = \<lparr>dw_typeMeta = zero_typeMeta, dw_objectMeta = lc_zero C, dw_spec = zero_spec,
     dw_status = \<lparr>ss_phase = []\<rparr>\<rparr>"

definition SwarmList_DeepCopyInto ::
    "('m, ('m, 'l, 'x) cell, 'a) library_copy \<Rightarrow> ('l, ('m, 'l, 'x) cell, 'b) library_copy
     \<Rightarrow> ('l, slice) swarmList_var \<Rightarrow> ('m, 'l, 'x) cell list
     \<Rightarrow> ('l, slice) swarmList_var \<times> ('m, 'l, 'x) cell list" where
  "SwarmList_DeepCopyInto C L v h =
     (let out = v\<lparr>dl_typeMeta := dl_typeMeta v\<rparr>;
          (meta, h1) = lc_copy L (dl_listMeta v) h;
          (items, h2) = slice_copy (Swarm_DeepCopyInto C) (zero_swarm C) dest_swarms SwarmCell (dl_items v) h1
      in (out\<lparr>dl_listMeta := meta, dl_items := items\<rparr>, h2))"

definition zero_swarmList :: "('l, 'c, 'b) library_copy \<Rightarrow> ('l, slice) swarmList_var" where
  "zero_swarmList L = \<lparr>dl_typeMeta = zero_typeMeta, dl_listMeta = lc_zero L, dl_items = NilSlice\<rparr>"

definition Member_DeepCopy where
  "Member_DeepCopy C = new_copy (Member_DeepCopyInto C) (zero_member C) dest_members MemberCell"

definition MemberStatus_DeepCopy where
  "MemberStatus_DeepCopy = new_copy MemberStatus_DeepCopyInto \<lparr>ms_phase = []\<rparr> dest_memberStatuses MemberStatusCell"

definition Swarm_DeepCopy where
  "Swarm_DeepCopy C = new_copy (Swarm_DeepCopyInto C) (zero_swarm C) dest_swarms SwarmCell"

definition SwarmList_DeepCopy where
  "SwarmList_DeepCopy C L = new_copy (SwarmList_DeepCopyInto C L) (zero_swarmList L) dest_swarmLists SwarmListCell"

definition SwarmSpec_DeepCopy where
  "SwarmSpec_DeepCopy C = new_copy (SwarmSpec_DeepCopyInto C) zero_spec dest_specs SpecCell"

definition SwarmStatus_DeepCopy where
  "SwarmStatus_DeepCopy = new_copy SwarmStatus_DeepCopyInto \<lparr>ss_phase = []\<rparr> dest_swarmStatuses SwarmStatusCell"

text \<open>\<open>if c := in.DeepCopy(); c != nil { return c }; return nil\<close>: no nil pointer in an interface.\<close>

definition Member_DeepCopyObject where
  "Member_DeepCopyObject C p h = (case Member_DeepCopy C p h of (Some c, h') \<Rightarrow> (Some c, h') | (None, h') \<Rightarrow> (None, h'))"

definition Swarm_DeepCopyObject where
  "Swarm_DeepCopyObject C p h = (case Swarm_DeepCopy C p h of (Some c, h') \<Rightarrow> (Some c, h') | (None, h') \<Rightarrow> (None, h'))"

definition SwarmList_DeepCopyObject where
  "SwarmList_DeepCopyObject C L p h =
     (case SwarmList_DeepCopy C L p h of (Some c, h') \<Rightarrow> (Some c, h') | (None, h') \<Rightarrow> (None, h'))"

section \<open>What the values read as\<close>

definition read_job :: "'c list \<Rightarrow> alpha_job \<Rightarrow> alpha_job" where
  "read_job h j = j"

definition member_reads where
  "member_reads C h v =
     \<lparr>dm_typeMeta = dm_typeMeta v, dm_objectMeta = lc_reads C h (dm_objectMeta v), dm_name = dm_name v,
      dm_jobs = slice_reads read_job dest_jobs h (dm_jobs v), dm_state = dm_state v,
      dm_createdAt = dm_createdAt v\<rparr>"

definition member_fp where
  "member_fp C h v = lc_fp C h (dm_objectMeta v) \<union> slice_fp (\<lambda>h j. {}) dest_jobs h (dm_jobs v)"

definition member_ok where
  "member_ok C h v \<longleftrightarrow> (lawful_copy C \<and> lc_ok C h (dm_objectMeta v)) \<and> slice_fit (\<lambda>h j. True) dest_jobs h (dm_jobs v)"

definition spec_reads where
  "spec_reads C h v =
     \<lparr>ds_version = ds_version v, ds_expectedSize = ds_expectedSize v, ds_size = ds_size v,
      ds_members = slice_reads (member_reads C) dest_members h (ds_members v)\<rparr>"

definition spec_fp where
  "spec_fp C h v = slice_fp (member_fp C) dest_members h (ds_members v)"

definition spec_ok where
  "spec_ok C h v \<longleftrightarrow> slice_fit (member_ok C) dest_members h (ds_members v)"

definition swarm_reads where
  "swarm_reads C h v =
     \<lparr>dw_typeMeta = dw_typeMeta v, dw_objectMeta = lc_reads C h (dw_objectMeta v),
      dw_spec = spec_reads C h (dw_spec v), dw_status = dw_status v\<rparr>"

definition swarm_fp where
  "swarm_fp C h v = lc_fp C h (dw_objectMeta v) \<union> spec_fp C h (dw_spec v)"

definition swarm_ok where
  "swarm_ok C h v \<longleftrightarrow> (lawful_copy C \<and> lc_ok C h (dw_objectMeta v)) \<and> spec_ok C h (dw_spec v)"

definition swarmList_reads where
  "swarmList_reads C L h v =
     \<lparr>dl_typeMeta = dl_typeMeta v, dl_listMeta = lc_reads L h (dl_listMeta v),
      dl_items = slice_reads (swarm_reads C) dest_swarms h (dl_items v)\<rparr>"

definition swarmList_fp where
  "swarmList_fp C L h v = lc_fp L h (dl_listMeta v) \<union> slice_fp (swarm_fp C) dest_swarms h (dl_items v)"

definition swarmList_ok where
  "swarmList_ok C L h v \<longleftrightarrow>
     (lawful_copy L \<and> lc_ok L h (dl_listMeta v)) \<and> slice_fit (swarm_ok C) dest_swarms h (dl_items v)"

section \<open>The generated functions keep the contract\<close>

lemma lawful_copyD:
  assumes "lawful_copy C \<and> lc_ok C h v"
  shows "lc_copy C v h = (v', h') \<Longrightarrow> extends h h' \<and> (lawful_copy C \<and> lc_ok C h' v')
      \<and> lc_reads C h' v' = lc_reads C h v \<and> lc_fp C h' v' \<subseteq> {length h..<length h'}"
    and "lc_fp C h v \<subseteq> {..<length h}"
    and "length h \<le> length g \<Longrightarrow> \<forall>a \<in> lc_fp C h v. g ! a = h ! a \<Longrightarrow> (lawful_copy C \<and> lc_ok C g v)
      \<and> lc_reads C g v = lc_reads C h v \<and> lc_fp C g v = lc_fp C h v"
proof -
  note laws = conjunct1 [OF assms, unfolded lawful_copy_def]
  note ok = conjunct2 [OF assms]
  show "lc_copy C v h = (v', h') \<Longrightarrow> extends h h' \<and> (lawful_copy C \<and> lc_ok C h' v')
      \<and> lc_reads C h' v' = lc_reads C h v \<and> lc_fp C h' v' \<subseteq> {length h..<length h'}"
    using laws [THEN conjunct1, rule_format, OF ok] assms by simp
  show "lc_fp C h v \<subseteq> {..<length h}"
    by (rule laws [THEN conjunct2, THEN conjunct1, rule_format, OF ok])
  show "length h \<le> length g \<Longrightarrow> \<forall>a \<in> lc_fp C h v. g ! a = h ! a \<Longrightarrow> (lawful_copy C \<and> lc_ok C g v)
      \<and> lc_reads C g v = lc_reads C h v \<and> lc_fp C g v = lc_fp C h v"
    using laws [THEN conjunct2, THEN conjunct2, THEN spec, THEN spec, THEN spec, THEN mp, THEN mp, THEN mp, OF ok]
      conjunct1 [OF assms] by blast
qed

interpretation meta: deep_copier "lc_copy C" "lc_reads C" "lc_fp C" "\<lambda>h v. lawful_copy C \<and> lc_ok C h v"
  for C
  by unfold_locales (erule (1) lawful_copyD, erule lawful_copyD(2), erule (2) lawful_copyD(3))

interpretation jobs: array_copier assign_elem read_job "\<lambda>h j. {}" "\<lambda>h j. True" dest_jobs JobCell "AlphaJob []"
  by unfold_locales (simp_all add: assign_elem_def read_job_def dest_jobs_def)

interpretation meta_jobs: two_copiers "lc_copy C" "lc_reads C" "lc_fp C" "\<lambda>h v. lawful_copy C \<and> lc_ok C h v"
    "slice_copy assign_elem (AlphaJob []) dest_jobs JobCell" "slice_reads read_job dest_jobs"
    "slice_fp (\<lambda>h j. {}) dest_jobs" "slice_fit (\<lambda>h j. True) dest_jobs"
  for C ..

interpretation member: array_copier "Member_DeepCopyInto C" "member_reads C" "member_fp C" "member_ok C"
    dest_members MemberCell "zero_member C"
  for C
proof
  fix h v v' h'
  assume ok: "member_ok C h v" and c: "Member_DeepCopyInto C v h = (v', h')"
  obtain om h1 where m: "lc_copy C (dm_objectMeta v) h = (om, h1)" by fastforce
  obtain js h2 where j: "slice_copy assign_elem (AlphaJob []) dest_jobs JobCell (dm_jobs v) h1 = (js, h2)"
    by fastforce
  have v': "v' = v\<lparr>dm_objectMeta := om, dm_jobs := js\<rparr>" "h' = h2"
    using c by (simp_all add: Member_DeepCopyInto_def Let_def m j)
  note both = meta_jobs.both_spec [OF ok [unfolded member_ok_def, THEN conjunct1]
      ok [unfolded member_ok_def, THEN conjunct2] m j]
  show "extends h h' \<and> member_ok C h' v' \<and> member_reads C h' v' = member_reads C h v
      \<and> member_fp C h' v' \<subseteq> {length h..<length h'}"
    using both by (simp add: v' member_ok_def member_reads_def member_fp_def)
next
  fix h v
  assume ok: "member_ok C h v"
  show "member_fp C h v \<subseteq> {..<length h}"
    unfolding member_fp_def
    by (rule Un_least [OF meta.fp_allocated [OF ok [unfolded member_ok_def, THEN conjunct1]]
          jobs.slices.fp_allocated [OF ok [unfolded member_ok_def, THEN conjunct2]]])
next
  fix h v g
  assume ok: "member_ok C h v" and len: "length h \<le> length g" and same: "\<forall>a \<in> member_fp C h v. g ! a = h ! a"
  note both = meta_jobs.both_frame [OF ok [unfolded member_ok_def, THEN conjunct1]
      ok [unfolded member_ok_def, THEN conjunct2] len same [unfolded member_fp_def]]
  show "member_ok C g v \<and> member_reads C g v = member_reads C h v \<and> member_fp C g v = member_fp C h v"
    unfolding member_ok_def member_fp_def member_reads_def by (intro conjI) (simp_all add: both)
qed (simp add: dest_members_def)

interpretation spec: array_copier "SwarmSpec_DeepCopyInto C" "spec_reads C" "spec_fp C" "spec_ok C"
    dest_specs SpecCell zero_spec
  for C
proof
  fix h v v' h'
  assume ok: "spec_ok C h v" and c: "SwarmSpec_DeepCopyInto C v h = (v', h')"
  obtain ms h1 where m: "slice_copy (Member_DeepCopyInto C) (zero_member C) dest_members MemberCell (ds_members v) h = (ms, h1)"
    by fastforce
  have v': "v' = v\<lparr>ds_members := ms\<rparr>" "h' = h1"
    using c by (simp_all add: SwarmSpec_DeepCopyInto_def Let_def m)
  show "extends h h' \<and> spec_ok C h' v' \<and> spec_reads C h' v' = spec_reads C h v
      \<and> spec_fp C h' v' \<subseteq> {length h..<length h'}"
    using member.slices.copy_spec [OF ok [unfolded spec_ok_def] m]
    by (simp add: v' spec_ok_def spec_reads_def spec_fp_def)
next
  fix h v
  assume "spec_ok C h v"
  then show "spec_fp C h v \<subseteq> {..<length h}"
    unfolding spec_ok_def spec_fp_def by (rule member.slices.fp_allocated)
next
  fix h v g
  assume ok: "spec_ok C h v" and len: "length h \<le> length g" and same: "\<forall>a \<in> spec_fp C h v. g ! a = h ! a"
  note both = member.slices.frame [OF ok [unfolded spec_ok_def] len same [unfolded spec_fp_def]]
  show "spec_ok C g v \<and> spec_reads C g v = spec_reads C h v \<and> spec_fp C g v = spec_fp C h v"
    unfolding spec_ok_def spec_fp_def spec_reads_def by (intro conjI) (simp_all add: both)
qed (simp add: dest_specs_def)

interpretation meta_spec: two_copiers "lc_copy C" "lc_reads C" "lc_fp C" "\<lambda>h v. lawful_copy C \<and> lc_ok C h v"
    "SwarmSpec_DeepCopyInto C" "spec_reads C" "spec_fp C" "spec_ok C"
  for C ..

interpretation swarm: array_copier "Swarm_DeepCopyInto C" "swarm_reads C" "swarm_fp C" "swarm_ok C"
    dest_swarms SwarmCell "zero_swarm C"
  for C
proof
  fix h v v' h'
  assume ok: "swarm_ok C h v" and c: "Swarm_DeepCopyInto C v h = (v', h')"
  obtain om h1 where m: "lc_copy C (dw_objectMeta v) h = (om, h1)" by fastforce
  obtain sp h2 where j: "SwarmSpec_DeepCopyInto C (dw_spec v) h1 = (sp, h2)" by fastforce
  have v': "v' = v\<lparr>dw_objectMeta := om, dw_spec := sp\<rparr>" "h' = h2"
    using c by (simp_all add: Swarm_DeepCopyInto_def Let_def m j)
  note both = meta_spec.both_spec [OF ok [unfolded swarm_ok_def, THEN conjunct1]
      ok [unfolded swarm_ok_def, THEN conjunct2] m j]
  show "extends h h' \<and> swarm_ok C h' v' \<and> swarm_reads C h' v' = swarm_reads C h v
      \<and> swarm_fp C h' v' \<subseteq> {length h..<length h'}"
    using both by (simp add: v' swarm_ok_def swarm_reads_def swarm_fp_def)
next
  fix h v
  assume ok: "swarm_ok C h v"
  show "swarm_fp C h v \<subseteq> {..<length h}"
    unfolding swarm_fp_def
    by (rule Un_least [OF meta.fp_allocated [OF ok [unfolded swarm_ok_def, THEN conjunct1]]
          spec.fp_allocated [OF ok [unfolded swarm_ok_def, THEN conjunct2]]])
next
  fix h v g
  assume ok: "swarm_ok C h v" and len: "length h \<le> length g" and same: "\<forall>a \<in> swarm_fp C h v. g ! a = h ! a"
  note both = meta_spec.both_frame [OF ok [unfolded swarm_ok_def, THEN conjunct1]
      ok [unfolded swarm_ok_def, THEN conjunct2] len same [unfolded swarm_fp_def]]
  show "swarm_ok C g v \<and> swarm_reads C g v = swarm_reads C h v \<and> swarm_fp C g v = swarm_fp C h v"
    unfolding swarm_ok_def swarm_fp_def swarm_reads_def by (intro conjI) (simp_all add: both)
qed (simp add: dest_swarms_def)

interpretation meta_items: two_copiers "lc_copy L" "lc_reads L" "lc_fp L" "\<lambda>h v. lawful_copy L \<and> lc_ok L h v"
    "slice_copy (Swarm_DeepCopyInto C) (zero_swarm C) dest_swarms SwarmCell"
    "slice_reads (swarm_reads C) dest_swarms" "slice_fp (swarm_fp C) dest_swarms" "slice_fit (swarm_ok C) dest_swarms"
  for L C ..

interpretation swarmList: array_copier "SwarmList_DeepCopyInto C L" "swarmList_reads C L" "swarmList_fp C L"
    "swarmList_ok C L" dest_swarmLists SwarmListCell "zero_swarmList L"
  for C L
proof
  fix h v v' h'
  assume ok: "swarmList_ok C L h v" and c: "SwarmList_DeepCopyInto C L v h = (v', h')"
  obtain lm h1 where m: "lc_copy L (dl_listMeta v) h = (lm, h1)" by fastforce
  obtain ws h2 where j: "slice_copy (Swarm_DeepCopyInto C) (zero_swarm C) dest_swarms SwarmCell (dl_items v) h1 = (ws, h2)"
    by fastforce
  have v': "v' = v\<lparr>dl_listMeta := lm, dl_items := ws\<rparr>" "h' = h2"
    using c by (simp_all add: SwarmList_DeepCopyInto_def Let_def m j)
  note both = meta_items.both_spec [OF ok [unfolded swarmList_ok_def, THEN conjunct1]
      ok [unfolded swarmList_ok_def, THEN conjunct2] m j]
  show "extends h h' \<and> swarmList_ok C L h' v' \<and> swarmList_reads C L h' v' = swarmList_reads C L h v
      \<and> swarmList_fp C L h' v' \<subseteq> {length h..<length h'}"
    using both by (simp add: v' swarmList_ok_def swarmList_reads_def swarmList_fp_def)
next
  fix h v
  assume ok: "swarmList_ok C L h v"
  show "swarmList_fp C L h v \<subseteq> {..<length h}"
    unfolding swarmList_fp_def
    by (rule Un_least [OF meta.fp_allocated [OF ok [unfolded swarmList_ok_def, THEN conjunct1]]
          swarm.slices.fp_allocated [OF ok [unfolded swarmList_ok_def, THEN conjunct2]]])
next
  fix h v g
  assume ok: "swarmList_ok C L h v" and len: "length h \<le> length g" and same: "\<forall>a \<in> swarmList_fp C L h v. g ! a = h ! a"
  note both = meta_items.both_frame [OF ok [unfolded swarmList_ok_def, THEN conjunct1]
      ok [unfolded swarmList_ok_def, THEN conjunct2] len same [unfolded swarmList_fp_def]]
  show "swarmList_ok C L g v \<and> swarmList_reads C L g v = swarmList_reads C L h v \<and> swarmList_fp C L g v = swarmList_fp C L h v"
    unfolding swarmList_ok_def swarmList_fp_def swarmList_reads_def by (intro conjI) (simp_all add: both)
qed (simp add: dest_swarmLists_def)

interpretation memberStatus: array_copier MemberStatus_DeepCopyInto "\<lambda>h v. v" "\<lambda>h v. {}" "\<lambda>h v. True"
    dest_memberStatuses MemberStatusCell "\<lparr>ms_phase = []\<rparr>"
  by unfold_locales (simp_all add: MemberStatus_DeepCopyInto_def dest_memberStatuses_def)

interpretation swarmStatus: array_copier SwarmStatus_DeepCopyInto "\<lambda>h v. v" "\<lambda>h v. {}" "\<lambda>h v. True"
    dest_swarmStatuses SwarmStatusCell "\<lparr>ss_phase = []\<rparr>"
  by unfold_locales (simp_all add: SwarmStatus_DeepCopyInto_def dest_swarmStatuses_def)

lemma deep_copy_object_eq:
  "Member_DeepCopyObject C p h = Member_DeepCopy C p h"
  "Swarm_DeepCopyObject C p h = Swarm_DeepCopy C p h"
  "SwarmList_DeepCopyObject C L r h = SwarmList_DeepCopy C L r h"
  by (simp_all add: Member_DeepCopyObject_def Swarm_DeepCopyObject_def SwarmList_DeepCopyObject_def
      split: prod.split option.split)

section \<open>Properties\<close>

text \<open>
  C26 The deep copies that the event handlers queue share nothing with the informer's objects: for
  a member, a swarm and a list of swarms, nil or not, \<open>DeepCopyObject\<close> changes no cell, gives nil
  for nil, and otherwise a copy that reads the same down to the jobs, with nil slices nil and
  empty ones empty; and whatever is then written to cells of the copy does not show in the
  original, nor what is written to older cells in the copy.
\<close>

theorem deep_copies_isolated:
  assumes "pointer_ok (member_ok C) dest_members h p" and "Member_DeepCopyObject C p h = (p', h1)"
    and "pointer_ok (swarm_ok C) dest_swarms h q" and "Swarm_DeepCopyObject C q h = (q', h2)"
    and "pointer_ok (swarmList_ok C L) dest_swarmLists h r" and "SwarmList_DeepCopyObject C L r h = (r', h3)"
  shows "isolated_copy (member_reads C) dest_members h p h1 p'
    \<and> isolated_copy (swarm_reads C) dest_swarms h q h2 q'
    \<and> isolated_copy (swarmList_reads C L) dest_swarmLists h r h3 r'"
  using member.new_copy_isolated [OF assms(1)] swarm.new_copy_isolated [OF assms(3)]
    swarmList.new_copy_isolated [OF assms(5)] assms(2,4,6)
  by (simp add: deep_copy_object_eq Member_DeepCopy_def Swarm_DeepCopy_def SwarmList_DeepCopy_def)

text \<open>A store with one swarm; labels are a cell of the library, list metadata has no references.\<close>

definition label_copy :: "(nat, (nat, unit, string) cell, (nat, unit, string) cell) library_copy" where
  "label_copy = \<lparr>lc_copy = (\<lambda>a h. (length h, h @ [h ! a])), lc_zero = 0, lc_reads = (\<lambda>h a. h ! a),
     lc_fp = (\<lambda>h a. {a}), lc_ok = (\<lambda>h a. a < length h)\<rparr>"

definition unit_copy :: "(unit, (nat, unit, string) cell, unit) library_copy" where
  "unit_copy = \<lparr>lc_copy = (\<lambda>u h. (u, h)), lc_zero = (), lc_reads = (\<lambda>h u. u), lc_fp = (\<lambda>h u. {}),
     lc_ok = (\<lambda>h u. True)\<rparr>"

definition example_store :: "(nat, unit, string) cell list" where
  "example_store =
     [LibCell ''app'', JobCell [AlphaJob ''a'', AlphaJob ''b''],
      MemberCell [\<lparr>dm_typeMeta = zero_typeMeta, dm_objectMeta = 0, dm_name = ''w-0'', dm_jobs = Slice 1 0 2,
        dm_state = \<lparr>ms_phase = PhaseRunning\<rparr>, dm_createdAt = 7\<rparr>],
      SwarmCell [\<lparr>dw_typeMeta = zero_typeMeta, dw_objectMeta = 0,
        dw_spec = \<lparr>ds_version = 1, ds_expectedSize = 0, ds_size = 1, ds_members = Slice 2 0 1\<rparr>,
        dw_status = \<lparr>ss_phase = []\<rparr>\<rparr>],
      SwarmListCell [\<lparr>dl_typeMeta = zero_typeMeta, dl_listMeta = (), dl_items = Slice 3 0 1\<rparr>]]"

lemma example_copies_lawful: "lawful_copy label_copy" "lawful_copy unit_copy"
  by (auto simp: lawful_copy_def label_copy_def unit_copy_def extends_def nth_append)

theorem deep_copies_isolated_witness:
  "\<exists>h'. Swarm_DeepCopyObject label_copy (Some (3, 0)) example_store = (Some (5, 0), h')
    \<and> length h' = 10 \<and> isolated_copy (swarm_reads label_copy) dest_swarms example_store (Some (3, 0)) h' (Some (5, 0))"
proof -
  note fit = slice_fit_def slice_ok_def elements_def array_def dest_defs example_store_def
    member_ok_def spec_ok_def swarm_ok_def swarmList_ok_def example_copies_lawful
  have m: "pointer_ok (member_ok label_copy) dest_members example_store (Some (2, 0))"
    and w: "pointer_ok (swarm_ok label_copy) dest_swarms example_store (Some (3, 0))"
    and l: "pointer_ok (swarmList_ok label_copy unit_copy) dest_swarmLists example_store (Some (4, 0))"
    by (simp_all add: pointer_ok_def fit, simp_all add: label_copy_def unit_copy_def)
  obtain pm hm where dm: "Member_DeepCopyObject label_copy (Some (2, 0)) example_store = (pm, hm)" by fastforce
  obtain pl hl where dl: "SwarmList_DeepCopyObject label_copy unit_copy (Some (4, 0)) example_store = (pl, hl)"
    by fastforce
  obtain q h' where d: "Swarm_DeepCopyObject label_copy (Some (3, 0)) example_store = (q, h')" by fastforce
  have "case Swarm_DeepCopyObject label_copy (Some (3, 0)) example_store of
      (q, h') \<Rightarrow> q = Some (5, 0) \<and> length h' = 10" by code_simp
  then have "q = Some (5, 0)" "length h' = 10" using d by simp_all
  then show ?thesis using deep_copies_isolated [OF m dm w d l dl] d by blast
qed

end
