(* ===== verification/Swarm_Client.thy ===== *)
theory Swarm_Client
  imports Kube Events
begin

text \<open>
  The generated client of the swarms,
  \<open>generated/clientset/versioned/typed/swarm/v1alpha1/swarm.go\<close>, and the watcher of
  \<open>operator/crd/watcher.go\<close> on top of it. Each method builds one request by a chain of calls and
  sends it: a chain is the list of its calls, and \<open>client-go\<close>'s REST client is a record of
  functions that take it. As in Go a method returns its result also when it returns an error.
\<close>

section \<open>Requests\<close>

record listOptions =
  lo_labelSelector :: string
  lo_timeoutSeconds :: "int option"
  lo_watch :: bool

text \<open>The other options are the library's, of type \<open>'o\<close>; so is the type of a patch.\<close>

datatype 'o params = OptionsParams 'o | ListParams listOptions

datatype 'o body = SwarmBody swarm | OptionsBody 'o | RawBody string

datatype 'o call =
    Verb string
  | Namespace string
  | Resource string
  | Name string
  | SubResource "string list"
  | VersionedParams "'o params"
  | Timeout int
  | Body "'o body"

record ('k, 'o, 'r, 'w) rest =
  rest_Do :: "'k \<Rightarrow> 'o call list \<Rightarrow> 'k \<times> 'r"
  rest_Into :: "'r \<Rightarrow> swarm \<Rightarrow> swarm \<times> goerror option"
  rest_IntoList :: "'r \<Rightarrow> swarmList \<Rightarrow> swarmList \<times> goerror option"
  rest_Error :: "'r \<Rightarrow> goerror option"
  rest_Watch :: "'k \<Rightarrow> 'o call list \<Rightarrow> 'k \<times> (goerror + 'w)"

section \<open>The methods of swarms\<close>

text \<open>A method with a swarm as its result.\<close>

definition send ::
    "('k, 'o, 'r, 'w) rest \<Rightarrow> 'k \<Rightarrow> 'o call list \<Rightarrow> 'k \<times> swarm \<times> goerror option" where
  "send client k calls =
     (let result = new_swarm;
          (k', r) = rest_Do client k calls;
          (result', err) = rest_Into client r result
      in (k', result', err))"

definition Swarms_Get where
  "Swarms_Get client ns k name options =
     send client k [Verb ''GET'', Namespace ns, Resource ''swarms'', Name name,
       VersionedParams (OptionsParams options)]"

definition list_timeout :: "listOptions \<Rightarrow> int" where
  "list_timeout opts =
     (case lo_timeoutSeconds opts of None \<Rightarrow> 0 | Some s \<Rightarrow> wrap64 (s * second_ns))"

definition Swarms_List where
  "Swarms_List client ns k opts =
     (let result = new_swarmList;
          (k', r) = rest_Do client k [Verb ''GET'', Namespace ns, Resource ''swarms'',
            VersionedParams (ListParams opts), Timeout (list_timeout opts)];
          (result', err) = rest_IntoList client r result
      in (k', result', err))"

definition Swarms_Watch where
  "Swarms_Watch client ns k opts =
     (let timeout = list_timeout opts;
          opts1 = opts\<lparr>lo_watch := True\<rparr>
      in rest_Watch client k [Verb ''GET'', Namespace ns, Resource ''swarms'',
           VersionedParams (ListParams opts1), Timeout timeout])"

definition Swarms_Create where
  "Swarms_Create client ns k sw opts =
     send client k [Verb ''POST'', Namespace ns, Resource ''swarms'',
       VersionedParams (OptionsParams opts), Body (SwarmBody sw)]"

definition Swarms_Update where
  "Swarms_Update client ns k sw opts =
     send client k [Verb ''PUT'', Namespace ns, Resource ''swarms'', Name (om_name (sw_objectMeta sw)),
       VersionedParams (OptionsParams opts), Body (SwarmBody sw)]"

definition Swarms_UpdateStatus where
  "Swarms_UpdateStatus client ns k sw opts =
     send client k [Verb ''PUT'', Namespace ns, Resource ''swarms'', Name (om_name (sw_objectMeta sw)),
       SubResource [''status''], VersionedParams (OptionsParams opts), Body (SwarmBody sw)]"

definition Swarms_Delete where
  "Swarms_Delete client ns k name opts =
     (let (k', r) = rest_Do client k [Verb ''DELETE'', Namespace ns, Resource ''swarms'', Name name,
            Body (OptionsBody opts)]
      in (k', rest_Error client r))"

definition Swarms_DeleteCollection where
  "Swarms_DeleteCollection client ns k opts listOpts =
     (let (k', r) = rest_Do client k [Verb ''DELETE'', Namespace ns, Resource ''swarms'',
            VersionedParams (ListParams listOpts), Timeout (list_timeout listOpts), Body (OptionsBody opts)]
      in (k', rest_Error client r))"

text \<open>\<open>Patch(pt)\<close> is the verb with the content type of the patch.\<close>

definition Swarms_Patch where
  "Swarms_Patch client ns k name pt patch opts subresources =
     send client k [Verb (''PATCH '' @ pt), Namespace ns, Resource ''swarms'', Name name,
       SubResource subresources, VersionedParams (OptionsParams opts), Body (RawBody patch)]"

section \<open>operator/crd/watcher.go\<close>

record ('k, 'o, 'r, 'w) swarm_watcher =
  sa_client :: "('k, 'o, 'r, 'w) rest"
  sa_namespace :: string

definition crd_NewListWatcherAdapter :: "('k, 'o, 'r, 'w) rest \<Rightarrow> string \<Rightarrow> ('k, 'o, 'r, 'w) swarm_watcher" where
  "crd_NewListWatcherAdapter c namespace = \<lparr>sa_client = c, sa_namespace = namespace\<rparr>"

definition crd_List where
  "crd_List a k options = Swarms_List (sa_client a) (sa_namespace a) k options"

definition crd_Watch where
  "crd_Watch a k options = Swarms_Watch (sa_client a) (sa_namespace a) k options"

section \<open>The client as the providers see it\<close>

text \<open>
  The providers use three methods, with empty options \<open>o0\<close>. This is the record that \<open>Kube\<close>
  takes for the client, with the generated code in the place of the parameter.
\<close>

definition generated_client :: "('k, 'o, 'r, 'w) rest \<Rightarrow> 'o \<Rightarrow> 'k versioned" where
  "generated_client client o0 =
     \<lparr>vc_getSwarm = (\<lambda>k ns name. case Swarms_Get client ns k name o0 of
         (k', sw, Some err) \<Rightarrow> Inl err | (k', sw, None) \<Rightarrow> Inr sw),
      vc_createSwarm = (\<lambda>k ns sw. case Swarms_Create client ns k sw o0 of
         (k', sw', Some err) \<Rightarrow> (k', Inl err) | (k', sw', None) \<Rightarrow> (k', Inr sw')),
      vc_updateSwarm = (\<lambda>k ns sw. case Swarms_Update client ns k sw o0 of
         (k', sw', Some err) \<Rightarrow> (k', Inl err) | (k', sw', None) \<Rightarrow> (k', Inr sw'))\<rparr>"

section \<open>What the API server does with a request\<close>

text \<open>A chain of calls sets the fields of one request.\<close>

record 'o request =
  rq_verb :: string
  rq_namespace :: string
  rq_resource :: string
  rq_name :: "string option"
  rq_subresource :: "string list"
  rq_params :: "'o params option"
  rq_timeout :: int
  rq_body :: "'o body option"

definition no_request :: "'o request" where
  "no_request = \<lparr>rq_verb = [], rq_namespace = [], rq_resource = [], rq_name = None, rq_subresource = [],
     rq_params = None, rq_timeout = 0, rq_body = None\<rparr>"

fun set_call :: "'o call \<Rightarrow> 'o request \<Rightarrow> 'o request" where
  "set_call (Verb v) rq = rq\<lparr>rq_verb := v\<rparr>"
| "set_call (Namespace ns) rq = rq\<lparr>rq_namespace := ns\<rparr>"
| "set_call (Resource r) rq = rq\<lparr>rq_resource := r\<rparr>"
| "set_call (Name n) rq = rq\<lparr>rq_name := Some n\<rparr>"
| "set_call (SubResource ss) rq = rq\<lparr>rq_subresource := ss\<rparr>"
| "set_call (VersionedParams p) rq = rq\<lparr>rq_params := Some p\<rparr>"
| "set_call (Timeout t) rq = rq\<lparr>rq_timeout := t\<rparr>"
| "set_call (Body b) rq = rq\<lparr>rq_body := Some b\<rparr>"

definition request_of :: "'o call list \<Rightarrow> 'o request" where
  "request_of calls = fold set_call calls no_request"

text \<open>
  The API server keeps a swarm per namespace and name, \<open>stored k ns name\<close>, under the name in its
  metadata. A \<open>GET\<close> of a swarm answers with the stored one, if there is one, and changes nothing;
  a \<open>POST\<close> that succeeds answers with a swarm of the body's name; a \<open>PUT\<close> without subresource
  that succeeds, and whose path is the body's name, stores the body's \<open>spec\<close> under that name. No
  request for swarms changes a config map.
\<close>

definition serves_swarms ::
    "('k, 'o, 'r, 'w) rest \<Rightarrow> ('k \<Rightarrow> string \<Rightarrow> string \<Rightarrow> swarm option) \<Rightarrow> 'k kube \<Rightarrow> bool" where
  "serves_swarms client stored cl \<longleftrightarrow>
     (\<forall>k ns name sw. stored k ns name = Some sw \<longrightarrow> om_name (sw_objectMeta sw) = name)
     \<and> (\<forall>k k' r calls z. let rq = request_of calls in
          rq_resource rq = ''swarms'' \<longrightarrow> rest_Do client k calls = (k', r) \<longrightarrow>
            (\<forall>ns name. kube_getConfigMap cl k' ns name = kube_getConfigMap cl k ns name)
            \<and> (\<forall>name. rq_verb rq = ''GET'' \<longrightarrow> rq_name rq = Some name \<longrightarrow> rq_subresource rq = [] \<longrightarrow>
                 k' = k \<and> (case stored k (rq_namespace rq) name of
                   None \<Rightarrow> snd (rest_Into client r z) \<noteq> None
                 | Some sw \<Rightarrow> rest_Into client r z = (sw, None)))
            \<and> (\<forall>sw sw'. rq_verb rq = ''POST'' \<longrightarrow> rq_body rq = Some (SwarmBody sw) \<longrightarrow>
                 rest_Into client r z = (sw', None) \<longrightarrow> om_name (sw_objectMeta sw') = om_name (sw_objectMeta sw))
            \<and> (\<forall>sw sw'. rq_verb rq = ''PUT'' \<longrightarrow> rq_subresource rq = [] \<longrightarrow> rq_body rq = Some (SwarmBody sw) \<longrightarrow>
                 rq_name rq = Some (om_name (sw_objectMeta sw)) \<longrightarrow> rest_Into client r z = (sw', None) \<longrightarrow>
                 (\<exists>s. stored k' (rq_namespace rq) (om_name (sw_objectMeta sw)) = Some s
                   \<and> sw_spec s = sw_spec sw)))"

lemma servesD:
  assumes "serves_swarms client stored cl" and "rq_resource (request_of calls) = ''swarms''"
    and "rest_Do client k calls = (k', r)"
  shows "kube_getConfigMap cl k' ns name = kube_getConfigMap cl k ns name"
    and "rq_verb (request_of calls) = ''GET'' \<Longrightarrow> rq_name (request_of calls) = Some name
      \<Longrightarrow> rq_subresource (request_of calls) = [] \<Longrightarrow> k' = k \<and> (case stored k (rq_namespace (request_of calls)) name of
        None \<Rightarrow> snd (rest_Into client r z) \<noteq> None | Some sw \<Rightarrow> rest_Into client r z = (sw, None))"
    and "rq_verb (request_of calls) = ''POST'' \<Longrightarrow> rq_body (request_of calls) = Some (SwarmBody sw)
      \<Longrightarrow> rest_Into client r z = (sw', None) \<Longrightarrow> om_name (sw_objectMeta sw') = om_name (sw_objectMeta sw)"
    and "rq_verb (request_of calls) = ''PUT'' \<Longrightarrow> rq_subresource (request_of calls) = []
      \<Longrightarrow> rq_body (request_of calls) = Some (SwarmBody sw) \<Longrightarrow> rq_name (request_of calls) = Some (om_name (sw_objectMeta sw))
      \<Longrightarrow> rest_Into client r z = (sw', None)
      \<Longrightarrow> \<exists>s. stored k' (rq_namespace (request_of calls)) (om_name (sw_objectMeta sw)) = Some s \<and> sw_spec s = sw_spec sw"
proof -
  note law = assms(1) [unfolded serves_swarms_def Let_def, THEN conjunct2, THEN spec, THEN spec, THEN spec,
      THEN spec, THEN spec, THEN mp, THEN mp, OF assms(2,3)]
  show "kube_getConfigMap cl k' ns name = kube_getConfigMap cl k ns name" using law by blast
  show "rq_verb (request_of calls) = ''GET'' \<Longrightarrow> rq_name (request_of calls) = Some name
      \<Longrightarrow> rq_subresource (request_of calls) = [] \<Longrightarrow> k' = k \<and> (case stored k (rq_namespace (request_of calls)) name of
        None \<Rightarrow> snd (rest_Into client r z) \<noteq> None | Some sw \<Rightarrow> rest_Into client r z = (sw, None))"
    using law [of z, THEN conjunct2, THEN conjunct1] by blast
  show "rq_verb (request_of calls) = ''POST'' \<Longrightarrow> rq_body (request_of calls) = Some (SwarmBody sw)
      \<Longrightarrow> rest_Into client r z = (sw', None) \<Longrightarrow> om_name (sw_objectMeta sw') = om_name (sw_objectMeta sw)"
    using law [of z, THEN conjunct2, THEN conjunct2, THEN conjunct1] by blast
  show "rq_verb (request_of calls) = ''PUT'' \<Longrightarrow> rq_subresource (request_of calls) = []
      \<Longrightarrow> rq_body (request_of calls) = Some (SwarmBody sw) \<Longrightarrow> rq_name (request_of calls) = Some (om_name (sw_objectMeta sw))
      \<Longrightarrow> rest_Into client r z = (sw', None)
      \<Longrightarrow> \<exists>s. stored k' (rq_namespace (request_of calls)) (om_name (sw_objectMeta sw)) = Some s \<and> sw_spec s = sw_spec sw"
    using law [of z, THEN conjunct2, THEN conjunct2, THEN conjunct2] by blast
qed

lemma stored_name:
  "serves_swarms client stored cl \<Longrightarrow> stored k ns name = Some sw \<Longrightarrow> om_name (sw_objectMeta sw) = name"
  unfolding serves_swarms_def by blast

lemmas request_simps = request_of_def no_request_def

text \<open>A \<open>Get\<close> of the generated client reads the server's store.\<close>

lemma generated_get:
  assumes "serves_swarms client stored cl"
  shows "vc_getSwarm (generated_client client o0) k ns name = Inr sw \<longleftrightarrow> stored k ns name = Some sw"
proof -
  let ?calls = "[Verb ''GET'', Namespace ns, Resource ''swarms'', Name name, VersionedParams (OptionsParams o0)]"
  obtain k' r where d: "rest_Do client k ?calls = (k', r)" by fastforce
  obtain sw' err where i: "rest_Into client r new_swarm = (sw', err)" by fastforce
  have "case stored k ns name of None \<Rightarrow> snd (rest_Into client r new_swarm) \<noteq> None
      | Some sw \<Rightarrow> rest_Into client r new_swarm = (sw, None)"
    using servesD(2) [OF assms _ d, of name new_swarm] by (simp add: request_simps)
  then show ?thesis
    by (auto simp: generated_client_def Swarms_Get_def send_def d i Let_def split: option.splits)
qed

lemma generated_create_name:
  assumes "serves_swarms client stored cl"
    and "vc_createSwarm (generated_client client o0) k ns sw = (k', Inr sw')"
  shows "om_name (sw_objectMeta sw') = om_name (sw_objectMeta sw)"
proof -
  let ?calls = "[Verb ''POST'', Namespace ns, Resource ''swarms'', VersionedParams (OptionsParams o0), Body (SwarmBody sw)]"
  obtain k1 r where d: "rest_Do client k ?calls = (k1, r)" by fastforce
  have "rest_Into client r new_swarm = (sw', None)"
    using assms(2)
    by (auto simp: generated_client_def Swarms_Create_def send_def d Let_def split: prod.splits option.splits)
  then show ?thesis
    using servesD(3) [OF assms(1) _ d, of sw new_swarm sw'] by (simp add: request_simps)
qed

lemma generated_update_stored:
  assumes "serves_swarms client stored cl"
    and "vc_updateSwarm (generated_client client o0) k ns sw = (k', Inr sw')"
  shows "\<exists>s. stored k' ns (om_name (sw_objectMeta sw)) = Some s \<and> sw_spec s = sw_spec sw"
proof -
  let ?calls = "[Verb ''PUT'', Namespace ns, Resource ''swarms'', Name (om_name (sw_objectMeta sw)),
    VersionedParams (OptionsParams o0), Body (SwarmBody sw)]"
  obtain k1 r where d: "rest_Do client k ?calls = (k1, r)" by fastforce
  have "k1 = k'" "rest_Into client r new_swarm = (sw', None)"
    using assms(2)
    by (auto simp: generated_client_def Swarms_Update_def send_def d Let_def split: prod.splits option.splits)
  then show ?thesis
    using servesD(4) [OF assms(1) _ d, of sw new_swarm sw'] by (simp add: request_simps)
qed

lemma generated_config_maps:
  assumes "serves_swarms client stored cl"
  shows "kube_getConfigMap cl (fst (vc_createSwarm (generated_client client o0) k ns' sw)) ns name
      = kube_getConfigMap cl k ns name"
    and "kube_getConfigMap cl (fst (vc_updateSwarm (generated_client client o0) k ns' sw)) ns name
      = kube_getConfigMap cl k ns name"
proof -
  have same: "kube_getConfigMap cl (fst (send client k calls)) ns name = kube_getConfigMap cl k ns name"
    if "rq_resource (request_of calls) = ''swarms''" for calls
    using servesD(1) [OF assms that] by (simp add: send_def Let_def split: prod.split)
  show "kube_getConfigMap cl (fst (vc_createSwarm (generated_client client o0) k ns' sw)) ns name
      = kube_getConfigMap cl k ns name"
    using same [of "[Verb ''POST'', Namespace ns', Resource ''swarms'', VersionedParams (OptionsParams o0), Body (SwarmBody sw)]"]
    by (auto simp: request_simps generated_client_def Swarms_Create_def split: prod.splits option.split)
  show "kube_getConfigMap cl (fst (vc_updateSwarm (generated_client client o0) k ns' sw)) ns name
      = kube_getConfigMap cl k ns name"
    using same [of "[Verb ''PUT'', Namespace ns', Resource ''swarms'', Name (om_name (sw_objectMeta sw)),
        VersionedParams (OptionsParams o0), Body (SwarmBody sw)]"]
    by (auto simp: request_simps generated_client_def Swarms_Update_def split: prod.splits option.split)
qed

section \<open>Properties\<close>

text \<open>
  C27 The generated client is a client as the swarm provider needs it: over any API server that
  keeps swarms by namespace and name, what \<open>Get\<close> finds or \<open>Create\<close> answers, changed in its \<open>spec\<close>
  and sent by \<open>Update\<close>, is what the next \<open>Get\<close> reads; \<open>Get\<close> finds exactly what is stored; and no
  method touches a config map. So every statement about the providers holds with this client.
\<close>

theorem generated_client_lawful:
  assumes "serves_swarms client stored cl"
  shows "swarm_laws (generated_client client o0) \<and> separate_laws cl (generated_client client o0)
    \<and> (vc_getSwarm (generated_client client o0) k ns name = Inr sw \<longleftrightarrow> stored k ns name = Some sw)"
proof -
  let ?vc = "generated_client client o0"
  have "\<exists>sw'. vc_getSwarm ?vc k' ns name = Inr sw' \<and> sw_spec sw' = spec"
    if origin: "vc_getSwarm ?vc k ns name = Inr sw
        \<or> (\<exists>k0 s0. vc_createSwarm ?vc k0 ns s0 = (k, Inr sw) \<and> om_name (sw_objectMeta s0) = name)"
      and upd: "vc_updateSwarm ?vc k ns (sw\<lparr>sw_spec := spec\<rparr>) = (k', Inr r)" for k k' ns name sw spec r
  proof -
    have "om_name (sw_objectMeta sw) = name"
      using origin generated_get [OF assms] stored_name [OF assms] generated_create_name [OF assms] by metis
    then obtain s where "stored k' ns name = Some s" "sw_spec s = spec"
      using generated_update_stored [OF assms upd] by auto
    then show ?thesis using generated_get [OF assms] by blast
  qed
  then have "swarm_laws ?vc" unfolding swarm_laws_def by blast
  moreover have "separate_laws cl ?vc"
    unfolding separate_laws_def using generated_config_maps [OF assms] by blast
  ultimately show ?thesis using generated_get [OF assms] by blast
qed

text \<open>An API server over \<open>cluster\<close>, for requests without subresources.\<close>

definition example_rest :: "(cluster, unit, goerror + swarm, unit) rest" where
  "example_rest =
     \<lparr>rest_Do = (\<lambda>k calls.
        let rq = request_of calls in
        if rq_verb rq = ''GET'' then (k, case rq_name rq of
            None \<Rightarrow> Inl (OtherError ''unsupported'')
          | Some n \<Rightarrow> (case map_of (cl_swarms k) (rq_namespace rq, n) of
              None \<Rightarrow> Inl (StatusError ''NotFound'')
            | Some sw \<Rightarrow> Inr (sw\<lparr>sw_objectMeta := (sw_objectMeta sw)\<lparr>om_name := n\<rparr>\<rparr>)))
        else (case rq_body rq of
            Some (SwarmBody sw) \<Rightarrow>
              (k\<lparr>cl_swarms := AList.update (rq_namespace rq, om_name (sw_objectMeta sw)) sw (cl_swarms k)\<rparr>, Inr sw)
          | _ \<Rightarrow> (k, Inl (OtherError ''unsupported'')))),
      rest_Into = (\<lambda>r z. case r of Inl err \<Rightarrow> (z, Some err) | Inr sw \<Rightarrow> (sw, None)),
      rest_IntoList = (\<lambda>r z. (z, Some (OtherError ''unsupported''))),
      rest_Error = (\<lambda>r. case r of Inl err \<Rightarrow> Some err | Inr _ \<Rightarrow> None),
      rest_Watch = (\<lambda>k calls. (k, Inl (OtherError ''unsupported'')))\<rparr>"

definition example_stored :: "cluster \<Rightarrow> string \<Rightarrow> string \<Rightarrow> swarm option" where
  "example_stored k ns name =
     map_option (\<lambda>sw. sw\<lparr>sw_objectMeta := (sw_objectMeta sw)\<lparr>om_name := name\<rparr>\<rparr>) (map_of (cl_swarms k) (ns, name))"

lemma example_serves: "serves_swarms example_rest example_stored example_kube"
proof -
  have "\<exists>s. example_stored k' (rq_namespace rq) (om_name (sw_objectMeta sw)) = Some s \<and> sw_spec s = sw_spec sw"
    if "k' = k\<lparr>cl_swarms := AList.update (rq_namespace rq, om_name (sw_objectMeta sw)) sw (cl_swarms k)\<rparr>"
    for k k' and rq :: "unit request" and sw
    using that by (simp add: example_stored_def map_simps)
  then show ?thesis
    unfolding serves_swarms_def
    by (auto simp: example_rest_def example_stored_def example_kube_def Let_def map_simps
        split: option.splits body.splits if_splits)
qed

definition example_swarm :: swarm where
  "example_swarm = new_swarm\<lparr>sw_objectMeta := zero_objectMeta\<lparr>om_name := ''w''\<rparr>\<rparr>"

theorem generated_client_lawful_witness:
  "swarm_laws (generated_client example_rest ())
   \<and> vc_getSwarm (generated_client example_rest ())
       (fst (vc_createSwarm (generated_client example_rest ())
          \<lparr>cl_configMaps = [], cl_swarms = [], cl_deleted = []\<rparr> ''swarm'' example_swarm)) ''swarm'' ''w''
     = Inr example_swarm"
proof -
  let ?k = "fst (vc_createSwarm (generated_client example_rest ())
      \<lparr>cl_configMaps = [], cl_swarms = [], cl_deleted = []\<rparr> ''swarm'' example_swarm)"
  have "example_stored ?k ''swarm'' ''w'' = Some example_swarm"
    by (simp add: generated_client_def Swarms_Create_def send_def example_rest_def request_simps Let_def
        example_stored_def example_swarm_def new_swarm_def zero_objectMeta_def)
  then show ?thesis
    using generated_client_lawful [OF example_serves, where ?o0.0 = "()" and k = ?k and ns = "''swarm''"
        and name = "''w''" and sw = example_swarm] by blast
qed

end
