(* ===== verification/Registration.thy ===== *)
theory Registration
  imports Kube
begin

text \<open>
  The registration of the types of the API group, \<open>apis/swarm/v1alpha1/register.go\<close>, and the two
  generated packages that register them in a scheme of their own when they are initialised,
  \<open>clientset/versioned/scheme/register.go\<close> and \<open>clientset/versioned/fake/register.go\<close>. The group's
  name is a constant of another repository, and so an argument here. The scheme is the library's: what
  is relied on is \<open>scheme_laws\<close>, over \<open>known\<close>, the type that a scheme has for a kind.
\<close>

section \<open>apis/swarm/v1alpha1/register.go\<close>

text \<open>A group with a version is a pair, a kind or a resource of it a triple, as in \<open>schema\<close>.\<close>

type_synonym groupVersion = "string \<times> string"

definition SchemeGroupVersion :: "string \<Rightarrow> groupVersion" where
  "SchemeGroupVersion group_name = (group_name, ''v1alpha1'')"

definition qualify :: "groupVersion \<Rightarrow> string \<Rightarrow> string \<times> string \<times> string" where
  "qualify gv name = (fst gv, snd gv, name)"

definition schema_Kind :: "string \<Rightarrow> string \<Rightarrow> string \<times> string" where
  "schema_Kind group_name kind = (let gvk = qualify (SchemeGroupVersion group_name) kind in (fst gvk, snd (snd gvk)))"

definition schema_Resource :: "string \<Rightarrow> string \<Rightarrow> string \<times> string" where
  "schema_Resource group_name resource =
     (let gvr = qualify (SchemeGroupVersion group_name) resource in (fst gvr, snd (snd gvr)))"

text \<open>The types that can be registered: those of the package that are objects, and the library's.\<close>

datatype object_type = SwarmObject | SwarmListObject | MemberObject | LibraryObject string

fun type_name :: "object_type \<Rightarrow> string" where
  "type_name SwarmObject = ''Swarm''"
| "type_name SwarmListObject = ''SwarmList''"
| "type_name MemberObject = ''Member''"
| "type_name (LibraryObject n) = n"

type_synonym 's scheme_function = "'s \<Rightarrow> ('s \<times> goerror option) go"

record 's scheme_library =
  rt_NewScheme :: 's
  rt_AddKnownTypes :: "groupVersion \<Rightarrow> object_type list \<Rightarrow> 's \<Rightarrow> 's go"
  rt_AddToGroupVersion :: "groupVersion \<Rightarrow> 's \<Rightarrow> 's go"
  rt_AddToScheme :: "'s scheme_function list \<Rightarrow> 's scheme_function"
  rt_Must :: "goerror option \<Rightarrow> unit go"

definition addKnownTypes :: "'s scheme_library \<Rightarrow> string \<Rightarrow> 's scheme_function" where
  "addKnownTypes lib group_name scheme =
     go_bind (rt_AddKnownTypes lib (SchemeGroupVersion group_name) [SwarmObject, SwarmListObject] scheme) (\<lambda>s1.
     go_bind (rt_AddToGroupVersion lib (SchemeGroupVersion group_name) s1) (\<lambda>s2.
     Inr (s2, None)))"

definition SchemeBuilder :: "'s scheme_library \<Rightarrow> string \<Rightarrow> 's scheme_function list" where
  "SchemeBuilder lib group_name = [addKnownTypes lib group_name]"

definition AddToScheme :: "'s scheme_library \<Rightarrow> string \<Rightarrow> 's scheme_function" where
  "AddToScheme lib group_name = rt_AddToScheme lib (SchemeBuilder lib group_name)"

section \<open>The two generated packages\<close>

definition scheme_localSchemeBuilder :: "'s scheme_library \<Rightarrow> string \<Rightarrow> 's scheme_function list" where
  "scheme_localSchemeBuilder lib group_name = [AddToScheme lib group_name]"

definition scheme_AddToScheme :: "'s scheme_library \<Rightarrow> string \<Rightarrow> 's scheme_function" where
  "scheme_AddToScheme lib group_name = rt_AddToScheme lib (scheme_localSchemeBuilder lib group_name)"

definition scheme_init :: "'s scheme_library \<Rightarrow> string \<Rightarrow> 's \<Rightarrow> 's go" where
  "scheme_init lib group_name scheme =
     go_bind (rt_AddToGroupVersion lib ([], ''v1'') scheme) (\<lambda>s1.
     go_bind (scheme_AddToScheme lib group_name s1) (\<lambda>(s2, err).
     go_bind (rt_Must lib err) (\<lambda>_. Inr s2)))"

definition fake_localSchemeBuilder :: "'s scheme_library \<Rightarrow> string \<Rightarrow> 's scheme_function list" where
  "fake_localSchemeBuilder lib group_name = [AddToScheme lib group_name]"

definition fake_AddToScheme :: "'s scheme_library \<Rightarrow> string \<Rightarrow> 's scheme_function" where
  "fake_AddToScheme lib group_name = rt_AddToScheme lib (fake_localSchemeBuilder lib group_name)"

definition fake_init :: "'s scheme_library \<Rightarrow> string \<Rightarrow> 's \<Rightarrow> 's go" where
  "fake_init lib group_name scheme =
     go_bind (rt_AddToGroupVersion lib ([], ''v1'') scheme) (\<lambda>s1.
     go_bind (fake_AddToScheme lib group_name s1) (\<lambda>(s2, err).
     go_bind (rt_Must lib err) (\<lambda>_. Inr s2)))"

text \<open>The variables of the packages once they are initialised.\<close>

definition scheme_Scheme :: "'s scheme_library \<Rightarrow> string \<Rightarrow> 's go" where
  "scheme_Scheme lib group_name = scheme_init lib group_name (rt_NewScheme lib)"

definition fake_scheme :: "'s scheme_library \<Rightarrow> string \<Rightarrow> 's go" where
  "fake_scheme lib group_name = fake_init lib group_name (rt_NewScheme lib)"

section \<open>What the scheme knows\<close>

text \<open>A builder runs its functions in order, up to the first error.\<close>

fun run_builder :: "'s scheme_function list \<Rightarrow> 's scheme_function" where
  "run_builder [] s = Inr (s, None)"
| "run_builder (f # fs) s = go_bind (f s) (\<lambda>(s', err). case err of None \<Rightarrow> run_builder fs s' | Some e \<Rightarrow> Inr (s', err))"

text \<open>
  The documentation of the library: \<open>AddKnownTypes\<close> registers each type under its name and panics
  for an empty version or for a kind that has another type; \<open>AddToGroupVersion\<close> registers types of
  the library under the kinds \<open>meta\<close>, among them \<open>opts\<close> under the version it is given.
\<close>

type_synonym 's known = "'s \<Rightarrow> string \<times> string \<times> string \<Rightarrow> object_type option"

definition no_conflict :: "'s known \<Rightarrow> string set \<Rightarrow> 's \<Rightarrow> bool" where
  "no_conflict known meta s \<longleftrightarrow>
     (\<forall>g v k. k \<in> meta \<longrightarrow> known s (g, v, k) = None \<or> (\<exists>n. known s (g, v, k) = Some (LibraryObject n)))"

definition adds_types :: "'s known \<Rightarrow> groupVersion \<Rightarrow> object_type list \<Rightarrow> 's \<Rightarrow> 's \<Rightarrow> bool" where
  "adds_types known gv types s s' \<longleftrightarrow>
     (\<forall>g v k. known s' (g, v, k) =
        (if (g, v) = gv then (case find (\<lambda>t. type_name t = k) types of None \<Rightarrow> known s (g, v, k) | Some t \<Rightarrow> Some t)
         else known s (g, v, k)))"

definition scheme_laws :: "'s scheme_library \<Rightarrow> 's known \<Rightarrow> string set \<Rightarrow> string set \<Rightarrow> bool" where
  "scheme_laws lib known meta opts \<longleftrightarrow>
     (\<forall>gvk. known (rt_NewScheme lib) gvk = None)
     \<and> (\<forall>gv types s. snd gv \<noteq> [] \<and> (\<forall>t\<in>set types. known s (qualify gv (type_name t)) = None)
          \<longrightarrow> (\<exists>s'. rt_AddKnownTypes lib gv types s = Inr s' \<and> adds_types known gv types s s'))
     \<and> (\<forall>gv s. no_conflict known meta s \<longrightarrow> (\<exists>s'. rt_AddToGroupVersion lib gv s = Inr s' \<and> no_conflict known meta s'
          \<and> (\<forall>g v k. k \<notin> meta \<longrightarrow> known s' (g, v, k) = known s (g, v, k))
          \<and> (\<forall>gvk. known s gvk \<noteq> None \<longrightarrow> known s' gvk \<noteq> None)
          \<and> (\<forall>k\<in>opts. known s' (qualify gv k) \<noteq> None)))
     \<and> opts \<subseteq> meta \<and> meta \<inter> {''Swarm'', ''SwarmList'', ''Member''} = {}
     \<and> (\<forall>fs s. rt_AddToScheme lib fs s = run_builder fs s)
     \<and> rt_Must lib None = Inr () \<and> (\<forall>e. panics (rt_Must lib (Some e)))"

definition knows_swarms :: "'s known \<Rightarrow> string set \<Rightarrow> string set \<Rightarrow> string \<Rightarrow> 's \<Rightarrow> bool" where
  "knows_swarms known meta opts group_name s \<longleftrightarrow>
     (\<forall>g v k. k \<notin> meta \<longrightarrow> known s (g, v, k) =
        (if (g, v) \<noteq> (group_name, ''v1alpha1'') then None
         else if k = ''Swarm'' then Some SwarmObject else if k = ''SwarmList'' then Some SwarmListObject else None))
     \<and> (\<forall>g v k. k \<in> meta \<longrightarrow> known s (g, v, k) = None \<or> (\<exists>n. known s (g, v, k) = Some (LibraryObject n)))
     \<and> (\<forall>k\<in>opts. known s ([], ''v1'', k) \<noteq> None \<and> known s (group_name, ''v1alpha1'', k) \<noteq> None)"

lemma qualify_simps [simp]: "qualify gv k = (fst gv, snd gv, k)"
  by (simp add: qualify_def)

text \<open>One initialisation, as both packages have it.\<close>

lemma registers:
  assumes "scheme_laws lib known meta opts"
  obtains s where "scheme_Scheme lib group_name = Inr s" and "fake_scheme lib group_name = Inr s"
    and "knows_swarms known meta opts group_name s"
proof -
  note laws = assms [unfolded scheme_laws_def]
  have new: "known (rt_NewScheme lib) gvk = None" for gvk
    by (rule laws [THEN conjunct1, rule_format])
  have apart: "''Swarm'' \<notin> meta" "''SwarmList'' \<notin> meta" "opts \<subseteq> meta" using laws by simp_all
  have group: "\<exists>s'. rt_AddToGroupVersion lib gv s = Inr s' \<and> no_conflict known meta s'
      \<and> (\<forall>g v k. k \<notin> meta \<longrightarrow> known s' (g, v, k) = known s (g, v, k))
      \<and> (\<forall>gvk. known s gvk \<noteq> None \<longrightarrow> known s' gvk \<noteq> None)
      \<and> (\<forall>k\<in>opts. known s' (qualify gv k) \<noteq> None)" if "no_conflict known meta s" for gv s
    using that by (rule laws [THEN conjunct2, THEN conjunct2, THEN conjunct1, rule_format])
  have types: "\<exists>s'. rt_AddKnownTypes lib gv types s = Inr s' \<and> adds_types known gv types s s'"
    if "snd gv \<noteq> []" "\<forall>t\<in>set types. known s (qualify gv (type_name t)) = None" for gv types s
    using that by (intro laws [THEN conjunct2, THEN conjunct1, rule_format] conjI) blast+
  have "no_conflict known meta (rt_NewScheme lib)" by (simp add: no_conflict_def new)
  from group [OF this, of "([], ''v1'')"] obtain s1 where s1: "rt_AddToGroupVersion lib ([], ''v1'') (rt_NewScheme lib) = Inr s1"
    "no_conflict known meta s1" "\<And>g v k. k \<notin> meta \<Longrightarrow> known s1 (g, v, k) = None" "\<And>k. k \<in> opts \<Longrightarrow> known s1 ([], ''v1'', k) \<noteq> None"
    by (auto simp: new)
  obtain s2 where s2: "rt_AddKnownTypes lib (SchemeGroupVersion group_name) [SwarmObject, SwarmListObject] s1 = Inr s2"
    "adds_types known (SchemeGroupVersion group_name) [SwarmObject, SwarmListObject] s1 s2"
    using types [of "SchemeGroupVersion group_name" "[SwarmObject, SwarmListObject]" s1] s1(3) apart
    by (auto simp: SchemeGroupVersion_def)
  have k2: "known s2 (g, v, k) = (if (g, v) = (group_name, ''v1alpha1'') \<and> k = ''Swarm'' then Some SwarmObject
      else if (g, v) = (group_name, ''v1alpha1'') \<and> k = ''SwarmList'' then Some SwarmListObject
      else known s1 (g, v, k))" for g v k
    using s2(2) by (auto simp: adds_types_def SchemeGroupVersion_def)
  have "no_conflict known meta s2" using s1(2) apart by (auto simp: no_conflict_def k2)
  from group [OF this, of "SchemeGroupVersion group_name"] obtain s3 where
    s3: "rt_AddToGroupVersion lib (SchemeGroupVersion group_name) s2 = Inr s3" "no_conflict known meta s3"
    "\<And>g v k. k \<notin> meta \<Longrightarrow> known s3 (g, v, k) = known s2 (g, v, k)" "\<And>gvk. known s2 gvk \<noteq> None \<Longrightarrow> known s3 gvk \<noteq> None"
    "\<And>k. k \<in> opts \<Longrightarrow> known s3 (group_name, ''v1alpha1'', k) \<noteq> None"
    unfolding qualify_simps SchemeGroupVersion_def fst_conv snd_conv by blast
  have add: "rt_AddToScheme lib fs s = run_builder fs s" and must: "rt_Must lib None = Inr ()" for fs s
    using laws by simp_all
  have run: "scheme_Scheme lib group_name = Inr s3" "fake_scheme lib group_name = Inr s3"
    by (simp_all add: scheme_Scheme_def fake_scheme_def scheme_init_def fake_init_def scheme_AddToScheme_def
        fake_AddToScheme_def scheme_localSchemeBuilder_def fake_localSchemeBuilder_def AddToScheme_def
        SchemeBuilder_def addKnownTypes_def add must s1(1) s2(1) s3(1))
  have "known s3 ([], ''v1'', k) \<noteq> None" if "k \<in> opts" for k
    using s1(4) [OF that] by (intro s3(4)) (simp add: k2)
  then have "knows_swarms known meta opts group_name s3"
    using s3(2,5) by (auto simp: knows_swarms_def no_conflict_def s3(3) k2 s1(3))
  with run show thesis by (rule that)
qed

lemma knows_swarm_iff:
  assumes "knows_swarms known meta opts group_name s" and "''Swarm'' \<notin> meta"
  shows "known s gvk = Some SwarmObject \<longleftrightarrow> gvk = (group_name, ''v1alpha1'', ''Swarm'')"
proof -
  obtain g v k where gvk: "gvk = (g, v, k)" by (cases gvk)
  show ?thesis
  proof (cases "k \<in> meta")
    case True
    then have "known s (g, v, k) = None \<or> (\<exists>n. known s (g, v, k) = Some (LibraryObject n))"
      by (rule assms(1) [unfolded knows_swarms_def, THEN conjunct2, THEN conjunct1, rule_format])
    then show ?thesis using True assms(2) gvk by auto
  next
    case False
    then have "known s (g, v, k) = (if (g, v) \<noteq> (group_name, ''v1alpha1'') then None
         else if k = ''Swarm'' then Some SwarmObject else if k = ''SwarmList'' then Some SwarmListObject else None)"
      by (rule assms(1) [unfolded knows_swarms_def, THEN conjunct1, rule_format])
    then show ?thesis using gvk by (auto split: if_splits)
  qed
qed

section \<open>An instance of the library\<close>

text \<open>A scheme as a map of kinds, with one kind of the library's own.\<close>

definition example_scheme_library :: "(string \<times> string \<times> string \<rightharpoonup> object_type) scheme_library" where
  "example_scheme_library =
     \<lparr>rt_NewScheme = Map.empty,
      rt_AddKnownTypes = (\<lambda>gv types s.
        if snd gv = [] then Inl (Panicked (OtherError ''version is required on all types''))
        else Inr (fold (\<lambda>t s. s((fst gv, snd gv, type_name t) \<mapsto> t)) (rev types) s)),
      rt_AddToGroupVersion = (\<lambda>gv s. Inr (s((fst gv, snd gv, ''ListOptions'') \<mapsto> LibraryObject ''ListOptions''))),
      rt_AddToScheme = run_builder,
      rt_Must = (\<lambda>err. case err of None \<Rightarrow> Inr () | Some e \<Rightarrow> Inl (Panicked e))\<rparr>"

lemma fold_types:
  "fold (\<lambda>t s. s((fst gv, snd gv, type_name t) \<mapsto> t)) (rev types) s (g, v, k) =
     (if (g, v) = gv then (case find (\<lambda>t. type_name t = k) types of None \<Rightarrow> s (g, v, k) | Some t \<Rightarrow> Some t)
      else s (g, v, k))"
  by (induction types) (auto split: option.splits)

lemma example_scheme_laws: "scheme_laws example_scheme_library (\<lambda>s. s) {''ListOptions''} {''ListOptions''}"
  unfolding scheme_laws_def
proof (intro conjI allI impI)
  fix gv :: groupVersion and types and s :: "string \<times> string \<times> string \<rightharpoonup> object_type"
  assume "snd gv \<noteq> [] \<and> (\<forall>t\<in>set types. s (qualify gv (type_name t)) = None)"
  then show "\<exists>s'. rt_AddKnownTypes example_scheme_library gv types s = Inr s' \<and> adds_types (\<lambda>s. s) gv types s s'"
    unfolding adds_types_def by (simp add: example_scheme_library_def fold_types)
qed (auto simp: example_scheme_library_def no_conflict_def)

end
