(* ===== verification/Informer_Factory.thy ===== *)
theory Informer_Factory
  imports Swarm_Client Registration
begin

text \<open>
  The generated informers, \<open>generated/informers/externalversions\<close>: the factory that shares one
  informer per type (\<open>factory.go\<close>, \<open>generic.go\<close>) and the informer of swarms
  (\<open>swarm/v1alpha1/swarm.go\<close>). \<open>client-go\<close>'s informer is what it is built from: the functions
  that list and watch, the period and the indexers. Informers are shared by pointer, so a factory
  maps a type to the address of one in a list of all informers; \<open>go informer.Run(stopCh)\<close> appends
  the address to the list of runs. The factory's mutex makes each method one step.
\<close>

section \<open>The informer of swarms\<close>

record ('k, 'w, 'x) informer =
  in_list :: "'k \<Rightarrow> listOptions \<Rightarrow> 'k \<times> swarmList \<times> goerror option"
  in_watch :: "'k \<Rightarrow> listOptions \<Rightarrow> 'k \<times> (goerror + 'w)"
  in_resync :: int
  in_indexers :: 'x

text \<open>A function that changes the options is nil, or a function.\<close>

type_synonym tweak = "(listOptions \<Rightarrow> listOptions) option"

definition NewFilteredSwarmInformer ::
    "('k, 'o, 'r, 'w) rest \<Rightarrow> string \<Rightarrow> int \<Rightarrow> 'x \<Rightarrow> tweak \<Rightarrow> ('k, 'w, 'x) informer" where
  "NewFilteredSwarmInformer client namespace resyncPeriod indexers tweakListOptions =
     \<lparr>in_list = (\<lambda>k options.
        let options1 = (case tweakListOptions of None \<Rightarrow> options | Some f \<Rightarrow> f options)
        in Swarms_List client namespace k options1),
      in_watch = (\<lambda>k options.
        let options1 = (case tweakListOptions of None \<Rightarrow> options | Some f \<Rightarrow> f options)
        in Swarms_Watch client namespace k options1),
      in_resync = resyncPeriod,
      in_indexers = indexers\<rparr>"

definition NewSwarmInformer ::
    "('k, 'o, 'r, 'w) rest \<Rightarrow> string \<Rightarrow> int \<Rightarrow> 'x \<Rightarrow> ('k, 'w, 'x) informer" where
  "NewSwarmInformer client namespace resyncPeriod indexers =
     NewFilteredSwarmInformer client namespace resyncPeriod indexers None"

section \<open>The factory\<close>

record ('cl, 't) factory =
  fa_client :: 'cl
  fa_namespace :: string
  fa_tweakListOptions :: tweak
  fa_defaultResync :: int
  fa_customResync :: "('t, int) gomap"
  fa_informers :: "('t, nat) gomap"
  fa_startedInformers :: "('t, bool) gomap"

text \<open>All informers that exist, and the ones that were run, in order.\<close>

record 'i informer_world =
  iw_informers :: "'i list"
  iw_runs :: "nat list"

type_synonym ('cl, 't) factory_option = "('cl, 't) factory \<Rightarrow> ('cl, 't) factory"

fun resync_loop :: "('ob \<Rightarrow> 't) \<Rightarrow> ('ob \<times> int) list \<Rightarrow> ('t, int) gomap \<Rightarrow> ('t, int) gomap" where
  "resync_loop type_of [] m = m"
| "resync_loop type_of ((k, v) # rest) m = resync_loop type_of rest (AList.update (type_of k) v m)"

definition WithCustomResyncConfig ::
    "'ob range_order \<Rightarrow> ('ob \<Rightarrow> 't) \<Rightarrow> ('ob, int) gomap \<Rightarrow> ('cl, 't) factory_option" where
  "WithCustomResyncConfig ro type_of resyncConfig f =
     f\<lparr>fa_customResync := resync_loop type_of (mrange ro resyncConfig) (fa_customResync f)\<rparr>"

definition WithTweakListOptions :: "tweak \<Rightarrow> ('cl, 't) factory_option" where
  "WithTweakListOptions tweak f = f\<lparr>fa_tweakListOptions := tweak\<rparr>"

definition WithNamespace :: "string \<Rightarrow> ('cl, 't) factory_option" where
  "WithNamespace namespace f = f\<lparr>fa_namespace := namespace\<rparr>"

definition NewSharedInformerFactoryWithOptions ::
    "'cl \<Rightarrow> int \<Rightarrow> ('cl, 't) factory_option list \<Rightarrow> ('cl, 't) factory" where
  "NewSharedInformerFactoryWithOptions client defaultResync options =
     (let f = \<lparr>fa_client = client, fa_namespace = [], fa_tweakListOptions = None,
            fa_defaultResync = defaultResync, fa_customResync = [], fa_informers = [], fa_startedInformers = []\<rparr>
      in fold (\<lambda>opt f. opt f) options f)"

definition NewSharedInformerFactory :: "'cl \<Rightarrow> int \<Rightarrow> ('cl, 't) factory" where
  "NewSharedInformerFactory client defaultResync = NewSharedInformerFactoryWithOptions client defaultResync []"

definition NewFilteredSharedInformerFactory :: "'cl \<Rightarrow> int \<Rightarrow> string \<Rightarrow> tweak \<Rightarrow> ('cl, 't) factory" where
  "NewFilteredSharedInformerFactory client defaultResync namespace tweak =
     NewSharedInformerFactoryWithOptions client defaultResync [WithNamespace namespace, WithTweakListOptions tweak]"

text \<open>A missing key of \<open>startedInformers\<close> reads as false.\<close>

definition is_started :: "('cl, 't) factory \<Rightarrow> 't \<Rightarrow> bool" where
  "is_started f t = (case map_of (fa_startedInformers f) t of None \<Rightarrow> False | Some b \<Rightarrow> b)"

fun start_loop :: "('t \<times> nat) list \<Rightarrow> ('cl, 't) factory \<Rightarrow> nat list \<Rightarrow> ('cl, 't) factory \<times> nat list" where
  "start_loop [] f runs = (f, runs)"
| "start_loop ((t, a) # rest) f runs =
     (if \<not> is_started f t
      then start_loop rest (f\<lparr>fa_startedInformers := AList.update t True (fa_startedInformers f)\<rparr>) (runs @ [a])
      else start_loop rest f runs)"

definition factory_Start ::
    "'t range_order \<Rightarrow> ('cl, 't) factory \<times> 'i informer_world \<Rightarrow> ('cl, 't) factory \<times> 'i informer_world" where
  "factory_Start ro fw =
     (let (f, w) = fw;
          (f', runs) = start_loop (mrange ro (fa_informers f)) f (iw_runs w)
      in (f', w\<lparr>iw_runs := runs\<rparr>))"

fun started_loop :: "('cl, 't) factory \<Rightarrow> ('t \<times> nat) list \<Rightarrow> ('t, nat) gomap \<Rightarrow> ('t, nat) gomap" where
  "started_loop f [] m = m"
| "started_loop f ((t, a) # rest) m =
     (if is_started f t then started_loop f rest (AList.update t a m) else started_loop f rest m)"

fun sync_loop :: "(nat \<Rightarrow> bool) \<Rightarrow> ('t \<times> nat) list \<Rightarrow> ('t, bool) gomap \<Rightarrow> ('t, bool) gomap" where
  "sync_loop wait_sync [] res = res"
| "sync_loop wait_sync ((t, a) # rest) res = sync_loop wait_sync rest (AList.update t (wait_sync a) res)"

text \<open>\<open>wait_sync a\<close> is the answer of the library's \<open>WaitForCacheSync\<close> for the informer \<open>a\<close>.\<close>

definition factory_WaitForCacheSync ::
    "'t range_order \<Rightarrow> 't range_order \<Rightarrow> (nat \<Rightarrow> bool) \<Rightarrow> ('cl, 't) factory \<Rightarrow> ('t, bool) gomap" where
  "factory_WaitForCacheSync ro ro' wait_sync f =
     (let informers = started_loop f (mrange ro (fa_informers f)) []
      in sync_loop wait_sync (mrange ro' informers) [])"

definition InformerFor ::
    "'t \<Rightarrow> ('cl \<Rightarrow> int \<Rightarrow> 'i) \<Rightarrow> ('cl, 't) factory \<times> 'i informer_world
     \<Rightarrow> (('cl, 't) factory \<times> 'i informer_world) \<times> nat" where
  "InformerFor informerType newFunc fw =
     (let (f, w) = fw in
      case map_of (fa_informers f) informerType of
        Some a \<Rightarrow> ((f, w), a)
      | None \<Rightarrow>
          let resyncPeriod = (case map_of (fa_customResync f) informerType of
                None \<Rightarrow> fa_defaultResync f | Some p \<Rightarrow> p);
              a = length (iw_informers w)
          in ((f\<lparr>fa_informers := AList.update informerType a (fa_informers f)\<rparr>,
               w\<lparr>iw_informers := iw_informers w @ [newFunc (fa_client f) resyncPeriod]\<rparr>), a))"

text \<open>
  \<open>factory.K8slab().V1alpha1().Swarms()\<close>: namespace and options go from the factory through group and
  version to the informer of swarms. Each holds the factory it came from, which is passed to the
  methods here.
\<close>

record informer_group =
  ig_namespace :: string
  ig_tweakListOptions :: tweak

record informer_version =
  iv_namespace :: string
  iv_tweakListOptions :: tweak

record swarm_informer =
  si_tweakListOptions :: tweak
  si_namespace :: string

definition group_New :: "string \<Rightarrow> tweak \<Rightarrow> informer_group" where
  "group_New namespace tweakListOptions = \<lparr>ig_namespace = namespace, ig_tweakListOptions = tweakListOptions\<rparr>"

definition version_New :: "string \<Rightarrow> tweak \<Rightarrow> informer_version" where
  "version_New namespace tweakListOptions = \<lparr>iv_namespace = namespace, iv_tweakListOptions = tweakListOptions\<rparr>"

definition V1alpha1 :: "informer_group \<Rightarrow> informer_version" where
  "V1alpha1 g = version_New (ig_namespace g) (ig_tweakListOptions g)"

definition version_Swarms :: "informer_version \<Rightarrow> swarm_informer" where
  "version_Swarms v = \<lparr>si_tweakListOptions = iv_tweakListOptions v, si_namespace = iv_namespace v\<rparr>"

definition K8slab :: "('cl, 't) factory \<Rightarrow> informer_group" where
  "K8slab f = group_New (fa_namespace f) (fa_tweakListOptions f)"

text \<open>\<open>index\<close> are the indexers, by namespace; \<open>swarm_type\<close> is the type of swarms.\<close>

definition defaultInformer ::
    "swarm_informer \<Rightarrow> 'x \<Rightarrow> ('k, 'o, 'r, 'w) rest \<Rightarrow> int \<Rightarrow> ('k, 'w, 'x) informer" where
  "defaultInformer i index client resyncPeriod =
     NewFilteredSwarmInformer client (si_namespace i) resyncPeriod index (si_tweakListOptions i)"

definition swarmInformer_Informer ::
    "swarm_informer \<Rightarrow> 't \<Rightarrow> 'x \<Rightarrow> (('k, 'o, 'r, 'w) rest, 't) factory \<times> ('k, 'w, 'x) informer informer_world
     \<Rightarrow> ((('k, 'o, 'r, 'w) rest, 't) factory \<times> ('k, 'w, 'x) informer informer_world) \<times> nat" where
  "swarmInformer_Informer i swarm_type index fw = InformerFor swarm_type (defaultInformer i index) fw"

text \<open>\<open>ForResource\<close>: resources are group, version and name.\<close>

record generic_informer =
  gi_informer :: nat
  gi_resource :: "string \<times> string"

definition ForResource where
  "ForResource grp swarm_type index resource fw =
     (if resource = qualify (SchemeGroupVersion grp) ''swarms''
      then (let i = version_Swarms (V1alpha1 (K8slab (fst fw)));
                (fw', a) = swarmInformer_Informer i swarm_type index fw
            in (fw', Inr \<lparr>gi_informer = a, gi_resource = (fst resource, snd (snd resource))\<rparr>))
      else (fw, Inl (Errorf ''no informer found for '' None)))"

definition genericInformer_Informer :: "generic_informer \<Rightarrow> nat" where
  "genericInformer_Informer f = gi_informer f"

text \<open>\<open>Lister\<close>: the library's generic lister over the informer's indexer and the resource.\<close>

definition genericInformer_Lister :: "(nat \<Rightarrow> string \<times> string \<Rightarrow> 'gl) \<Rightarrow> generic_informer \<Rightarrow> 'gl" where
  "genericInformer_Lister NewGenericLister f = NewGenericLister (genericInformer_Informer f) (gi_resource f)"

text \<open>
  What a factory gives for the swarms the first time: an informer that lists and watches the
  factory's namespace with its options, as often as configured.
\<close>

lemma first_swarm_informer:
  assumes "f = NewSharedInformerFactoryWithOptions client period
      [WithNamespace ns, WithTweakListOptions tweak, WithCustomResyncConfig ro type_of [(obj, custom)]]"
    and "ro [obj] = [obj]"
  shows "ForResource grp t index (grp, ''v1alpha1'', ''swarms'') (f, w) =
    ((f\<lparr>fa_informers := [(t, length (iw_informers w))]\<rparr>,
      w\<lparr>iw_informers := iw_informers w @
        [NewFilteredSwarmInformer client ns (if t = type_of obj then custom else period) index tweak]\<rparr>),
     Inr \<lparr>gi_informer = length (iw_informers w), gi_resource = (grp, ''swarms'')\<rparr>)"
  using assms
  by (simp add: ForResource_def SchemeGroupVersion_def swarmInformer_Informer_def InformerFor_def NewSharedInformerFactoryWithOptions_def
      WithNamespace_def WithTweakListOptions_def WithCustomResyncConfig_def K8slab_def group_New_def V1alpha1_def
      version_New_def version_Swarms_def defaultInformer_def mrange_def Let_def)

section \<open>The lister, listers/swarm/v1alpha1/swarm.go\<close>

text \<open>
  An indexer is known by its informer's address. The store of an informer is the library's: \<open>list_all\<close> gives the objects that its \<open>ListAll\<close> or
  \<open>ListAllByNamespace\<close> visits, and \<open>get_by_key\<close> looks a key up. Both listers assert the type.
\<close>

fun append_swarms :: "object list \<Rightarrow> swarm list \<Rightarrow> swarm list go" where
  "append_swarms [] ret = Inr ret"
| "append_swarms (m # ms) ret =
     (case m of SwarmObj sw \<Rightarrow> append_swarms ms (ret @ [sw]) | _ \<Rightarrow> Inl TypeAssertion)"

record swarm_lister =
  sl_indexer :: nat

record swarm_namespace_lister =
  sn_indexer :: nat
  sn_namespace :: string

definition NewSwarmLister :: "nat \<Rightarrow> swarm_lister" where
  "NewSwarmLister indexer = \<lparr>sl_indexer = indexer\<rparr>"

definition swarmLister_Swarms :: "swarm_lister \<Rightarrow> string \<Rightarrow> swarm_namespace_lister" where
  "swarmLister_Swarms s namespace = \<lparr>sn_indexer = sl_indexer s, sn_namespace = namespace\<rparr>"

definition swarmInformer_Lister where
  "swarmInformer_Lister i swarm_type index fw =
     (let (fw', a) = swarmInformer_Informer i swarm_type index fw in (fw', NewSwarmLister a))"

definition swarmLister_List ::
    "(nat \<Rightarrow> 'sel \<Rightarrow> object list \<times> goerror option) \<Rightarrow> swarm_lister \<Rightarrow> 'sel
     \<Rightarrow> (swarm list \<times> goerror option) go" where
  "swarmLister_List list_objects s selector =
     (let (ms, err) = list_objects (sl_indexer s) selector
      in go_bind (append_swarms ms []) (\<lambda>ret. Inr (ret, err)))"

definition swarmNamespaceLister_List ::
    "(nat \<Rightarrow> string \<Rightarrow> 'sel \<Rightarrow> object list \<times> goerror option) \<Rightarrow> swarm_namespace_lister \<Rightarrow> 'sel
     \<Rightarrow> (swarm list \<times> goerror option) go" where
  "swarmNamespaceLister_List list_by_namespace s selector =
     (let (ms, err) = list_by_namespace (sn_indexer s) (sn_namespace s) selector
      in go_bind (append_swarms ms []) (\<lambda>ret. Inr (ret, err)))"

definition swarmNamespaceLister_Get ::
    "(nat \<Rightarrow> string \<Rightarrow> goerror + object option) \<Rightarrow> swarm_namespace_lister \<Rightarrow> string \<Rightarrow> (goerror + swarm) go" where
  "swarmNamespaceLister_Get get_by_key s name =
     (case get_by_key (sn_indexer s) (sn_namespace s @ ''/'' @ name) of
        Inl err \<Rightarrow> Inr (Inl err)
      | Inr None \<Rightarrow> Inr (Inl (StatusError ''NotFound''))
      | Inr (Some obj) \<Rightarrow> (case obj of SwarmObj sw \<Rightarrow> Inr (Inr sw) | _ \<Rightarrow> Inl TypeAssertion))"

lemma append_swarms_swarms: "append_swarms (map SwarmObj ws) ret = Inr (ret @ ws)"
  by (induction ws arbitrary: ret) simp_all

text \<open>Over a store of swarms only, as the informer of swarms has, the lister does not panic.\<close>

lemma lister_over_swarms:
  "swarmLister_List (\<lambda>a sel. (map SwarmObj ws, err)) s selector = Inr (ws, err)"
  "swarmNamespaceLister_List (\<lambda>a ns sel. (map SwarmObj ws, err)) sn selector = Inr (ws, err)"
  by (simp_all add: swarmLister_List_def swarmNamespaceLister_List_def append_swarms_swarms)

section \<open>Invariant\<close>

text \<open>
  The informers of different types are different and exist, only types with an informer are
  started, and the runs are the started informers, each once.
\<close>

definition factory_inv :: "('cl, 't) factory \<Rightarrow> 'i informer_world \<Rightarrow> bool" where
  "factory_inv f w \<longleftrightarrow>
     mwf (fa_informers f) \<and> mwf (fa_startedInformers f) \<and> distinct (map snd (fa_informers f))
     \<and> (\<forall>a \<in> snd ` set (fa_informers f). a < length (iw_informers w))
     \<and> (\<forall>t. is_started f t \<longrightarrow> t \<in> mkeys (fa_informers f))
     \<and> distinct (iw_runs w)
     \<and> set (iw_runs w) = {a. \<exists>t. map_of (fa_informers f) t = Some a \<and> is_started f t}"

lemma is_started_update:
  "is_started (f\<lparr>fa_startedInformers := AList.update t True (fa_startedInformers f)\<rparr>) u \<longleftrightarrow> u = t \<or> is_started f u"
  by (simp add: is_started_def map_simps)

text \<open>What the loop of \<open>Start\<close> does with entries of distinct types.\<close>

lemma start_loop_spec:
  assumes "distinct (map fst es)" and "mwf (fa_startedInformers f)" and "start_loop es f runs = (f', runs')"
  shows "(\<forall>u. is_started f' u \<longleftrightarrow> is_started f u \<or> u \<in> fst ` set es)
    \<and> runs' = runs @ map snd (filter (\<lambda>(t, a). \<not> is_started f t) es)
    \<and> f' = f\<lparr>fa_startedInformers := fa_startedInformers f'\<rparr> \<and> mwf (fa_startedInformers f')"
  using assms
proof (induction es arbitrary: f runs)
  case (Cons e es)
  obtain t a where e: "e = (t, a)" by (cases e)
  show ?case
  proof (cases "is_started f t")
    case True
    then show ?thesis using Cons.IH [of f runs] Cons.prems by (auto simp: e)
  next
    case False
    let ?f = "f\<lparr>fa_startedInformers := AList.update t True (fa_startedInformers f)\<rparr>"
    have "filter (\<lambda>(u, a). \<not> is_started ?f u) es = filter (\<lambda>(u, a). \<not> is_started f u) es"
      using Cons.prems(1) by (intro filter_cong) (force simp: e is_started_update)+
    then show ?thesis
      using Cons.IH [of ?f "runs @ [a]"] Cons.prems False by (auto simp: e is_started_update)
  qed
qed simp

lemma factory_inv_start:
  assumes "factory_inv f w" and "range_order ro" and "factory_Start ro (f, w) = (f', w')"
  shows "factory_inv f' w' \<and> fa_informers f' = fa_informers f \<and> iw_informers w' = iw_informers w
    \<and> (\<forall>t. is_started f' t \<longleftrightarrow> t \<in> mkeys (fa_informers f))"
proof -
  let ?es = "mrange ro (fa_informers f)"
  have wf: "mwf (fa_informers f)" "mwf (fa_startedInformers f)" "distinct (map snd (fa_informers f))"
    and st: "\<forall>t. is_started f t \<longrightarrow> t \<in> mkeys (fa_informers f)"
    and runs: "distinct (iw_runs w)" "set (iw_runs w) = {a. \<exists>t. map_of (fa_informers f) t = Some a \<and> is_started f t}"
    using assms(1) by (simp_all add: factory_inv_def)
  have es: "set ?es = set (fa_informers f)" "mset ?es = mset (fa_informers f)" "mwf ?es"
    using wf(1) assms(2) by (simp_all add: set_mrange mset_mrange mwf_mrange)
  obtain rs where l: "start_loop ?es f (iw_runs w) = (f', rs)" and w': "w' = w\<lparr>iw_runs := rs\<rparr>"
    using assms(3) by (auto simp: factory_Start_def split: prod.splits)
  note spec = start_loop_spec [OF es(3) [unfolded mwf_def] wf(2) l]
  have f': "fa_informers f' = fa_informers f" using spec by (metis factory.select_convs(6) factory.surjective factory.update_convs(7))
  have started: "is_started f' t \<longleftrightarrow> t \<in> mkeys (fa_informers f)" for t
    using spec st es(1) by auto
  let ?new = "filter (\<lambda>(t, a). \<not> is_started f t) ?es"
  have new: "(t, a) \<in> set ?new \<longleftrightarrow> map_of (fa_informers f) t = Some a \<and> \<not> is_started f t" for t a
    using es(1) mwf_lookup [OF wf(1)] by auto
  have inj: "map_of (fa_informers f) t = Some a \<Longrightarrow> map_of (fa_informers f) u = Some a \<Longrightarrow> t = u" for t u a
    using map_value_key [OF wf(3)] by blast
  have "distinct (map snd ?es)"
    using wf(3) es(2) by (metis mset_eq_imp_distinct_iff mset_map)
  then have d: "distinct (map snd ?new)"
    by (simp add: distinct_map_filter)
  have "set (iw_runs w) \<inter> snd ` set ?new = {}"
    using runs(2) new inj by fastforce
  moreover have rs: "rs = iw_runs w @ map snd ?new" using spec by simp
  ultimately have "distinct rs" using d runs(1) by simp
  moreover have "set rs = {a. \<exists>t. map_of (fa_informers f) t = Some a \<and> is_started f' t}"
  proof -
    have "snd ` set ?new = {a. \<exists>t. map_of (fa_informers f) t = Some a \<and> \<not> is_started f t}"
      using new by force
    moreover have "map_of (fa_informers f) t = Some a \<Longrightarrow> is_started f' t" for t a
      using started mkeys_lookup by metis
    ultimately show ?thesis using rs runs(2) by auto
  qed
  ultimately show ?thesis
    using assms(1) spec started f' w' unfolding factory_inv_def by simp
qed

lemma factory_inv_informer_for:
  assumes "factory_inv f w" and "InformerFor t newFunc (f, w) = ((f', w'), a)"
  shows "factory_inv f' w' \<and> map_of (fa_informers f') t = Some a
    \<and> (\<forall>u b. map_of (fa_informers f) u = Some b \<longrightarrow> map_of (fa_informers f') u = Some b)
    \<and> iw_runs w' = iw_runs w"
proof (cases "map_of (fa_informers f) t")
  case (Some b)
  then show ?thesis using assms by (simp add: InformerFor_def)
next
  case None
  let ?a = "length (iw_informers w)"
  have inv: "mwf (fa_informers f)" "distinct (map snd (fa_informers f))"
    "\<forall>a \<in> snd ` set (fa_informers f). a < ?a" "\<forall>t. is_started f t \<longrightarrow> t \<in> mkeys (fa_informers f)"
    using assms(1) by (simp_all add: factory_inv_def)
  have new: "AList.update t ?a (fa_informers f) = fa_informers f @ [(t, ?a)]"
    using None by (simp add: mkeys_None update_new_key)
  have f': "fa_informers f' = fa_informers f @ [(t, ?a)]" "a = ?a" "iw_runs w' = iw_runs w"
    "length (iw_informers w') = Suc ?a" "fa_startedInformers f' = fa_startedInformers f"
    using assms(2) None new by (auto simp: InformerFor_def Let_def)
  have same: "is_started f' u = is_started f u" for u by (simp add: is_started_def f')
  have "\<not> is_started f t" using inv(4) None by (auto simp: mkeys_None)
  then have "{b. \<exists>u. map_of (fa_informers f') u = Some b \<and> is_started f' u}
      = {b. \<exists>u. map_of (fa_informers f) u = Some b \<and> is_started f u}"
    unfolding same f'(1) by (auto simp: map_add_def split: option.splits if_splits)
  moreover have "mwf (fa_informers f')" using inv(1) None by (simp add: f'(1) mwf_def mkeys_None)
  moreover have "distinct (map snd (fa_informers f'))" using inv(2,3) by (auto simp: f'(1))
  moreover have "\<forall>a \<in> snd ` set (fa_informers f'). a < length (iw_informers w')"
    using inv(3) f'(4) by (auto simp: f'(1) less_Suc_eq)
  moreover have "\<forall>t. is_started f' t \<longrightarrow> t \<in> mkeys (fa_informers f')"
    using inv(4) by (auto simp: same f'(1))
  ultimately have "factory_inv f' w'"
    using assms(1) unfolding factory_inv_def f'(3,5) by simp
  then show ?thesis using None f' by (auto simp: map_add_def split: option.split)
qed

section \<open>Runs of the factory\<close>

datatype 't factory_action = Obtain 't nat | StartAll

inductive factory_step ::
    "('cl, 't) factory \<times> 'i informer_world \<Rightarrow> 't factory_action \<Rightarrow> ('cl, 't) factory \<times> 'i informer_world \<Rightarrow> bool" where
  obtain_step: "InformerFor t newFunc fw = (fw', a) \<Longrightarrow> factory_step fw (Obtain t a) fw'"
| start_step: "range_order ro \<Longrightarrow> factory_Start ro fw = fw' \<Longrightarrow> factory_step fw StartAll fw'"

inductive_cases obtain_stepE: "factory_step fw (Obtain t a) fw'"
inductive_cases start_stepE: "factory_step fw StartAll fw'"

inductive factory_run ::
    "('cl, 't) factory \<times> 'i informer_world \<Rightarrow> 't factory_action list \<Rightarrow> ('cl, 't) factory \<times> 'i informer_world \<Rightarrow> bool" where
  no_action: "factory_run fw [] fw"
| one_more: "factory_run fw acts m \<Longrightarrow> factory_step m act fw' \<Longrightarrow> factory_run fw (acts @ [act]) fw'"

lemma factory_inv_new:
  "factory_inv (NewFilteredSharedInformerFactory client resync namespace tweak) \<lparr>iw_informers = [], iw_runs = []\<rparr>"
  by (simp add: factory_inv_def NewFilteredSharedInformerFactory_def NewSharedInformerFactoryWithOptions_def
      WithNamespace_def WithTweakListOptions_def is_started_def)

lemma factory_run_inv:
  assumes "factory_run fw acts fw'" and "factory_inv (fst fw) (snd fw)"
  shows "factory_inv (fst fw') (snd fw')
    \<and> (\<forall>t a. Obtain t a \<in> set acts \<longrightarrow> map_of (fa_informers (fst fw')) t = Some a)"
  using assms
proof (induction rule: factory_run.induct)
  case (one_more fw acts m act fw')
  obtain f w f' w' where fw: "m = (f, w)" "fw' = (f', w')" by (metis surj_pair)
  have IH: "factory_inv f w" "\<forall>t a. Obtain t a \<in> set acts \<longrightarrow> map_of (fa_informers f) t = Some a"
    using one_more.IH one_more.prems fw by simp_all
  show ?case using one_more.hyps(2)
  proof (cases rule: factory_step.cases)
    case (obtain_step t newFunc a)
    then show ?thesis
      using factory_inv_informer_for [OF IH(1), of t newFunc f' w' a] IH(2) fw by auto
  next
    case (start_step ro)
    then show ?thesis
      using factory_inv_start [OF IH(1), of ro f' w'] IH(2) fw by auto
  qed
qed simp

lemma started_loop_lookup:
  assumes "distinct (map fst es)"
  shows "map_of (started_loop f es m) t =
    (case map_of es t of Some a \<Rightarrow> if is_started f t then Some a else map_of m t | None \<Rightarrow> map_of m t)"
  using assms
proof (induction es arbitrary: m)
  case (Cons e es)
  obtain u b where e: "e = (u, b)" by (cases e)
  have "map_of es u = None" using Cons.prems by (simp add: e map_of_eq_None_iff)
  then show ?case using Cons by (auto simp: e map_simps split: option.split)
qed simp

lemma mwf_started_loop: "mwf m \<Longrightarrow> mwf (started_loop f es m)"
  by (induction f es m rule: started_loop.induct) simp_all

lemma sync_loop_lookup:
  assumes "distinct (map fst es)"
  shows "map_of (sync_loop ws es m) t = (case map_of es t of Some a \<Rightarrow> Some (ws a) | None \<Rightarrow> map_of m t)"
  using assms
proof (induction es arbitrary: m)
  case (Cons e es)
  obtain u b where e: "e = (u, b)" by (cases e)
  have "map_of es u = None" using Cons.prems by (simp add: e map_of_eq_None_iff)
  then show ?case using Cons by (auto simp: e map_simps split: option.split)
qed simp

lemma wait_for_cache_sync_lookup:
  assumes "mwf (fa_informers f)" and "range_order ro" and "range_order ro'"
  shows "map_of (factory_WaitForCacheSync ro ro' ws f) t =
    (case map_of (fa_informers f) t of Some a \<Rightarrow> if is_started f t then Some (ws a) else None | None \<Rightarrow> None)"
proof -
  let ?m = "started_loop f (mrange ro (fa_informers f)) []"
  have m: "mwf ?m" by (simp add: mwf_started_loop)
  have "mwf (mrange ro (fa_informers f))" "mwf (mrange ro' ?m)"
    using assms m by (simp_all add: mwf_mrange)
  then show ?thesis
    using assms m
    by (simp add: factory_WaitForCacheSync_def sync_loop_lookup started_loop_lookup mwf_def map_of_mrange
        split: option.split)
qed

section \<open>Properties\<close>

text \<open>
  C25 The factory shares informers and runs each once, in every run of it from the start, however
  calls of \<open>InformerFor\<close> and \<open>Start\<close> follow each other: all calls for a type give the same
  informer, those of different types different ones; no informer is run twice, and exactly the
  started ones are run; a further \<open>Start\<close> starts all that were asked for; and \<open>WaitForCacheSync\<close>
  answers for the started types and no others.
\<close>

theorem informers_shared_and_run_once:
  assumes "factory_run (NewFilteredSharedInformerFactory client resync namespace tweak, \<lparr>iw_informers = [], iw_runs = []\<rparr>)
      acts (f, w)"
    and "range_order ro" and "factory_Start ro (f, w) = (f', w')" and "range_order ro1" and "range_order ro2"
  shows "(\<forall>x y a b. Obtain x a \<in> set acts \<and> Obtain y b \<in> set acts \<longrightarrow> (a = b \<longleftrightarrow> x = y))
    \<and> distinct (iw_runs w) \<and> set (iw_runs w) = {a. \<exists>t. map_of (fa_informers f) t = Some a \<and> is_started f t}
    \<and> distinct (iw_runs w') \<and> set (iw_runs w') = snd ` set (fa_informers f)
    \<and> map_of (factory_WaitForCacheSync ro1 ro2 ws f) t =
        (case map_of (fa_informers f) t of Some a \<Rightarrow> if is_started f t then Some (ws a) else None | None \<Rightarrow> None)"
proof -
  have inv: "factory_inv f w" and got: "\<forall>t a. Obtain t a \<in> set acts \<longrightarrow> map_of (fa_informers f) t = Some a"
    using factory_run_inv [OF assms(1)] by (simp_all add: factory_inv_new)
  have wf: "mwf (fa_informers f)" "distinct (map snd (fa_informers f))"
    using inv by (simp_all add: factory_inv_def)
  have shared: "\<forall>x y a b. Obtain x a \<in> set acts \<and> Obtain y b \<in> set acts \<longrightarrow> (a = b \<longleftrightarrow> x = y)"
    using got map_value_key [OF wf(2)] by (metis option.inject)
  have s: "factory_inv f' w'" "fa_informers f' = fa_informers f" "\<forall>t. is_started f' t \<longleftrightarrow> t \<in> mkeys (fa_informers f)"
    using factory_inv_start [OF inv assms(2,3)] by blast+
  have "set (iw_runs w') = {a. \<exists>t. map_of (fa_informers f) t = Some a \<and> t \<in> mkeys (fa_informers f)}"
    using s by (simp add: factory_inv_def)
  also have "\<dots> = snd ` set (fa_informers f)"
    using mwf_lookup [OF wf(1)] by (force simp: mkeys_lookup)
  finally have all: "set (iw_runs w') = snd ` set (fa_informers f)" .
  have "distinct (iw_runs w)" "set (iw_runs w) = {a. \<exists>t. map_of (fa_informers f) t = Some a \<and> is_started f t}"
    "distinct (iw_runs w')" using inv s(1) by (simp_all add: factory_inv_def)
  then show ?thesis
    using shared all wait_for_cache_sync_lookup [OF wf(1) assms(4,5)] by simp
qed

theorem informers_shared_and_run_once_witness:
  "\<exists>f w f' w'. factory_run (NewFilteredSharedInformerFactory () 0 ''swarm'' None, \<lparr>iw_informers = [], iw_runs = []\<rparr>)
      [Obtain True 0, StartAll, Obtain False 1, Obtain True 0] (f, w :: int informer_world)
    \<and> iw_runs w = [0] \<and> factory_Start rev (f, w) = (f', w') \<and> set (iw_runs w') = {0, 1}"
proof -
  let ?f0 = "NewFilteredSharedInformerFactory () 0 ''swarm'' None :: (unit, bool) factory"
  let ?w0 = "\<lparr>iw_informers = [], iw_runs = []\<rparr> :: int informer_world"
  let ?new = "\<lambda>c p. p :: int"
  obtain fw1 where s1: "InformerFor True ?new (?f0, ?w0) = (fw1, 0)"
    by (simp add: InformerFor_def NewFilteredSharedInformerFactory_def NewSharedInformerFactoryWithOptions_def
        WithNamespace_def WithTweakListOptions_def Let_def)
  obtain fw2 where s2: "factory_Start rev fw1 = fw2" by blast
  have v2: "fst (snd (InformerFor False ?new fw2), iw_runs (snd (fst (InformerFor True ?new (fst (InformerFor False ?new fw2)))))) = 1
    \<and> snd (InformerFor True ?new (fst (InformerFor False ?new fw2))) = 0
    \<and> iw_runs (snd (fst (InformerFor True ?new (fst (InformerFor False ?new fw2))))) = [0]
    \<and> map snd (fa_informers (fst (fst (InformerFor True ?new (fst (InformerFor False ?new fw2)))))) = [0, 1]"
    using s1 s2
    by (auto simp: InformerFor_def NewFilteredSharedInformerFactory_def NewSharedInformerFactoryWithOptions_def
        WithNamespace_def WithTweakListOptions_def Let_def factory_Start_def mrange_def is_started_def)
  obtain fw3 fw4 where s3: "InformerFor False ?new fw2 = (fw3, 1)" and s4: "InformerFor True ?new fw3 = (fw4, 0)"
    and r: "iw_runs (snd fw4) = [0]" "map snd (fa_informers (fst fw4)) = [0, 1]"
    using v2 by (metis fst_conv prod.collapse)
  have "factory_run (?f0, ?w0) ([] @ [Obtain True 0]) fw1"
    by (rule factory_run.one_more [OF factory_run.no_action factory_step.obtain_step [OF s1]])
  then have "factory_run (?f0, ?w0) (([] @ [Obtain True 0]) @ [StartAll]) fw2"
    by (rule factory_run.one_more) (rule factory_step.start_step [OF range_order_rev s2])
  then have "factory_run (?f0, ?w0) ((([] @ [Obtain True 0]) @ [StartAll]) @ [Obtain False 1]) fw3"
    by (rule factory_run.one_more) (rule factory_step.obtain_step [OF s3])
  then have "factory_run (?f0, ?w0) (((([] @ [Obtain True 0]) @ [StartAll]) @ [Obtain False 1]) @ [Obtain True 0]) fw4"
    by (rule factory_run.one_more) (rule factory_step.obtain_step [OF s4])
  then have run: "factory_run (?f0, ?w0) [Obtain True 0, StartAll, Obtain False 1, Obtain True 0] (fst fw4, snd fw4)"
    by simp
  obtain f' w' where st: "factory_Start rev (fst fw4, snd fw4) = (f', w')" by fastforce
  have "set (iw_runs w') = snd ` set (fa_informers (fst fw4))"
    using informers_shared_and_run_once [OF run range_order_rev st range_order_rev range_order_rev] by blast
  also have "\<dots> = set (map snd (fa_informers (fst fw4)))" by simp
  also have "\<dots> = {0, 1}" unfolding r(2) by simp
  finally show ?thesis using run st r(1) by blast
qed

end
