(* ===== verification/Client_Setup.thy ===== *)
theory Client_Setup
  imports Swarm_Client Registration
begin

text \<open>
  How the clients are made: the generated clientset (\<open>generated/clientset/versioned/clientset.go\<close>),
  the client of its one group (\<open>typed/swarm/v1alpha1/swarm_client.go\<close>) and the builders of
  \<open>services/controller/internal/infra/k8s/client.go\<close>. A configuration is passed by pointer, copied
  and changed in the copy, so configurations live in a list of cells, and a pointer is nil or the
  index of a cell. What the library makes of a configuration are arguments.
\<close>

section \<open>Configurations\<close>

text \<open>
  The fields the code looks at; \<open>rc_rest\<close> are the others. \<open>'q\<close> are the \<open>float32\<close> of the library's
  \<open>QPS\<close>, which is only compared with zero and handed on.
\<close>

record ('q, 'l, 'n, 'x) rest_config =
  rc_GroupVersion :: "(string \<times> string) option"
  rc_APIPath :: string
  rc_NegotiatedSerializer :: "'n option"
  rc_UserAgent :: string
  rc_QPS :: 'q
  rc_Burst :: int
  rc_RateLimiter :: "'l option"
  rc_rest :: 'x

record ('q, 'l, 'n, 'x, 'h, 'r, 'd) client_library =
  li_HTTPClientFor :: "('q, 'l, 'n, 'x) rest_config \<Rightarrow> goerror + 'h"
  li_RESTClientForConfigAndClient :: "('q, 'l, 'n, 'x) rest_config \<Rightarrow> 'h \<Rightarrow> goerror + 'r"
  li_NewDiscoveryClientForConfigAndClient :: "('q, 'l, 'n, 'x) rest_config \<Rightarrow> 'h \<Rightarrow> goerror + 'd"
  li_NewDiscoveryClient :: "'r \<Rightarrow> 'd"
  li_NewTokenBucketRateLimiter :: "'q \<Rightarrow> int \<Rightarrow> 'l"
  li_positive :: "'q \<Rightarrow> bool"
  li_DefaultKubernetesUserAgent :: string
  li_Codecs :: 'n
  li_GroupName :: string

definition load_config :: "nat option \<Rightarrow> 'c list \<Rightarrow> 'c go" where
  "load_config c cells =
     (case c of
        None \<Rightarrow> Inl NilDereference
      | Some a \<Rightarrow> if a < length cells then Inr (cells ! a) else Inl NilDereference)"

section \<open>typed/swarm/v1alpha1\<close>

record 'r typed_client =
  tc_restClient :: 'r

definition setConfigDefaults ::
    "('q, 'l, 'n, 'x, 'h, 'r, 'd) client_library \<Rightarrow> nat \<Rightarrow> ('q, 'l, 'n, 'x) rest_config list
     \<Rightarrow> ('q, 'l, 'n, 'x) rest_config list \<times> goerror option" where
  "setConfigDefaults lib config cells =
     (let c = (cells ! config)\<lparr>rc_GroupVersion := Some (SchemeGroupVersion (li_GroupName lib)), rc_APIPath := ''/apis'',
            rc_NegotiatedSerializer := Some (li_Codecs lib)\<rparr>;
          c1 = (if rc_UserAgent c = [] then c\<lparr>rc_UserAgent := li_DefaultKubernetesUserAgent lib\<rparr> else c)
      in (cells[config := c1], None))"

definition typed_NewForConfigAndClient ::
    "('q, 'l, 'n, 'x, 'h, 'r, 'd) client_library \<Rightarrow> nat option \<Rightarrow> 'h \<Rightarrow> ('q, 'l, 'n, 'x) rest_config list
     \<Rightarrow> (('q, 'l, 'n, 'x) rest_config list \<times> (goerror + 'r typed_client)) go" where
  "typed_NewForConfigAndClient lib c h cells =
     go_bind (load_config c cells) (\<lambda>cfg.
       let config = length cells;
           (cells1, err) = setConfigDefaults lib config (cells @ [cfg])
       in case err of
            Some e \<Rightarrow> Inr (cells1, Inl e)
          | None \<Rightarrow>
              (case li_RESTClientForConfigAndClient lib (cells1 ! config) h of
                 Inl e \<Rightarrow> Inr (cells1, Inl e)
               | Inr client \<Rightarrow> Inr (cells1, Inr \<lparr>tc_restClient = client\<rparr>)))"

definition typed_NewForConfig ::
    "('q, 'l, 'n, 'x, 'h, 'r, 'd) client_library \<Rightarrow> nat option \<Rightarrow> ('q, 'l, 'n, 'x) rest_config list
     \<Rightarrow> (('q, 'l, 'n, 'x) rest_config list \<times> (goerror + 'r typed_client)) go" where
  "typed_NewForConfig lib c cells =
     go_bind (load_config c cells) (\<lambda>cfg.
       let config = length cells;
           (cells1, err) = setConfigDefaults lib config (cells @ [cfg])
       in case err of
            Some e \<Rightarrow> Inr (cells1, Inl e)
          | None \<Rightarrow>
              (case li_HTTPClientFor lib (cells1 ! config) of
                 Inl e \<Rightarrow> Inr (cells1, Inl e)
               | Inr httpClient \<Rightarrow> typed_NewForConfigAndClient lib (Some config) httpClient cells1))"

text \<open>\<open>NewForConfigOrDie\<close> of both packages.\<close>

definition or_die :: "('c \<times> (goerror + 'a)) go \<Rightarrow> ('c \<times> 'a) go" where
  "or_die m = go_bind m (\<lambda>(cells, r). case r of Inl err \<Rightarrow> Inl (Panicked err) | Inr x \<Rightarrow> Inr (cells, x))"

definition typed_NewForConfigOrDie where
  "typed_NewForConfigOrDie lib c cells = or_die (typed_NewForConfig lib c cells)"

definition typed_New :: "'r \<Rightarrow> 'r typed_client" where
  "typed_New c = \<lparr>tc_restClient = c\<rparr>"

definition RESTClient :: "'r typed_client option \<Rightarrow> 'r option" where
  "RESTClient c = (case c of None \<Rightarrow> None | Some tc \<Rightarrow> Some (tc_restClient tc))"

text \<open>\<open>Swarms(namespace)\<close>: what the methods of \<open>Swarm_Client\<close> take.\<close>

record 'r swarms_client =
  sw_client :: "'r option"
  sw_ns :: string

definition newSwarms :: "'r typed_client option \<Rightarrow> string \<Rightarrow> 'r swarms_client" where
  "newSwarms c namespace = \<lparr>sw_client = RESTClient c, sw_ns = namespace\<rparr>"

definition typed_Swarms :: "'r typed_client option \<Rightarrow> string \<Rightarrow> 'r swarms_client" where
  "typed_Swarms c namespace = newSwarms c namespace"

section \<open>clientset.go\<close>

record ('r, 'd) clientset =
  cs_discovery :: 'd
  cs_k8slab :: "'r typed_client"

definition K8slabV1alpha1 :: "('r, 'd) clientset option \<Rightarrow> 'r typed_client go" where
  "K8slabV1alpha1 c = (case c of None \<Rightarrow> Inl NilDereference | Some cs \<Rightarrow> Inr (cs_k8slab cs))"

definition clientset_Discovery :: "('r, 'd) clientset option \<Rightarrow> 'd option" where
  "clientset_Discovery c = (case c of None \<Rightarrow> None | Some cs \<Rightarrow> Some (cs_discovery cs))"

definition burst_error :: goerror where
  "burst_error = Errorf ''burst is required to be greater than 0 when RateLimiter is not set and QPS is set to greater than 0'' None"

definition clientset_NewForConfigAndClient ::
    "('q, 'l, 'n, 'x, 'h, 'r, 'd) client_library \<Rightarrow> nat option \<Rightarrow> 'h \<Rightarrow> ('q, 'l, 'n, 'x) rest_config list
     \<Rightarrow> (('q, 'l, 'n, 'x) rest_config list \<times> (goerror + ('r, 'd) clientset)) go" where
  "clientset_NewForConfigAndClient lib c httpClient cells =
     go_bind (load_config c cells) (\<lambda>cfg.
       let copy = length cells;
           cells1 = cells @ [cfg];
           limit = rc_RateLimiter cfg = None \<and> li_positive lib (rc_QPS cfg)
       in if limit \<and> rc_Burst cfg \<le> 0 then Inr (cells1, Inl burst_error)
          else
            let cells2 = (if limit
                  then cells1[copy := cfg\<lparr>rc_RateLimiter :=
                    Some (li_NewTokenBucketRateLimiter lib (rc_QPS cfg) (rc_Burst cfg))\<rparr>]
                  else cells1)
            in go_bind (typed_NewForConfigAndClient lib (Some copy) httpClient cells2) (\<lambda>(cells3, r).
                 case r of
                   Inl err \<Rightarrow> Inr (cells3, Inl err)
                 | Inr k8slab \<Rightarrow>
                     (case li_NewDiscoveryClientForConfigAndClient lib (cells3 ! copy) httpClient of
                        Inl err \<Rightarrow> Inr (cells3, Inl err)
                      | Inr d \<Rightarrow> Inr (cells3, Inr \<lparr>cs_discovery = d, cs_k8slab = k8slab\<rparr>))))"

definition clientset_NewForConfig ::
    "('q, 'l, 'n, 'x, 'h, 'r, 'd) client_library \<Rightarrow> nat option \<Rightarrow> ('q, 'l, 'n, 'x) rest_config list
     \<Rightarrow> (('q, 'l, 'n, 'x) rest_config list \<times> (goerror + ('r, 'd) clientset)) go" where
  "clientset_NewForConfig lib c cells =
     go_bind (load_config c cells) (\<lambda>cfg.
       let copy = length cells;
           cells1 = cells @ [cfg]
       in case li_HTTPClientFor lib (cells1 ! copy) of
            Inl err \<Rightarrow> Inr (cells1, Inl err)
          | Inr httpClient \<Rightarrow> clientset_NewForConfigAndClient lib (Some copy) httpClient cells1)"

definition clientset_NewForConfigOrDie where
  "clientset_NewForConfigOrDie lib c cells = or_die (clientset_NewForConfig lib c cells)"

definition clientset_New :: "('q, 'l, 'n, 'x, 'h, 'r, 'd) client_library \<Rightarrow> 'r \<Rightarrow> ('r, 'd) clientset" where
  "clientset_New lib c = \<lparr>cs_discovery = li_NewDiscoveryClient lib c, cs_k8slab = typed_New c\<rparr>"

section \<open>k8s/client.go\<close>

text \<open>
  \<open>in_cluster\<close> is the library's \<open>InClusterConfig\<close>, \<open>from_flags\<close> its \<open>BuildConfigFromFlags\<close>, \<open>new_kube\<close> the
  constructor of its client of the cluster. An error ends the process.
\<close>

definition or_fatal :: "goerror + 'a \<Rightarrow> 'a go" where
  "or_fatal r = (case r of Inl err \<Rightarrow> Inl ProcessExit | Inr x \<Rightarrow> Inr x)"

definition kube_config_path :: "(string \<Rightarrow> string) \<Rightarrow> string" where
  "kube_config_path getenv = getenv ''HOME'' @ ''/.kube/config''"

definition BuildInternalClient :: "(goerror + 'c) \<Rightarrow> ('c \<Rightarrow> goerror + 'k) \<Rightarrow> 'k go" where
  "BuildInternalClient in_cluster new_kube =
     go_bind (or_fatal in_cluster) (\<lambda>restConfig. or_fatal (new_kube restConfig))"

definition BuildExternalClient ::
    "(string \<Rightarrow> string) \<Rightarrow> (string \<Rightarrow> string \<Rightarrow> goerror + 'c) \<Rightarrow> ('c \<Rightarrow> goerror + 'k) \<Rightarrow> 'k go" where
  "BuildExternalClient getenv from_flags new_kube =
     go_bind (or_fatal (from_flags [] (kube_config_path getenv))) (\<lambda>config. or_fatal (new_kube config))"

definition BuildSwarmInternalClient where
  "BuildSwarmInternalClient lib in_cluster =
     go_bind (or_fatal in_cluster) (\<lambda>config.
       go_bind (clientset_NewForConfig lib (Some 0) [config]) (\<lambda>(cells, r). or_fatal r))"

definition BuildSwarmExternalClient where
  "BuildSwarmExternalClient lib getenv from_flags =
     go_bind (or_fatal (from_flags [] (kube_config_path getenv))) (\<lambda>config.
       go_bind (clientset_NewForConfig lib (Some 0) [config]) (\<lambda>(cells, r). or_fatal r))"

section \<open>Specification\<close>

text \<open>The two configurations that the clients are made from, as functions of the caller's.\<close>

definition limited :: "('q, 'l, 'n, 'x, 'h, 'r, 'd) client_library \<Rightarrow> ('q, 'l, 'n, 'x) rest_config
    \<Rightarrow> ('q, 'l, 'n, 'x) rest_config" where
  "limited lib cfg =
     (if rc_RateLimiter cfg = None \<and> li_positive lib (rc_QPS cfg)
      then cfg\<lparr>rc_RateLimiter := Some (li_NewTokenBucketRateLimiter lib (rc_QPS cfg) (rc_Burst cfg))\<rparr> else cfg)"

definition with_defaults :: "('q, 'l, 'n, 'x, 'h, 'r, 'd) client_library \<Rightarrow> ('q, 'l, 'n, 'x) rest_config
    \<Rightarrow> ('q, 'l, 'n, 'x) rest_config" where
  "with_defaults lib cfg =
     cfg\<lparr>rc_GroupVersion := Some (SchemeGroupVersion (li_GroupName lib)), rc_APIPath := ''/apis'',
       rc_NegotiatedSerializer := Some (li_Codecs lib),
       rc_UserAgent := if rc_UserAgent cfg = [] then li_DefaultKubernetesUserAgent lib else rc_UserAgent cfg\<rparr>"

definition clientset_of ::
    "('q, 'l, 'n, 'x, 'h, 'r, 'd) client_library \<Rightarrow> ('q, 'l, 'n, 'x) rest_config \<Rightarrow> goerror + ('r, 'd) clientset" where
  "clientset_of lib cfg =
     (case li_HTTPClientFor lib cfg of
        Inl err \<Rightarrow> Inl err
      | Inr h \<Rightarrow>
          if limited lib cfg \<noteq> cfg \<and> rc_Burst cfg \<le> 0 then Inl burst_error
          else
            (case li_RESTClientForConfigAndClient lib (with_defaults lib (limited lib cfg)) h of
               Inl err \<Rightarrow> Inl err
             | Inr r \<Rightarrow>
                 (case li_NewDiscoveryClientForConfigAndClient lib (limited lib cfg) h of
                    Inl err \<Rightarrow> Inl err
                  | Inr d \<Rightarrow> Inr \<lparr>cs_discovery = d, cs_k8slab = typed_New r\<rparr>)))"

lemma limited_changes:
  "limited lib cfg \<noteq> cfg \<longleftrightarrow> rc_RateLimiter cfg = None \<and> li_positive lib (rc_QPS cfg)"
  by (cases cfg) (simp add: limited_def)

lemma set_defaults:
  "setConfigDefaults lib (length cells) (cells @ [cfg]) = (cells @ [with_defaults lib cfg], None)"
  by (simp add: setConfigDefaults_def with_defaults_def Let_def)

lemma typed_with_client:
  assumes "a < length cells"
  shows "typed_NewForConfigAndClient lib (Some a) h cells =
    Inr (cells @ [with_defaults lib (cells ! a)],
      case li_RESTClientForConfigAndClient lib (with_defaults lib (cells ! a)) h of
        Inl err \<Rightarrow> Inl err | Inr r \<Rightarrow> Inr (typed_New r))"
  using assms by (simp add: typed_NewForConfigAndClient_def load_config_def set_defaults typed_New_def split: sum.split)

lemma clientset_with_client:
  assumes "a < length cells" and "cells ! a = cfg"
  shows "\<exists>more. clientset_NewForConfigAndClient lib (Some a) h cells =
    Inr (cells @ more,
      if limited lib cfg \<noteq> cfg \<and> rc_Burst cfg \<le> 0 then Inl burst_error
      else (case li_RESTClientForConfigAndClient lib (with_defaults lib (limited lib cfg)) h of
              Inl err \<Rightarrow> Inl err
            | Inr r \<Rightarrow> (case li_NewDiscoveryClientForConfigAndClient lib (limited lib cfg) h of
                 Inl err \<Rightarrow> Inl err | Inr d \<Rightarrow> Inr \<lparr>cs_discovery = d, cs_k8slab = typed_New r\<rparr>)))"
proof -
  have load: "load_config (Some a) cells = Inr cfg" using assms by (simp add: load_config_def)
  let ?cells2 = "cells @ [limited lib cfg]"
  have two: "(if rc_RateLimiter cfg = None \<and> li_positive lib (rc_QPS cfg)
      then (cells @ [cfg])[length cells := cfg\<lparr>rc_RateLimiter :=
        Some (li_NewTokenBucketRateLimiter lib (rc_QPS cfg) (rc_Burst cfg))\<rparr>]
      else cells @ [cfg]) = ?cells2" by (simp add: limited_def)
  have typed: "typed_NewForConfigAndClient lib (Some (length cells)) h ?cells2 =
    Inr (?cells2 @ [with_defaults lib (limited lib cfg)],
      case li_RESTClientForConfigAndClient lib (with_defaults lib (limited lib cfg)) h of
        Inl err \<Rightarrow> Inl err | Inr r \<Rightarrow> Inr (typed_New r))"
    using typed_with_client [of "length cells" ?cells2] by simp
  have copy: "(?cells2 @ [with_defaults lib (limited lib cfg)]) ! length cells = limited lib cfg"
    by (simp add: nth_append)
  show ?thesis
    unfolding clientset_NewForConfigAndClient_def load go_bind_simps Let_def two typed limited_changes
    using copy by (auto split: sum.split)
qed

lemma clientset_from_cell:
  assumes "a < length cells"
  shows "\<exists>more. clientset_NewForConfig lib (Some a) cells = Inr (cells @ more, clientset_of lib (cells ! a))"
proof (cases "li_HTTPClientFor lib (cells ! a)")
  case (Inl err)
  then show ?thesis using assms by (auto simp: clientset_NewForConfig_def load_config_def clientset_of_def)
next
  case (Inr h)
  obtain more where "clientset_NewForConfigAndClient lib (Some (length cells)) h (cells @ [cells ! a]) =
      Inr ((cells @ [cells ! a]) @ more, clientset_of lib (cells ! a))"
    using clientset_with_client [of "length cells" "cells @ [cells ! a]" "cells ! a" lib h] Inr
    by (auto simp: clientset_of_def)
  then show ?thesis using assms Inr by (auto simp: clientset_NewForConfig_def load_config_def)
qed

section \<open>Property\<close>

text \<open>
  C39 A clientset is made from a configuration without changing it: whatever cells there are keep
  their values, the result is the one specified for the value of the caller's configuration,
  \<open>NewForConfigOrDie\<close> panics with the error and the builder of the program ends the process; and on
  success both clients share one HTTP client and one rate limiter, which exists when a rate is
  set, while only the swarms' client has the group's API path.
\<close>

theorem clientset_from_config:
  assumes "a < length cells"
  shows "(\<exists>more. clientset_NewForConfig lib (Some a) cells = Inr (cells @ more, clientset_of lib (cells ! a))
      \<and> clientset_NewForConfigOrDie lib (Some a) cells =
          (case clientset_of lib (cells ! a) of Inl err \<Rightarrow> Inl (Panicked err) | Inr s \<Rightarrow> Inr (cells @ more, s)))
    \<and> BuildSwarmInternalClient lib (Inr (cells ! a)) = or_fatal (clientset_of lib (cells ! a))
    \<and> (case clientset_of lib (cells ! a) of Inl err \<Rightarrow> True
       | Inr s \<Rightarrow> \<exists>h group_config config.
           li_RESTClientForConfigAndClient lib group_config h = Inr (tc_restClient (cs_k8slab s))
           \<and> li_NewDiscoveryClientForConfigAndClient lib config h = Inr (cs_discovery s)
           \<and> rc_RateLimiter group_config = rc_RateLimiter config
           \<and> (li_positive lib (rc_QPS (cells ! a)) \<longrightarrow> rc_RateLimiter config \<noteq> None)
           \<and> rc_APIPath group_config = ''/apis'' \<and> rc_APIPath config = rc_APIPath (cells ! a))"
proof -
  let ?cfg = "cells ! a"
  obtain more where m: "clientset_NewForConfig lib (Some a) cells = Inr (cells @ more, clientset_of lib ?cfg)"
    using clientset_from_cell [OF assms] by blast
  obtain one where "clientset_NewForConfig lib (Some 0) [?cfg] = Inr ([?cfg] @ one, clientset_of lib ?cfg)"
    using clientset_from_cell [of 0 "[?cfg]" lib] by auto
  then have build: "BuildSwarmInternalClient lib (Inr ?cfg) = or_fatal (clientset_of lib ?cfg)"
    by (simp add: BuildSwarmInternalClient_def or_fatal_def)
  have die: "clientset_NewForConfigOrDie lib (Some a) cells =
      (case clientset_of lib ?cfg of Inl err \<Rightarrow> Inl (Panicked err) | Inr s \<Rightarrow> Inr (cells @ more, s))"
    by (simp add: clientset_NewForConfigOrDie_def or_die_def m)
  have shared: "\<exists>h group_config config.
           li_RESTClientForConfigAndClient lib group_config h = Inr (tc_restClient (cs_k8slab s))
           \<and> li_NewDiscoveryClientForConfigAndClient lib config h = Inr (cs_discovery s)
           \<and> rc_RateLimiter group_config = rc_RateLimiter config
           \<and> (li_positive lib (rc_QPS ?cfg) \<longrightarrow> rc_RateLimiter config \<noteq> None)
           \<and> rc_APIPath group_config = ''/apis'' \<and> rc_APIPath config = rc_APIPath ?cfg"
    if made: "clientset_of lib ?cfg = Inr s" for s
  proof -
    obtain h r d where c: "li_RESTClientForConfigAndClient lib (with_defaults lib (limited lib ?cfg)) h = Inr r"
      "li_NewDiscoveryClientForConfigAndClient lib (limited lib ?cfg) h = Inr d"
      "s = \<lparr>cs_discovery = d, cs_k8slab = typed_New r\<rparr>"
      using made by (auto simp: clientset_of_def split: sum.splits if_splits)
    show ?thesis
      by (intro exI [of _ h] exI [of _ "with_defaults lib (limited lib ?cfg)"] exI [of _ "limited lib ?cfg"])
        (use c in \<open>simp add: typed_New_def with_defaults_def limited_def\<close>)
  qed
  show ?thesis using m die build shared by (auto split: sum.split)
qed

definition example_client_library :: "(int, int \<times> int, unit, unit, unit, string \<times> (int \<times> int) option, (int \<times> int) option) client_library" where
  "example_client_library =
     \<lparr>li_HTTPClientFor = (\<lambda>c. Inr ()),
      li_RESTClientForConfigAndClient = (\<lambda>c h. Inr (rc_APIPath c, rc_RateLimiter c)),
      li_NewDiscoveryClientForConfigAndClient = (\<lambda>c h. Inr (rc_RateLimiter c)),
      li_NewDiscoveryClient = snd, li_NewTokenBucketRateLimiter = Pair, li_positive = (\<lambda>q. 0 < q),
      li_DefaultKubernetesUserAgent = ''agent'', li_Codecs = (), li_GroupName = ''k8slab.info''\<rparr>"

definition example_config :: "(int, int \<times> int, unit, unit) rest_config" where
  "example_config = \<lparr>rc_GroupVersion = None, rc_APIPath = [], rc_NegotiatedSerializer = None, rc_UserAgent = [],
     rc_QPS = 5, rc_Burst = 10, rc_RateLimiter = None, rc_rest = ()\<rparr>"

theorem clientset_from_config_witness:
  "\<exists>more s. clientset_NewForConfig example_client_library (Some 0) [example_config] = Inr ([example_config] @ more, Inr s)
    \<and> tc_restClient (cs_k8slab s) = (''/apis'', Some (5, 10)) \<and> cs_discovery s = Some (5, 10)"
proof -
  have s: "clientset_of example_client_library example_config =
      Inr \<lparr>cs_discovery = Some (5, 10), cs_k8slab = \<lparr>tc_restClient = (''/apis'', Some (5, 10))\<rparr>\<rparr>" by code_simp
  have cell: "[example_config] ! 0 = example_config" by simp
  show ?thesis
    using clientset_from_config [of 0 "[example_config]" example_client_library, THEN conjunct1]
    unfolding cell s by auto
qed

end
