(* ===== verification/Fake_Swarms.thy ===== *)
theory Fake_Swarms
  imports Swarm_Client
begin

text \<open>
  The fake client of the swarms for tests,
  \<open>generated/clientset/versioned/typed/swarm/v1alpha1/fake\<close>. Each method makes an action of
  \<open>client-go\<close>'s \<open>testing\<close> package and hands it to \<open>Invokes\<close>, which answers with an object, nil or not,
  and an error; the object's type is asserted. \<open>List\<close> filters what it gets by label.
\<close>

section \<open>Actions\<close>

text \<open>
  The constructors of the library that the code calls, with their arguments but the resource and
  kind, which are those of the swarms in all of them.
\<close>

datatype 'o action =
    GetAction string string
  | ListAction string listOptions
  | WatchAction string listOptions
  | CreateAction string swarm
  | UpdateAction string swarm
  | UpdateSubresourceAction string string swarm
  | DeleteActionWithOptions string string 'o
  | DeleteCollectionAction string listOptions
  | PatchSubresourceAction string string string string "string list"

datatype fake_object = FakeSwarm swarm | FakeSwarmList swarmList | FakeOther string

record ('k, 'o, 'w, 'sel) fake =
  fk_Invokes :: "'k \<Rightarrow> 'o action \<Rightarrow> fake_object \<Rightarrow> 'k \<times> fake_object option \<times> goerror option"
  fk_InvokesWatch :: "'k \<Rightarrow> 'o action \<Rightarrow> 'k \<times> (goerror + 'w)"
  fk_label_of :: "listOptions \<Rightarrow> 'sel option"
  fk_Everything :: 'sel
  fk_Matches :: "'sel \<Rightarrow> (string, string) gomap \<Rightarrow> bool"

section \<open>The methods\<close>

text \<open>What a method with a swarm as its result does with the answer.\<close>

definition as_fake_swarm ::
    "'k \<times> fake_object option \<times> goerror option \<Rightarrow> ('k \<times> swarm option \<times> goerror option) go" where
  "as_fake_swarm answer =
     (let (k, obj, err) = answer in
      case obj of
        None \<Rightarrow> Inr (k, None, err)
      | Some (FakeSwarm sw) \<Rightarrow> Inr (k, Some sw, err)
      | Some _ \<Rightarrow> Inl TypeAssertion)"

definition Fake_Get where
  "Fake_Get c ns k name options = as_fake_swarm (fk_Invokes c k (GetAction ns name) (FakeSwarm new_swarm))"

fun match_loop :: "((string, string) gomap \<Rightarrow> bool) \<Rightarrow> swarm list \<Rightarrow> swarm list \<Rightarrow> swarm list" where
  "match_loop matches [] items = items"
| "match_loop matches (item # rest) items =
     (if matches (om_labels (sw_objectMeta item)) then match_loop matches rest (items @ [item])
      else match_loop matches rest items)"

definition Fake_List where
  "Fake_List c ns k opts =
     (let (k', obj, err) = fk_Invokes c k (ListAction ns opts) (FakeSwarmList new_swarmList) in
      case obj of
        None \<Rightarrow> Inr (k', None, err)
      | Some ob \<Rightarrow>
          let label = (case fk_label_of c opts of None \<Rightarrow> fk_Everything c | Some l \<Rightarrow> l)
          in case ob of
               FakeSwarmList l \<Rightarrow>
                 Inr (k', Some (new_swarmList\<lparr>sl_listMeta := sl_listMeta l,
                   sl_items := match_loop (fk_Matches c label) (sl_items l) []\<rparr>), err)
             | _ \<Rightarrow> Inl TypeAssertion)"

definition Fake_Watch where
  "Fake_Watch c ns k opts = fk_InvokesWatch c k (WatchAction ns opts)"

definition Fake_Create where
  "Fake_Create c ns k sw opts = as_fake_swarm (fk_Invokes c k (CreateAction ns sw) (FakeSwarm new_swarm))"

definition Fake_Update where
  "Fake_Update c ns k sw opts = as_fake_swarm (fk_Invokes c k (UpdateAction ns sw) (FakeSwarm new_swarm))"

definition Fake_UpdateStatus where
  "Fake_UpdateStatus c ns k sw opts =
     as_fake_swarm (fk_Invokes c k (UpdateSubresourceAction ''status'' ns sw) (FakeSwarm new_swarm))"

definition Fake_Delete where
  "Fake_Delete c ns k name opts =
     (let (k', obj, err) = fk_Invokes c k (DeleteActionWithOptions ns name opts) (FakeSwarm new_swarm) in (k', err))"

definition Fake_DeleteCollection where
  "Fake_DeleteCollection c ns k opts listOpts =
     (let action = DeleteCollectionAction ns listOpts;
          (k', obj, err) = fk_Invokes c k action (FakeSwarmList new_swarmList)
      in (k', err))"

definition Fake_Patch where
  "Fake_Patch c ns k name pt patch opts subresources =
     as_fake_swarm (fk_Invokes c k (PatchSubresourceAction ns name pt patch subresources) (FakeSwarm new_swarm))"

section \<open>Facts\<close>

lemma match_loop_filter:
  "match_loop matches ws items = items @ filter (\<lambda>w. matches (om_labels (sw_objectMeta w))) ws"
  by (induction ws arbitrary: items) simp_all

text \<open>
  The object store behind the fakes, as its documentation has it: swarms by namespace and name,
  without any validation, an error and a nil object for one that is missing. The namespace of an
  update is that of the swarm.
\<close>

definition tracks :: "('k, 'o, 'w, 'sel) fake \<Rightarrow> ('k \<Rightarrow> string \<Rightarrow> string \<Rightarrow> swarm option) \<Rightarrow> bool" where
  "tracks c stored \<longleftrightarrow>
     (\<forall>k ns name z. fk_Invokes c k (GetAction ns name) z =
        (case stored k ns name of
           None \<Rightarrow> (k, None, Some (StatusError ''NotFound'')) | Some sw \<Rightarrow> (k, Some (FakeSwarm sw), None)))
     \<and> (\<forall>k ns sw z. om_namespace (sw_objectMeta sw) = ns \<longrightarrow>
        (\<exists>k' obj err. fk_Invokes c k (UpdateAction ns sw) z = (k', obj, err)
          \<and> (case stored k ns (om_name (sw_objectMeta sw)) of
               None \<Rightarrow> k' = k \<and> obj = None \<and> err \<noteq> None
             | Some _ \<Rightarrow> obj = Some (FakeSwarm sw) \<and> err = None
                 \<and> (\<forall>ns' name'. stored k' ns' name' =
                      (if ns' = ns \<and> name' = om_name (sw_objectMeta sw) then Some sw else stored k ns' name')))))"

text \<open>
  So the fake gives back exactly what was updated, without the checks of a server, and leaves the
  other swarms as they are; an update of a swarm that does not exist changes nothing.
\<close>

lemma fake_get:
  assumes "tracks c stored"
  shows "Fake_Get c ns k name o1 = Inr (k, stored k ns name, (case stored k ns name of
      None \<Rightarrow> Some (StatusError ''NotFound'') | Some sw \<Rightarrow> None))"
  using assms by (simp add: tracks_def Fake_Get_def as_fake_swarm_def split: option.split)

lemma fake_update_get:
  assumes "tracks c stored" and "om_namespace (sw_objectMeta sw) = ns"
  shows "stored k ns (om_name (sw_objectMeta sw)) = Some old \<Longrightarrow>
      \<exists>k'. Fake_Update c ns k sw o2 = Inr (k', Some sw, None)
        \<and> Fake_Get c ns' k' name o1 = (if ns' = ns \<and> name = om_name (sw_objectMeta sw) then Inr (k', Some sw, None)
            else Inr (k', stored k ns' name, (case stored k ns' name of
              None \<Rightarrow> Some (StatusError ''NotFound'') | Some sw \<Rightarrow> None)))"
    and "stored k ns (om_name (sw_objectMeta sw)) = None \<Longrightarrow>
      \<exists>err. Fake_Update c ns k sw o2 = Inr (k, None, Some err)"
proof -
  note get = fake_get [OF assms(1)]
  have "\<exists>k' obj err. fk_Invokes c k (UpdateAction ns sw) (FakeSwarm new_swarm) = (k', obj, err)
    \<and> (case stored k ns (om_name (sw_objectMeta sw)) of
       None \<Rightarrow> k' = k \<and> obj = None \<and> err \<noteq> None
     | Some _ \<Rightarrow> obj = Some (FakeSwarm sw) \<and> err = None
         \<and> (\<forall>ns' name'. stored k' ns' name' =
              (if ns' = ns \<and> name' = om_name (sw_objectMeta sw) then Some sw else stored k ns' name')))"
    by (rule assms(1) [unfolded tracks_def, THEN conjunct2, rule_format, OF assms(2)])
  then obtain k' obj err where u: "fk_Invokes c k (UpdateAction ns sw) (FakeSwarm new_swarm) = (k', obj, err)"
    and s: "case stored k ns (om_name (sw_objectMeta sw)) of
       None \<Rightarrow> k' = k \<and> obj = None \<and> err \<noteq> None
     | Some _ \<Rightarrow> obj = Some (FakeSwarm sw) \<and> err = None
         \<and> (\<forall>ns' name'. stored k' ns' name' =
              (if ns' = ns \<and> name' = om_name (sw_objectMeta sw) then Some sw else stored k ns' name'))"
    by (elim exE conjE)
  show "\<exists>k'. Fake_Update c ns k sw o2 = Inr (k', Some sw, None)
        \<and> Fake_Get c ns' k' name o1 = (if ns' = ns \<and> name = om_name (sw_objectMeta sw) then Inr (k', Some sw, None)
            else Inr (k', stored k ns' name, (case stored k ns' name of
              None \<Rightarrow> Some (StatusError ''NotFound'') | Some sw \<Rightarrow> None)))"
    if "stored k ns (om_name (sw_objectMeta sw)) = Some old"
  proof -
    have o: "obj = Some (FakeSwarm sw)" "err = None"
      and st: "stored k' ns' name = (if ns' = ns \<and> name = om_name (sw_objectMeta sw) then Some sw else stored k ns' name)"
      using s that by simp_all
    have "Fake_Update c ns k sw o2 = Inr (k', Some sw, None)"
      by (simp add: Fake_Update_def u o as_fake_swarm_def)
    moreover have "Fake_Get c ns' k' name o1 = (if ns' = ns \<and> name = om_name (sw_objectMeta sw) then Inr (k', Some sw, None)
            else Inr (k', stored k ns' name, (case stored k ns' name of
              None \<Rightarrow> Some (StatusError ''NotFound'') | Some sw \<Rightarrow> None)))"
      unfolding get st by simp
    ultimately show ?thesis by (intro exI conjI)
  qed
  show "\<exists>err. Fake_Update c ns k sw o2 = Inr (k, None, Some err)"
    if "stored k ns (om_name (sw_objectMeta sw)) = None"
  proof -
    have "k' = k" "obj = None" "err \<noteq> None" using s that by simp_all
    then show ?thesis by (auto simp: Fake_Update_def u as_fake_swarm_def)
  qed
qed

text \<open>The list of the fake has the matching items in their order, and not the type of the list.\<close>

lemma fake_list_filters:
  assumes "fk_Invokes c k (ListAction ns opts) (FakeSwarmList new_swarmList) = (k', Some (FakeSwarmList l), err)"
    and "fk_label_of c opts = Some label"
  shows "Fake_List c ns k opts = Inr (k', Some (new_swarmList\<lparr>sl_listMeta := sl_listMeta l,
    sl_items := filter (\<lambda>w. fk_Matches c label (om_labels (sw_objectMeta w))) (sl_items l)\<rparr>), err)"
  using assms by (simp add: Fake_List_def match_loop_filter)

definition example_fake :: "(string \<Rightarrow> string \<Rightarrow> swarm option, unit, unit, unit) fake" where
  "example_fake =
     \<lparr>fk_Invokes = (\<lambda>k act z. case act of
        GetAction ns name \<Rightarrow> (case k ns name of
          None \<Rightarrow> (k, None, Some (StatusError ''NotFound'')) | Some sw \<Rightarrow> (k, Some (FakeSwarm sw), None))
      | UpdateAction ns sw \<Rightarrow> (case k ns (om_name (sw_objectMeta sw)) of
          None \<Rightarrow> (k, None, Some (StatusError ''NotFound''))
        | Some old \<Rightarrow> (k(ns := (k ns)(om_name (sw_objectMeta sw) := Some sw)), Some (FakeSwarm sw), None))
      | _ \<Rightarrow> (k, None, None)),
      fk_InvokesWatch = (\<lambda>k act. (k, Inr ())), fk_label_of = (\<lambda>opts. None), fk_Everything = (),
      fk_Matches = (\<lambda>sel labels. True)\<rparr>"

lemma example_fake_tracks: "tracks example_fake (\<lambda>k. k)"
  by (simp add: tracks_def example_fake_def split: option.split)

end
