(* ===== verification/Fake_Clientset.thy ===== *)
theory Fake_Clientset
  imports Fake_Swarms Registration
begin

text \<open>
  The generated clientset for tests, \<open>clientset/versioned/fake/clientset_generated.go\<close>, and its
  client of the group, \<open>typed/swarm/v1alpha1/fake/fake_swarm_client.go\<close>: an object tracker over the
  scheme of \<open>Registration\<close> is filled with the objects that are given, and a chain of reactors answers
  the actions of \<open>Fake_Swarms\<close> from it. Tracker, reactors and reflection are the library's, with
  \<open>tracker_laws\<close> for what its documentation says of them.
\<close>

section \<open>The library\<close>

text \<open>
  An action is sent for a resource and a kind. A reactor answers whether it handles the action, an
  object, nil or not, and an error; it may change the tracker. \<open>'f\<close> are the chains of reactors of a
  \<open>testing.Fake\<close>.
\<close>

type_synonym resource = "string \<times> string \<times> string"

type_synonym ('t, 'o) reaction = "'t \<Rightarrow> resource \<Rightarrow> 'o action \<Rightarrow> 't \<times> bool \<times> fake_object option \<times> goerror option"
type_synonym ('t, 'o, 'w) watch_reaction = "'t \<Rightarrow> resource \<Rightarrow> 'o action \<Rightarrow> 't \<times> bool \<times> 'w option \<times> goerror option"

record ('s, 'd, 't, 'f, 'o, 'w) testing_library =
  te_UniversalDecoder :: "'s \<Rightarrow> 'd"
  te_NewObjectTracker :: "'s \<Rightarrow> 'd \<Rightarrow> 't"
  te_Add :: "fake_object \<Rightarrow> 't \<Rightarrow> 't \<times> goerror option"
  te_Watch :: "resource \<Rightarrow> string \<Rightarrow> 't \<Rightarrow> 't \<times> (goerror + 'w)"
  te_ObjectReaction :: "('t, 'o) reaction"
  te_GetNamespace :: "'o action \<Rightarrow> string"
  te_zero :: 'f
  te_AddReactor :: "string \<Rightarrow> string \<Rightarrow> ('t, 'o) reaction \<Rightarrow> 'f \<Rightarrow> 'f"
  te_AddWatchReactor :: "string \<Rightarrow> ('t, 'o, 'w) watch_reaction \<Rightarrow> 'f \<Rightarrow> 'f"
  te_Invokes :: "'f \<Rightarrow> resource \<Rightarrow> string \<times> string \<times> string \<Rightarrow> 'o action \<Rightarrow> fake_object \<Rightarrow> 't
    \<Rightarrow> 't \<times> fake_object option \<times> goerror option"
  te_InvokesWatch :: "'f \<Rightarrow> resource \<Rightarrow> 'o action \<Rightarrow> 't \<Rightarrow> 't \<times> (goerror + 'w)"

section \<open>clientset_generated.go\<close>

text \<open>
  The clientset embeds its \<open>Fake\<close>; its discovery client and the clients it gives out hold a pointer
  to that, which is what \<open>FakeOfClientset\<close> stands for: the methods behind it take the clientset.
\<close>

datatype fake_pointer = FakeOfClientset

record ('t, 'f) fake_clientset =
  fcs_Fake :: 'f
  fcs_discovery :: "fake_pointer option"
  fcs_tracker :: 't

fun add_objects :: "('s, 'd, 't, 'f, 'o, 'w) testing_library \<Rightarrow> fake_object list \<Rightarrow> 't \<Rightarrow> 't go" where
  "add_objects lib [] o1 = Inr o1"
| "add_objects lib (obj # objects) o1 =
     (case te_Add lib obj o1 of
        (o2, Some err) \<Rightarrow> Inl (Panicked err)
      | (o2, None) \<Rightarrow> add_objects lib objects o2)"

definition watch_reactor :: "('s, 'd, 't, 'f, 'o, 'w) testing_library \<Rightarrow> ('t, 'o, 'w) watch_reaction" where
  "watch_reactor lib o1 gvr action1 =
     (let ns = te_GetNamespace lib action1
      in case te_Watch lib gvr ns o1 of
           (o2, Inl err) \<Rightarrow> (o2, False, None, Some err)
         | (o2, Inr watch) \<Rightarrow> (o2, True, Some watch, None))"

definition NewSimpleClientset ::
    "('s, 'd, 't, 'f, 'o, 'w) testing_library \<Rightarrow> 's \<Rightarrow> fake_object list \<Rightarrow> ('t, 'f) fake_clientset go" where
  "NewSimpleClientset lib scheme objects =
     go_bind (add_objects lib objects (te_NewObjectTracker lib scheme (te_UniversalDecoder lib scheme))) (\<lambda>o1.
       let cs = \<lparr>fcs_Fake = te_zero lib, fcs_discovery = None, fcs_tracker = o1\<rparr>;
           cs1 = cs\<lparr>fcs_discovery := Some FakeOfClientset\<rparr>;
           cs2 = cs1\<lparr>fcs_Fake := te_AddReactor lib ''*'' ''*'' (te_ObjectReaction lib) (fcs_Fake cs1)\<rparr>;
           cs3 = cs2\<lparr>fcs_Fake := te_AddWatchReactor lib ''*'' (watch_reactor lib) (fcs_Fake cs2)\<rparr>
       in Inr cs3)"

definition fake_Discovery :: "('t, 'f) fake_clientset \<Rightarrow> fake_pointer option" where
  "fake_Discovery c = fcs_discovery c"

definition Tracker :: "('t, 'f) fake_clientset \<Rightarrow> 't" where
  "Tracker c = fcs_tracker c"

definition fake_K8slabV1alpha1 :: "('t, 'f) fake_clientset \<Rightarrow> fake_pointer" where
  "fake_K8slabV1alpha1 c = FakeOfClientset"

section \<open>fake_swarm_client.go and the constants of fake_swarm.go\<close>

record fake_swarms =
  fsw_Fake :: fake_pointer
  fsw_ns :: string

definition fake_client_Swarms :: "fake_pointer \<Rightarrow> string \<Rightarrow> fake_swarms" where
  "fake_client_Swarms c namespace = \<lparr>fsw_Fake = c, fsw_ns = namespace\<rparr>"

text \<open>
  \<open>RESTClient\<close> returns a nil pointer as an interface. An interface value is nil only if it has no type:
  this one has a type, and a nil pointer in it.
\<close>

datatype rest_interface = NilInterface | RESTClientPointer "nat option"

definition fake_RESTClient :: "fake_pointer \<Rightarrow> rest_interface" where
  "fake_RESTClient c = (let ret = None in RESTClientPointer ret)"

definition swarmsResource :: resource where
  "swarmsResource = (''k8slab.info'', ''v1alpha1'', ''swarms'')"

definition swarmsKind :: "string \<times> string \<times> string" where
  "swarmsKind = (''k8slab.info'', ''v1alpha1'', ''Swarm'')"

text \<open>
  The \<open>Fake\<close> of a clientset, behind a pointer to it, as the methods of \<open>Fake_Swarms\<close> take it: the state
  is the tracker. The actions that it records for a test to look at are left out; nothing in the
  repository reads them. Selectors of lists are the library's, as there.
\<close>

definition fake_of ::
    "('s, 'd, 't, 'f, 'o, 'w) testing_library \<Rightarrow> ('k, 'o, 'w, 'sel) fake \<Rightarrow> ('t, 'f) fake_clientset \<Rightarrow> fake_pointer
     \<Rightarrow> ('t, 'o, 'w, 'sel) fake" where
  "fake_of lib labels c p =
     (case p of FakeOfClientset \<Rightarrow>
       \<lparr>fk_Invokes = (\<lambda>o1 act z. te_Invokes lib (fcs_Fake c) swarmsResource swarmsKind act z o1),
        fk_InvokesWatch = (\<lambda>o1 act. te_InvokesWatch lib (fcs_Fake c) swarmsResource act o1),
        fk_label_of = fk_label_of labels, fk_Everything = fk_Everything labels, fk_Matches = fk_Matches labels\<rparr>)"

section \<open>The laws of the tracker\<close>

text \<open>
  \<open>held\<close> is the swarm a tracker has for a resource, a namespace and a name, \<open>kinds\<close> are the kinds that its
  scheme has for the type of swarms, \<open>guess\<close> is the resource that the library takes for a kind. A swarm
  is added under the resource of each kind, with an error if there is no kind or the place is taken.
  The first reactor that handles an action answers it; a watch that none handles gets the library's
  own error.
\<close>

type_synonym 't held = "'t \<Rightarrow> resource \<Rightarrow> string \<Rightarrow> string \<Rightarrow> swarm option"

definition swarm_key :: "swarm \<Rightarrow> string \<times> string" where
  "swarm_key sw = (om_namespace (sw_objectMeta sw), om_name (sw_objectMeta sw))"

definition puts :: "'t held \<Rightarrow> resource set \<Rightarrow> swarm \<Rightarrow> 't \<Rightarrow> 't \<Rightarrow> bool" where
  "puts held rs sw t t' \<longleftrightarrow>
     (\<forall>r ns n. held t' r ns n = (if r \<in> rs \<and> (ns, n) = swarm_key sw then Some sw else held t r ns n))"

lemma puts_held:
  "puts held rs sw t t' \<Longrightarrow> held t' r ns n = (if r \<in> rs \<and> (ns, n) = swarm_key sw then Some sw else held t r ns n)"
  unfolding puts_def by blast

definition adds_swarms ::
    "('s, 'd, 't, 'f, 'o, 'w) testing_library \<Rightarrow> 's known \<Rightarrow> 't held \<Rightarrow> ('t \<Rightarrow> resource set) \<Rightarrow> (resource \<Rightarrow> resource) \<Rightarrow> bool" where
  "adds_swarms lib known held kinds guess \<longleftrightarrow>
     (\<forall>s d. kinds (te_NewObjectTracker lib s d) = {gvk. known s gvk = Some SwarmObject}
        \<and> (\<forall>r ns n. held (te_NewObjectTracker lib s d) r ns n = None))
     \<and> (\<forall>t sw. if kinds t \<noteq> {} \<and> (\<forall>r\<in>guess ` kinds t. held t r (fst (swarm_key sw)) (snd (swarm_key sw)) = None)
          then \<exists>t'. te_Add lib (FakeSwarm sw) t = (t', None) \<and> kinds t' = kinds t \<and> puts held (guess ` kinds t) sw t t'
          else \<exists>t' err. te_Add lib (FakeSwarm sw) t = (t', Some err))
     \<and> (\<forall>g v. guess (g, v, ''Swarm'') = (g, v, ''swarms''))"

definition reacts :: "('s, 'd, 't, 'f, 'o, 'w) testing_library \<Rightarrow> 't held \<Rightarrow> bool" where
  "reacts lib held \<longleftrightarrow>
     (\<forall>t r ns name. te_ObjectReaction lib t r (GetAction ns name) = (t, True, map_option FakeSwarm (held t r ns name),
        (case held t r ns name of None \<Rightarrow> Some (StatusError ''NotFound'') | Some sw \<Rightarrow> None)))
     \<and> (\<forall>t r sw. \<exists>t' obj err. te_ObjectReaction lib t r (UpdateAction (fst (swarm_key sw)) sw) = (t', True, obj, err)
          \<and> (case held t r (fst (swarm_key sw)) (snd (swarm_key sw)) of
               None \<Rightarrow> t' = t \<and> obj = None \<and> err \<noteq> None
             | Some _ \<Rightarrow> obj = Some (FakeSwarm sw) \<and> err = None \<and> puts held {r} sw t t'))"

definition invokes :: "('s, 'd, 't, 'f, 'o, 'w) testing_library \<Rightarrow> goerror \<Rightarrow> bool" where
  "invokes lib unhandled \<longleftrightarrow>
     (\<forall>ns opts. te_GetNamespace lib (WatchAction ns opts) = ns)
     \<and> (\<forall>r w gvr gvk act z t.
        let f = te_AddWatchReactor lib ''*'' w (te_AddReactor lib ''*'' ''*'' r (te_zero lib)) in
        te_Invokes lib f gvr gvk act z t =
          (let (t', handled, obj, err) = r t gvr act in if handled then (t', obj, err) else (t', Some z, None))
        \<and> te_InvokesWatch lib f gvr act t =
          (let (t', handled, watch, err) = w t gvr act in
           if \<not> handled then (t', Inl unhandled)
           else case err of Some e \<Rightarrow> (t', Inl e) | None \<Rightarrow> (t', case watch of None \<Rightarrow> Inl unhandled | Some x \<Rightarrow> Inr x)))"

text \<open>The swarms a tracker has for the resource of the fake client.\<close>

definition stored_swarms :: "'t held \<Rightarrow> 't \<Rightarrow> string \<Rightarrow> string \<Rightarrow> swarm option" where
  "stored_swarms held t = held t swarmsResource"

text \<open>The \<open>Fake\<close> that the constructor makes keeps what \<open>Fake_Swarms\<close> relies on.\<close>

lemma new_clientset:
  "NewSimpleClientset lib scheme objects = Inr c \<longleftrightarrow>
     (\<exists>o1. add_objects lib objects (te_NewObjectTracker lib scheme (te_UniversalDecoder lib scheme)) = Inr o1
       \<and> c = \<lparr>fcs_Fake = te_AddWatchReactor lib ''*'' (watch_reactor lib)
                (te_AddReactor lib ''*'' ''*'' (te_ObjectReaction lib) (te_zero lib)),
              fcs_discovery = Some FakeOfClientset, fcs_tracker = o1\<rparr>)"
  by (auto simp: NewSimpleClientset_def Let_def go_bind_Inr_iff)

lemma new_clientset_tracks:
  assumes "reacts lib held" and "invokes lib unhandled" and "NewSimpleClientset lib scheme objects = Inr c"
  shows "tracks (fake_of lib labels c (fake_K8slabV1alpha1 c)) (stored_swarms held)"
proof -
  have inv: "fk_Invokes (fake_of lib labels c (fake_K8slabV1alpha1 c)) t act z =
      (let (t', handled, obj, err) = te_ObjectReaction lib t swarmsResource act in
       if handled then (t', obj, err) else (t', Some z, None))" for t act z
  proof -
    have "fcs_Fake c = te_AddWatchReactor lib ''*'' (watch_reactor lib)
        (te_AddReactor lib ''*'' ''*'' (te_ObjectReaction lib) (te_zero lib))"
      using assms(3) by (auto simp: new_clientset)
    then show ?thesis
      using assms(2) [unfolded invokes_def Let_def, THEN conjunct2, rule_format, THEN conjunct1]
      by (simp add: fake_of_def fake_K8slabV1alpha1_def)
  qed
  show ?thesis
    unfolding tracks_def inv
  proof (intro conjI allI impI)
    fix t ns name z
    show "(let (t', handled, obj, err) = te_ObjectReaction lib t swarmsResource (GetAction ns name) in
        if handled then (t', obj, err) else (t', Some z, None)) =
      (case stored_swarms held t ns name of None \<Rightarrow> (t, None, Some (StatusError ''NotFound'')) | Some sw \<Rightarrow> (t, Some (FakeSwarm sw), None))"
      using assms(1) [unfolded reacts_def, THEN conjunct1, rule_format, of t swarmsResource ns name]
      by (simp add: stored_swarms_def split: option.splits)
  next
    fix t ns and sw :: swarm and z
    assume ns: "om_namespace (sw_objectMeta sw) = ns"
    obtain t' obj err where r: "te_ObjectReaction lib t swarmsResource (UpdateAction ns sw) = (t', True, obj, err)"
      "case held t swarmsResource ns (om_name (sw_objectMeta sw)) of
         None \<Rightarrow> t' = t \<and> obj = None \<and> err \<noteq> None
       | Some _ \<Rightarrow> obj = Some (FakeSwarm sw) \<and> err = None \<and> puts held {swarmsResource} sw t t'"
      using assms(1) [unfolded reacts_def, THEN conjunct2, rule_format, of t swarmsResource sw]
      unfolding swarm_key_def fst_conv snd_conv ns by (elim exE conjE)
    then show "\<exists>k' obj err. (let (t', handled, obj, err) = te_ObjectReaction lib t swarmsResource (UpdateAction ns sw) in
          if handled then (t', obj, err) else (t', Some z, None)) = (k', obj, err)
        \<and> (case stored_swarms held t ns (om_name (sw_objectMeta sw)) of
             None \<Rightarrow> k' = t \<and> obj = None \<and> err \<noteq> None
           | Some _ \<Rightarrow> obj = Some (FakeSwarm sw) \<and> err = None
               \<and> (\<forall>ns' name'. stored_swarms held k' ns' name' =
                    (if ns' = ns \<and> name' = om_name (sw_objectMeta sw) then Some sw else stored_swarms held t ns' name')))"
      by (auto simp: stored_swarms_def puts_held swarm_key_def ns split: option.splits)
  qed
qed

section \<open>What the clientset holds\<close>

definition found :: "swarm list \<Rightarrow> string \<Rightarrow> string \<Rightarrow> swarm option" where
  "found sws ns name = find (\<lambda>sw. swarm_key sw = (ns, name)) sws"

lemma add_objects_swarms:
  assumes "adds_swarms lib known held kinds guess" and "kinds t = {(g, v, ''Swarm'')}"
  shows "if distinct (map swarm_key sws) \<and> (\<forall>sw\<in>set sws. held t (g, v, ''swarms'') (fst (swarm_key sw)) (snd (swarm_key sw)) = None)
    then \<exists>t'. add_objects lib (map FakeSwarm sws) t = Inr t'
      \<and> (\<forall>r ns n. held t' r ns n = (if r = (g, v, ''swarms'') \<and> found sws ns n \<noteq> None then found sws ns n else held t r ns n))
    else panics (add_objects lib (map FakeSwarm sws) t)"
  using assms(2)
proof (induction sws arbitrary: t)
  case Nil
  show ?case by (simp add: found_def)
next
  case (Cons sw sws)
  let ?r = "(g, v, ''swarms'')"
  have guess: "guess ` kinds t = {?r}" and ne: "kinds t \<noteq> {}" using assms(1) Cons.prems by (simp_all add: adds_swarms_def)
  have add: "if held t ?r (fst (swarm_key sw)) (snd (swarm_key sw)) = None
      then \<exists>t'. te_Add lib (FakeSwarm sw) t = (t', None) \<and> kinds t' = kinds t \<and> puts held {?r} sw t t'
      else \<exists>t' err. te_Add lib (FakeSwarm sw) t = (t', Some err)"
    using assms(1) [unfolded adds_swarms_def, THEN conjunct2, THEN conjunct1, rule_format, of t sw] ne
    unfolding guess by simp
  show ?case
  proof (cases "held t ?r (fst (swarm_key sw)) (snd (swarm_key sw))")
    case (Some old)
    then obtain t' err where "te_Add lib (FakeSwarm sw) t = (t', Some err)" using add by auto
    then show ?thesis using Some by auto
  next
    case None
    then obtain t1 where t1: "te_Add lib (FakeSwarm sw) t = (t1, None)" "kinds t1 = {(g, v, ''Swarm'')}" "puts held {?r} sw t t1"
      using add Cons.prems by auto
    have h: "held t1 r ns n = (if r = ?r \<and> (ns, n) = swarm_key sw then Some sw else held t r ns n)" for r ns n
      using puts_held [OF t1(3)] by simp
    have free: "(\<forall>x\<in>set sws. held t1 ?r (fst (swarm_key x)) (snd (swarm_key x)) = None) \<longleftrightarrow>
        swarm_key sw \<notin> swarm_key ` set sws \<and> (\<forall>x\<in>set sws. held t ?r (fst (swarm_key x)) (snd (swarm_key x)) = None)"
    proof -
      have "swarm_key sw \<notin> swarm_key ` set sws \<longleftrightarrow> (\<forall>x\<in>set sws. swarm_key x \<noteq> swarm_key sw)"
        by (metis (no_types, lifting) imageE imageI)
      then show ?thesis by (auto simp: h)
    qed
    show ?thesis
    proof (cases "distinct (map swarm_key (sw # sws)) \<and> (\<forall>x\<in>set (sw # sws). held t ?r (fst (swarm_key x)) (snd (swarm_key x)) = None)")
      case True
      then have "distinct (map swarm_key sws) \<and> (\<forall>x\<in>set sws. held t1 ?r (fst (swarm_key x)) (snd (swarm_key x)) = None)"
        using free by auto
      then obtain t' where t': "add_objects lib (map FakeSwarm sws) t1 = Inr t'"
        "\<And>r ns n. held t' r ns n = (if r = ?r \<and> found sws ns n \<noteq> None then found sws ns n else held t1 r ns n)"
        using Cons.IH [OF t1(2)] by auto
      have "found sws (fst (swarm_key sw)) (snd (swarm_key sw)) = None"
      proof -
        have "swarm_key x \<noteq> swarm_key sw" if "x \<in> set sws" for x
          using True imageI [OF that, of swarm_key] by auto
        then show ?thesis by (simp add: found_def find_None_iff)
      qed
      then have "held t' r ns n = (if r = ?r \<and> found (sw # sws) ns n \<noteq> None then found (sw # sws) ns n else held t r ns n)" for r ns n
        by (auto simp: t'(2) h found_def)
      then show ?thesis using True t1(1) t'(1) by auto
    next
      case False
      then have "\<not> (distinct (map swarm_key sws) \<and> (\<forall>x\<in>set sws. held t1 ?r (fst (swarm_key x)) (snd (swarm_key x)) = None))"
        using free None by auto
      then have "panics (add_objects lib (map FakeSwarm sws) t1)" using Cons.IH [OF t1(2)] by auto
      then show ?thesis using False t1(1) by (simp only: if_False list.map add_objects.simps) simp
    qed
  qed
qed

text \<open>
  C36 A clientset for tests made from swarms panics exactly if two of them have the same namespace and
  name; if not, its client finds each of them by namespace and name, and an update of one of them is
  what is read afterwards, if the group that \<open>register.go\<close> takes from the other repository is the one the generated
  client spells out. With any other name of the group the client finds none of the swarms it was made
  from and the constructor does not report it. An error of the tracker's watch does not reach the
  caller, which gets the library's message for an action that nothing handles.
\<close>

theorem fake_clientset_serves:
  assumes "scheme_laws sl known meta opts" and "fake_scheme sl group_name = Inr scheme"
    and "adds_swarms lib known held kinds guess" and "reacts lib held" and "invokes lib unhandled"
  shows "panics (NewSimpleClientset lib scheme (map FakeSwarm sws)) = (\<not> distinct (map swarm_key sws))
    \<and> (\<forall>c. NewSimpleClientset lib scheme (map FakeSwarm sws) = Inr c \<longrightarrow>
         (let client = fake_of lib labels c (fake_K8slabV1alpha1 c);
              answer = (\<lambda>t sw. Inr (t, sw, case sw of None \<Rightarrow> Some (StatusError ''NotFound'') | Some _ \<Rightarrow> None));
              there = (\<lambda>ns name. if group_name = ''k8slab.info'' then found sws ns name else None)
          in (\<forall>ns name. Fake_Get client ns (Tracker c) name o1 = answer (Tracker c) (there ns name))
             \<and> (\<forall>ns sw. om_namespace (sw_objectMeta sw) = ns \<and> there ns (om_name (sw_objectMeta sw)) \<noteq> None \<longrightarrow>
                 (\<exists>t. Fake_Update client ns (Tracker c) sw o2 = Inr (t, Some sw, None)
                   \<and> (\<forall>ns' name. Fake_Get client ns' t name o1 =
                       answer t (if (ns', name) = swarm_key sw then Some sw else there ns' name))))
             \<and> (\<forall>ns opts t t' e. te_Watch lib swarmsResource ns t = (t', Inl e) \<longrightarrow>
                 Fake_Watch client ns t opts = (t', Inl unhandled))))"
proof -
  define t0 where "t0 = te_NewObjectTracker lib scheme (te_UniversalDecoder lib scheme)"
  obtain s where s: "fake_scheme sl group_name = Inr s" "knows_swarms known meta opts group_name s"
    using registers [OF assms(1)] by blast
  have "''Swarm'' \<notin> meta" using assms(1) by (simp add: scheme_laws_def)
  then have swarm: "known scheme gvk = Some SwarmObject \<longleftrightarrow> gvk = (group_name, ''v1alpha1'', ''Swarm'')" for gvk
    using s assms(2) knows_swarm_iff by simp
  have kinds: "kinds t0 = {(group_name, ''v1alpha1'', ''Swarm'')}"
    using assms(3) by (simp add: adds_swarms_def t0_def swarm)
  have empty: "held t0 r ns n = None" for r ns n
    unfolding t0_def by (rule assms(3) [unfolded adds_swarms_def, THEN conjunct1, rule_format, THEN conjunct2, rule_format])
  note add = add_objects_swarms [OF assms(3) kinds, of sws, unfolded empty]
  have pan: "panics (NewSimpleClientset lib scheme (map FakeSwarm sws)) = panics (add_objects lib (map FakeSwarm sws) t0)"
    by (simp add: NewSimpleClientset_def t0_def go_bind_def Let_def split: sum.split)
  show ?thesis (is "?A \<and> (\<forall>c. ?N c \<longrightarrow> ?B c)")
  proof (intro conjI allI impI)
    show "?A" unfolding pan using add by (auto split: if_splits)
  next
    fix c assume c: "?N c"
    then obtain t where t: "add_objects lib (map FakeSwarm sws) t0 = Inr t" "Tracker c = t"
      "fcs_Fake c = te_AddWatchReactor lib ''*'' (watch_reactor lib)
        (te_AddReactor lib ''*'' ''*'' (te_ObjectReaction lib) (te_zero lib))"
      by (auto simp: new_clientset t0_def Tracker_def)
    have stored: "stored_swarms held t ns n = (if group_name = ''k8slab.info'' then found sws ns n else None)" for ns n
      using add t(1) by (auto simp: stored_swarms_def swarmsResource_def split: if_splits)
    have tracks: "tracks (fake_of lib labels c (fake_K8slabV1alpha1 c)) (stored_swarms held)"
      by (rule new_clientset_tracks [OF assms(4,5) c])
    have watch: "Fake_Watch (fake_of lib labels c (fake_K8slabV1alpha1 c)) ns t opts = (t', Inl unhandled)"
      if "te_Watch lib swarmsResource ns t = (t', Inl e)" for ns opts t t' e
    proof -
      have "te_GetNamespace lib (WatchAction ns opts) = ns" using assms(5) unfolding invokes_def by blast
      then have "watch_reactor lib t swarmsResource (WatchAction ns opts) = (t', False, None, Some e)"
        by (simp add: watch_reactor_def that)
      then show ?thesis
        using assms(5) [unfolded invokes_def Let_def, THEN conjunct2, rule_format, THEN conjunct2]
        by (simp add: Fake_Watch_def fake_of_def fake_K8slabV1alpha1_def t(3))
    qed
    note get = fake_get [OF tracks]
    have update: "\<exists>t'. Fake_Update (fake_of lib labels c (fake_K8slabV1alpha1 c)) ns t sw o2 = Inr (t', Some sw, None)
        \<and> (\<forall>ns' name. Fake_Get (fake_of lib labels c (fake_K8slabV1alpha1 c)) ns' t' name o1 =
            Inr (t', if (ns', name) = swarm_key sw then Some sw else stored_swarms held t ns' name,
              case if (ns', name) = swarm_key sw then Some sw else stored_swarms held t ns' name of
                None \<Rightarrow> Some (StatusError ''NotFound'') | Some sw \<Rightarrow> None))"
      if ns: "om_namespace (sw_objectMeta sw) = ns" and old: "stored_swarms held t ns (om_name (sw_objectMeta sw)) = Some old" for ns sw old
    proof -
      have key: "swarm_key sw = (ns, om_name (sw_objectMeta sw))" by (simp add: swarm_key_def ns)
      obtain t' where u: "Fake_Update (fake_of lib labels c (fake_K8slabV1alpha1 c)) ns t sw o2 = Inr (t', Some sw, None)"
        using fake_update_get(1) [OF tracks ns, where name = "[]" and ns' = ns and ?o1.0 = o1 and ?o2.0 = o2, OF old] by blast
      have "Fake_Get (fake_of lib labels c (fake_K8slabV1alpha1 c)) ns' t' name o1 =
            Inr (t', if (ns', name) = swarm_key sw then Some sw else stored_swarms held t ns' name,
              case if (ns', name) = swarm_key sw then Some sw else stored_swarms held t ns' name of
                None \<Rightarrow> Some (StatusError ''NotFound'') | Some sw \<Rightarrow> None)" for ns' name
        using fake_update_get(1) [OF tracks ns, where ns' = ns' and name = name and ?o1.0 = o1 and ?o2.0 = o2, OF old] u
        by (auto simp: key)
      with u show ?thesis by blast
    qed
    show "?B c"
      unfolding Let_def t(2)
    proof (intro conjI allI impI)
      fix ns name
      show "Fake_Get (fake_of lib labels c (fake_K8slabV1alpha1 c)) ns t name o1 =
        Inr (t, if group_name = ''k8slab.info'' then found sws ns name else None,
          case if group_name = ''k8slab.info'' then found sws ns name else None of
            None \<Rightarrow> Some (StatusError ''NotFound'') | Some _ \<Rightarrow> None)"
        unfolding get stored by simp
    next
      fix ns and sw :: swarm
      assume "om_namespace (sw_objectMeta sw) = ns
        \<and> (if group_name = ''k8slab.info'' then found sws ns (om_name (sw_objectMeta sw)) else None) \<noteq> None"
      then obtain old where "om_namespace (sw_objectMeta sw) = ns"
        "stored_swarms held t ns (om_name (sw_objectMeta sw)) = Some old" unfolding stored by blast
      from update [OF this]
      show "\<exists>t'. Fake_Update (fake_of lib labels c (fake_K8slabV1alpha1 c)) ns t sw o2 = Inr (t', Some sw, None)
        \<and> (\<forall>ns' name. Fake_Get (fake_of lib labels c (fake_K8slabV1alpha1 c)) ns' t' name o1 =
            Inr (t', if (ns', name) = swarm_key sw then Some sw
                else if group_name = ''k8slab.info'' then found sws ns' name else None,
              case if (ns', name) = swarm_key sw then Some sw
                else if group_name = ''k8slab.info'' then found sws ns' name else None of
                None \<Rightarrow> Some (StatusError ''NotFound'') | Some _ \<Rightarrow> None))"
        unfolding stored .
    qed (rule watch)
  qed
qed

section \<open>An instance of the library\<close>

text \<open>A tracker keeps its scheme's kinds of swarms and the swarms it has; the reactors are a list with the last watch reactor.\<close>

type_synonym example_tracker = "resource set \<times> (resource \<Rightarrow> string \<Rightarrow> string \<Rightarrow> swarm option)"

definition example_puts :: "resource set \<Rightarrow> swarm \<Rightarrow> example_tracker \<Rightarrow> example_tracker" where
  "example_puts rs sw t =
     (fst t, \<lambda>r ns n. if r \<in> rs \<and> (ns, n) = swarm_key sw then Some sw else snd t r ns n)"

definition example_guess :: "resource \<Rightarrow> resource" where
  "example_guess gvk = (case gvk of (g, v, k) \<Rightarrow> (g, v, if k = ''Swarm'' then ''swarms'' else k))"

definition example_testing_library ::
    "(string \<times> string \<times> string \<rightharpoonup> object_type, unit, example_tracker,
      (example_tracker, unit) reaction list \<times> (example_tracker, unit, unit) watch_reaction list, unit, unit) testing_library" where
  "example_testing_library =
     \<lparr>te_UniversalDecoder = (\<lambda>s. ()),
      te_NewObjectTracker = (\<lambda>s d. ({gvk. s gvk = Some SwarmObject}, \<lambda>r ns n. None)),
      te_Add = (\<lambda>obj t. case obj of
         FakeSwarm sw \<Rightarrow>
           if fst t \<noteq> {} \<and> (\<forall>r\<in>example_guess ` fst t. snd t r (fst (swarm_key sw)) (snd (swarm_key sw)) = None)
           then (example_puts (example_guess ` fst t) sw t, None) else (t, Some (StatusError ''AlreadyExists''))
       | _ \<Rightarrow> (t, Some (OtherError ''no kind is registered''))),
      te_Watch = (\<lambda>r ns t. (t, Inr ())),
      te_ObjectReaction = (\<lambda>t r act. case act of
         GetAction ns name \<Rightarrow> (t, True, map_option FakeSwarm (snd t r ns name),
           (case snd t r ns name of None \<Rightarrow> Some (StatusError ''NotFound'') | Some sw \<Rightarrow> None))
       | UpdateAction ns sw \<Rightarrow> (case snd t r ns (om_name (sw_objectMeta sw)) of
           None \<Rightarrow> (t, True, None, Some (StatusError ''NotFound''))
         | Some old \<Rightarrow> (example_puts {r} sw t, True, Some (FakeSwarm sw), None))
       | _ \<Rightarrow> (t, False, None, None)),
      te_GetNamespace = (\<lambda>act. case act of WatchAction ns opts \<Rightarrow> ns | _ \<Rightarrow> []),
      te_zero = ([], []),
      te_AddReactor = (\<lambda>verb resource r f. (fst f @ [r], snd f)),
      te_AddWatchReactor = (\<lambda>resource w f. (fst f, snd f @ [w])),
      te_Invokes = (\<lambda>f gvr gvk act z t. let (t', handled, obj, err) = hd (fst f) t gvr act in
         if handled then (t', obj, err) else (t', Some z, None)),
      te_InvokesWatch = (\<lambda>f gvr act t. let (t', handled, watch, err) = hd (snd f) t gvr act in
         if \<not> handled then (t', Inl (OtherError ''unhandled watch''))
         else case err of Some e \<Rightarrow> (t', Inl e)
         | None \<Rightarrow> (t', case watch of None \<Rightarrow> Inl (OtherError ''unhandled watch'') | Some x \<Rightarrow> Inr x))\<rparr>"

lemma example_puts_puts: "puts snd rs sw t (example_puts rs sw t)"
  by (simp add: puts_def example_puts_def)

lemma example_adds_swarms: "adds_swarms example_testing_library (\<lambda>s. s) snd fst example_guess"
  unfolding adds_swarms_def
proof (intro conjI allI)
  fix t :: example_tracker and sw
  show "if fst t \<noteq> {} \<and> (\<forall>r\<in>example_guess ` fst t. snd t r (fst (swarm_key sw)) (snd (swarm_key sw)) = None)
    then \<exists>t'. te_Add example_testing_library (FakeSwarm sw) t = (t', None) \<and> fst t' = fst t \<and> puts snd (example_guess ` fst t) sw t t'
    else \<exists>t' err. te_Add example_testing_library (FakeSwarm sw) t = (t', Some err)"
    (is "if ?c then _ else _")
  proof (cases ?c)
    case True
    then have "te_Add example_testing_library (FakeSwarm sw) t = (example_puts (example_guess ` fst t) sw t, None)"
      unfolding example_testing_library_def by simp
    then show ?thesis using True example_puts_puts by (simp only: if_True) (simp add: example_puts_def)
  next
    case False
    then have "te_Add example_testing_library (FakeSwarm sw) t = (t, Some (StatusError ''AlreadyExists''))"
      unfolding example_testing_library_def by simp
    then show ?thesis using False by (simp only: if_False) simp
  qed
qed (simp_all add: example_testing_library_def example_guess_def)

lemma example_reacts: "reacts example_testing_library snd"
  unfolding reacts_def
proof (intro conjI allI)
  fix t :: example_tracker and r sw
  show "\<exists>t' obj err. te_ObjectReaction example_testing_library t r (UpdateAction (fst (swarm_key sw)) sw) = (t', True, obj, err)
      \<and> (case snd t r (fst (swarm_key sw)) (snd (swarm_key sw)) of
           None \<Rightarrow> t' = t \<and> obj = None \<and> err \<noteq> None
         | Some _ \<Rightarrow> obj = Some (FakeSwarm sw) \<and> err = None \<and> puts snd {r} sw t t')"
    using example_puts_puts [of "{r}" sw t]
    by (cases "snd t r (fst (swarm_key sw)) (snd (swarm_key sw))") (simp_all add: example_testing_library_def swarm_key_def)
qed (simp add: example_testing_library_def)

lemma example_invokes: "invokes example_testing_library (OtherError ''unhandled watch'')"
  unfolding invokes_def by (simp add: example_testing_library_def)

definition named_swarm :: "string \<Rightarrow> string \<Rightarrow> swarm" where
  "named_swarm ns name = new_swarm\<lparr>sw_objectMeta := zero_objectMeta\<lparr>om_namespace := ns, om_name := name\<rparr>\<rparr>"

text \<open>A clientset with two swarms: both are found with the right group, and none with another.\<close>

theorem fake_clientset_serves_witness:
  "\<exists>s c s' c'.
     fake_scheme example_scheme_library ''k8slab.info'' = Inr s
     \<and> NewSimpleClientset example_testing_library s (map FakeSwarm [named_swarm ''swarm'' ''a'', named_swarm ''swarm'' ''b'']) = Inr c
     \<and> Fake_Get (fake_of example_testing_library example_fake c (fake_K8slabV1alpha1 c)) ''swarm'' (Tracker c) ''b'' () =
         Inr (Tracker c, Some (named_swarm ''swarm'' ''b''), None)
     \<and> fake_scheme example_scheme_library ''swarm'' = Inr s'
     \<and> NewSimpleClientset example_testing_library s' (map FakeSwarm [named_swarm ''swarm'' ''a'', named_swarm ''swarm'' ''b'']) = Inr c'
     \<and> Fake_Get (fake_of example_testing_library example_fake c' (fake_K8slabV1alpha1 c')) ''swarm'' (Tracker c') ''b'' () =
         Inr (Tracker c', None, Some (StatusError ''NotFound''))"
proof -
  let ?sws = "[named_swarm ''swarm'' ''a'', named_swarm ''swarm'' ''b'']"
  have d: "distinct (map swarm_key ?sws)" and f: "found ?sws ''swarm'' ''b'' = Some (named_swarm ''swarm'' ''b'')"
    by (simp_all add: swarm_key_def named_swarm_def found_def)
  have one: "\<exists>s c. fake_scheme example_scheme_library g = Inr s
      \<and> NewSimpleClientset example_testing_library s (map FakeSwarm ?sws) = Inr c
      \<and> Fake_Get (fake_of example_testing_library example_fake c (fake_K8slabV1alpha1 c)) ''swarm'' (Tracker c) ''b'' () =
          Inr (Tracker c, if g = ''k8slab.info'' then Some (named_swarm ''swarm'' ''b'') else None,
            if g = ''k8slab.info'' then None else Some (StatusError ''NotFound''))" for g
  proof -
    obtain s where s: "fake_scheme example_scheme_library g = Inr s" using registers [OF example_scheme_laws] by blast
    note serves = fake_clientset_serves [OF example_scheme_laws s example_adds_swarms example_reacts example_invokes,
        where sws = ?sws and labels = example_fake]
    obtain c where c: "NewSimpleClientset example_testing_library s (map FakeSwarm ?sws) = Inr c"
      using serves [THEN conjunct1] d by (cases "NewSimpleClientset example_testing_library s (map FakeSwarm ?sws)") simp_all
    show ?thesis
      using serves [THEN conjunct2, rule_format, OF c, unfolded Let_def, THEN conjunct1, rule_format, of "''swarm''" "''b''" "()"] s c
      unfolding f by (cases "g = ''k8slab.info''") auto
  qed
  show ?thesis using one [of "''k8slab.info''"] one [of "''swarm''"] by auto
qed

end
