(* ===== verification/Controller_Run.thy ===== *)
theory Controller_Run
  imports Operator Swarm_Client
begin

text \<open>
  How a controller runs: the watchers \<open>pod/watcher.go\<close> and \<open>statefulset/watcher.go\<close>, what
  \<open>NewEventProcessor\<close> and \<open>NewController\<close> hand to \<open>client-go\<close>, and \<open>Run\<close> of \<open>processor.go\<close> and
  \<open>controller.go\<close>, all under \<open>services/controller/internal/infra/k8s/operator\<close>. \<open>Run\<close> starts two
  goroutines, the informer and the queue worker, and ends when the stop channel is closed, so it
  is a step relation: the steps of the goroutine that called it, those of the worker, and what
  the library does in between.
\<close>

section \<open>Watchers\<close>

text \<open>The client of the cluster, of the library, answers with lists and watches of its own types.\<close>

record ('k, 'pl, 'sl, 'w) core_client =
  cc_listPods :: "'k \<Rightarrow> string \<Rightarrow> listOptions \<Rightarrow> 'k \<times> 'pl \<times> goerror option"
  cc_watchPods :: "'k \<Rightarrow> string \<Rightarrow> listOptions \<Rightarrow> 'k \<times> (goerror + 'w)"
  cc_listStatefulSets :: "'k \<Rightarrow> string \<Rightarrow> listOptions \<Rightarrow> 'k \<times> 'sl \<times> goerror option"
  cc_watchStatefulSets :: "'k \<Rightarrow> string \<Rightarrow> listOptions \<Rightarrow> 'k \<times> (goerror + 'w)"

record ('k, 'pl, 'sl, 'w) core_watcher =
  ca_client :: "('k, 'pl, 'sl, 'w) core_client"
  ca_namespace :: string

definition pod_NewListWatcherAdapter where
  "pod_NewListWatcherAdapter c namespace = \<lparr>ca_client = c, ca_namespace = namespace\<rparr>"

definition pod_List where
  "pod_List a k options = cc_listPods (ca_client a) k (ca_namespace a) options"

definition pod_Watch where
  "pod_Watch a k options = cc_watchPods (ca_client a) k (ca_namespace a) options"

definition sts_NewListWatcherAdapter where
  "sts_NewListWatcherAdapter c namespace = \<lparr>ca_client = c, ca_namespace = namespace\<rparr>"

definition sts_List where
  "sts_List a k options = cc_listStatefulSets (ca_client a) k (ca_namespace a) options"

definition sts_Watch where
  "sts_Watch a k options = cc_watchStatefulSets (ca_client a) k (ca_namespace a) options"

section \<open>What the constructors hand on\<close>

text \<open>
  The interfaces \<open>ListWatcher\<close>, \<open>EventHandler\<close> and \<open>ResourceHandler\<close> as records of their methods; an
  \<open>interface{}\<close> may be nil.
\<close>

record ('k, 'l, 'w) list_watcher =
  lw_List :: "'k \<Rightarrow> listOptions \<Rightarrow> 'k \<times> 'l \<times> goerror option"
  lw_Watch :: "'k \<Rightarrow> listOptions \<Rightarrow> 'k \<times> (goerror + 'w)"

record 'q event_handler =
  eh_Add :: "object option \<Rightarrow> 'q \<Rightarrow> 'q go"
  eh_Update :: "object option \<Rightarrow> object option \<Rightarrow> 'q \<Rightarrow> 'q go"
  eh_Delete :: "object option \<Rightarrow> 'q \<Rightarrow> 'q go"

record 's resource_handler =
  rh_Created :: "object \<Rightarrow> 's \<Rightarrow> 's go"
  rh_Updated :: "object \<Rightarrow> object \<Rightarrow> 's \<Rightarrow> 's go"
  rh_Deleted :: "object \<Rightarrow> 's \<Rightarrow> 's go"

text \<open>The arguments of the library's \<open>NewIndexerInformer\<close>, which makes the indexer and the informer.\<close>

record ('k, 'l, 'w, 'q) indexer_informer =
  ii_ListFunc :: "'k \<Rightarrow> listOptions \<Rightarrow> 'k \<times> 'l \<times> goerror option"
  ii_WatchFunc :: "'k \<Rightarrow> listOptions \<Rightarrow> 'k \<times> (goerror + 'w)"
  ii_object :: string
  ii_resync :: int
  ii_AddFunc :: "object option \<Rightarrow> 'q \<Rightarrow> 'q go"
  ii_UpdateFunc :: "object option \<Rightarrow> object option \<Rightarrow> 'q \<Rightarrow> 'q go"
  ii_DeleteFunc :: "object option \<Rightarrow> 'q \<Rightarrow> 'q go"

record ('k, 'l, 'w, 'q, 's) event_processor =
  ep_informer :: "('k, 'l, 'w, 'q) indexer_informer"
  ep_handler :: "'s resource_handler"

definition NewEventProcessor ::
    "string \<Rightarrow> ('k, 'l, 'w) list_watcher \<Rightarrow> 'q event_handler \<Rightarrow> 's resource_handler
     \<Rightarrow> ('k, 'l, 'w, 'q, 's) event_processor" where
  "NewEventProcessor kind w eh h =
     \<lparr>ep_informer = \<lparr>ii_ListFunc = lw_List w, ii_WatchFunc = lw_Watch w, ii_object = kind, ii_resync = 0,
        ii_AddFunc = eh_Add eh, ii_UpdateFunc = eh_Update eh, ii_DeleteFunc = eh_Delete eh\<rparr>,
      ep_handler = h\<rparr>"

record ('k, 'l, 'w, 'q, 's) controller =
  co_processor :: "('k, 'l, 'w, 'q, 's) event_processor"
  co_queue :: 'q
  co_conciliationFrequency :: int

definition defaultConciliationFrequency :: int where
  "defaultConciliationFrequency = second_ns * 5"

definition NewController ::
    "('k, 'l, 'w, 'q, 's) event_processor \<Rightarrow> 'q \<Rightarrow> ('k, 'l, 'w, 'q, 's) controller" where
  "NewController ep q =
     \<lparr>co_processor = ep, co_queue = q, co_conciliationFrequency = defaultConciliationFrequency\<rparr>"

definition controller_Handle ::
    "(string \<Rightarrow> goerror + bool) \<Rightarrow> ('k, 'l, 'w, 'q, 's) controller \<Rightarrow> event \<Rightarrow> 's \<Rightarrow> ('s \<times> goerror option) go" where
  "controller_Handle get_by_key c =
     (let h = ep_handler (co_processor c)
      in processor_Handle get_by_key (rh_Created h) (rh_Updated h) (rh_Deleted h))"

section \<open>Run\<close>

text \<open>
  Where the goroutine of \<open>Run\<close> is: before the processor's \<open>Run\<close>, waiting for the cache, waiting
  for the stop channel, returned. Where the worker is: not started, between two rounds of
  \<open>wait.Until\<close>, in the loop of \<open>runWorker\<close>, ended.
\<close>

datatype main_at = Called | Syncing | Serving | Returned

datatype worker_at = NotStarted | Idle | Running | Ended

text \<open>The places of both are ordered by time; \<open>wait.Until\<close> makes only \<open>Idle\<close> and \<open>Running\<close> alternate.\<close>

definition main_rank :: "main_at \<Rightarrow> nat" where
  "main_rank m = (case m of Called \<Rightarrow> 0 | Syncing \<Rightarrow> 1 | Serving \<Rightarrow> 2 | Returned \<Rightarrow> 3)"

instantiation main_at :: linorder
begin

definition less_eq_main_at :: "main_at \<Rightarrow> main_at \<Rightarrow> bool" where
  "less_eq_main_at a b \<longleftrightarrow> main_rank a \<le> main_rank b"

definition less_main_at :: "main_at \<Rightarrow> main_at \<Rightarrow> bool" where
  "less_main_at a b \<longleftrightarrow> main_rank a < main_rank b"

instance
proof
  fix a b :: main_at
  show "a = b" if "a \<le> b" "b \<le> a"
    using that by (cases a; cases b) (simp_all add: less_eq_main_at_def main_rank_def)
qed (auto simp: less_eq_main_at_def less_main_at_def)

end

text \<open>
  \<open>rn_synced\<close> is the informer's \<open>HasSynced\<close>, \<open>rn_stop\<close> the closed channel, \<open>rn_store\<close> the informer's
  store, which the processor's indexer reads, \<open>rn_world\<close> what the handlers change.
\<close>

record ('q, 'x, 's) run_state =
  rn_main :: main_at
  rn_worker :: worker_at
  rn_informer :: bool
  rn_synced :: bool
  rn_stop :: bool
  rn_queue :: 'q
  rn_store :: 'x
  rn_world :: 's
  rn_reported :: "goerror list"

text \<open>\<open>processor.go\<close>: before the wait for the cache, and after it, with the answer of the library.\<close>

definition processor_Run_informer :: "('q, 'x, 's) run_state \<Rightarrow> ('q, 'x, 's) run_state" where
  "processor_Run_informer st = st\<lparr>rn_informer := True, rn_main := Syncing\<rparr>"

definition processor_Run_synced :: "bool \<Rightarrow> ('q, 'x, 's) run_state \<Rightarrow> ('q, 'x, 's) run_state" where
  "processor_Run_synced synced st =
     (if \<not> synced
      then st\<lparr>rn_reported := rn_reported st @ [OtherError ''timed out waiting for caches to sync'']\<rparr>
      else st)"

text \<open>\<open>controller.go\<close>: after the processor's \<open>Run\<close>, and the deferred \<open>ShutDown\<close> when the channel is closed.\<close>

definition controller_Run_worker :: "('q, 'x, 's) run_state \<Rightarrow> ('q, 'x, 's) run_state" where
  "controller_Run_worker st = st\<lparr>rn_worker := Idle, rn_main := Serving\<rparr>"

definition controller_Run_stopped :: "('q \<Rightarrow> 'q) \<Rightarrow> ('q, 'x, 's) run_state \<Rightarrow> ('q, 'x, 's) run_state" where
  "controller_Run_stopped shut_down st = st\<lparr>rn_queue := shut_down (rn_queue st), rn_main := Returned\<rparr>"

text \<open>
  The library: the queue with \<open>ShutDown\<close> and whether \<open>Get\<close> would block, and what the informer and
  the other goroutines may do to queue, store and world at any time.
\<close>

record ('q, 'i, 'x, 's) run_library =
  rl_queue :: "('q, 'i) workqueue"
  rl_ShutDown :: "'q \<Rightarrow> 'q"
  rl_blocked :: "'q \<Rightarrow> bool"
  rl_deliver :: "'q \<Rightarrow> 'x \<Rightarrow> 's \<Rightarrow> 'q \<Rightarrow> 'x \<Rightarrow> 's \<Rightarrow> bool"

datatype actor = MainGo | WorkerGo | Environment

text \<open>
  \<open>WaitForCacheSync\<close> returns true when the cache has synced and false when the channel is closed.
  \<open>wait.Until\<close> looks at the channel before each round, and does not start one when it is closed.
\<close>

inductive run_step ::
    "('q, 'i, 'x, 's) run_library \<Rightarrow> ('i \<Rightarrow> 'e option) \<Rightarrow> ('x \<Rightarrow> 'e \<Rightarrow> 's \<Rightarrow> ('s \<times> goerror option) go)
     \<Rightarrow> actor \<Rightarrow> ('q, 'x, 's) run_state \<Rightarrow> ('q, 'x, 's) run_state \<Rightarrow> bool"
  for lib event_of handle where
  call_processor: "rn_main st = Called
    \<Longrightarrow> run_step lib event_of handle MainGo st (processor_Run_informer st)"
| cache_synced: "rn_main st = Syncing \<Longrightarrow> rn_synced st
    \<Longrightarrow> run_step lib event_of handle MainGo st (controller_Run_worker (processor_Run_synced True st))"
| cache_stopped: "rn_main st = Syncing \<Longrightarrow> rn_stop st
    \<Longrightarrow> run_step lib event_of handle MainGo st (controller_Run_worker (processor_Run_synced False st))"
| stopped: "rn_main st = Serving \<Longrightarrow> rn_stop st
    \<Longrightarrow> run_step lib event_of handle MainGo st (controller_Run_stopped (rl_ShutDown lib) st)"
| round: "rn_worker st = Idle \<Longrightarrow> \<not> rn_stop st
    \<Longrightarrow> run_step lib event_of handle WorkerGo st (st\<lparr>rn_worker := Running\<rparr>)"
| until_ends: "rn_worker st = Idle \<Longrightarrow> rn_stop st
    \<Longrightarrow> run_step lib event_of handle WorkerGo st (st\<lparr>rn_worker := Ended\<rparr>)"
| next_item: "rn_worker st = Running \<Longrightarrow> \<not> rl_blocked lib (rn_queue st)
    \<Longrightarrow> processNextItem (rl_queue lib) event_of (handle (rn_store st)) (rn_queue st, rn_world st) = Inr ((q, s), go_on)
    \<Longrightarrow> run_step lib event_of handle WorkerGo st
          (st\<lparr>rn_queue := q, rn_world := s, rn_worker := if go_on then Running else Idle\<rparr>)"
| has_synced: "rn_informer st \<Longrightarrow> run_step lib event_of handle Environment st (st\<lparr>rn_synced := True\<rparr>)"
| close_stop: "\<not> rn_stop st \<Longrightarrow> run_step lib event_of handle Environment st (st\<lparr>rn_stop := True\<rparr>)"
| deliver: "rl_deliver lib (rn_queue st) (rn_store st) (rn_world st) q x s
    \<Longrightarrow> run_step lib event_of handle Environment st (st\<lparr>rn_queue := q, rn_store := x, rn_world := s\<rparr>)"

inductive_cases main_stepE: "run_step lib event_of handle MainGo st st'"
inductive_cases worker_stepE: "run_step lib event_of handle WorkerGo st st'"

text \<open>A run is the sequence of its actors.\<close>

inductive controller_run ::
    "('q, 'i, 'x, 's) run_library \<Rightarrow> ('i \<Rightarrow> 'e option) \<Rightarrow> ('x \<Rightarrow> 'e \<Rightarrow> 's \<Rightarrow> ('s \<times> goerror option) go)
     \<Rightarrow> ('q, 'x, 's) run_state \<Rightarrow> actor list \<Rightarrow> ('q, 'x, 's) run_state \<Rightarrow> bool"
  for lib event_of handle st where
  run_starts: "controller_run lib event_of handle st [] st"
| run_goes_on: "controller_run lib event_of handle st as st1 \<Longrightarrow> run_step lib event_of handle a st1 st2
    \<Longrightarrow> controller_run lib event_of handle st (as @ [a]) st2"

definition run_start :: "('k, 'l, 'w, 'q, 's) controller \<Rightarrow> 'x \<Rightarrow> 's \<Rightarrow> ('q, 'x, 's) run_state" where
  "run_start c x s =
     \<lparr>rn_main = Called, rn_worker = NotStarted, rn_informer = False, rn_synced = False, rn_stop = False,
      rn_queue = co_queue c, rn_store = x, rn_world = s, rn_reported = []\<rparr>"

section \<open>Order and shutdown\<close>

definition run_inv :: "('q, 'x, 's) run_state \<Rightarrow> bool" where
  "run_inv st \<longleftrightarrow>
     (rn_main st = Called \<longrightarrow> \<not> rn_informer st) \<and> (rn_main st \<noteq> Called \<longrightarrow> rn_informer st)
     \<and> (rn_synced st \<longrightarrow> rn_informer st)
     \<and> (rn_worker st = NotStarted \<longleftrightarrow> rn_main st = Called \<or> rn_main st = Syncing)
     \<and> (rn_worker st \<noteq> NotStarted \<longrightarrow> rn_synced st \<or> rn_stop st)
     \<and> (rn_worker st = Running \<longrightarrow> rn_synced st)
     \<and> (rn_worker st = Ended \<or> rn_main st = Returned \<longrightarrow> rn_stop st)
     \<and> (rn_reported st = [] \<or> rn_reported st = [OtherError ''timed out waiting for caches to sync'']
          \<and> rn_stop st \<and> rn_worker st \<noteq> NotStarted)"

lemmas run_defs = processor_Run_informer_def processor_Run_synced_def controller_Run_worker_def
  controller_Run_stopped_def

lemma run_inv_start: "run_inv (run_start c x s)"
  by (simp add: run_inv_def run_start_def)

lemma run_inv_step: "run_step lib event_of handle a st st' \<Longrightarrow> run_inv st \<Longrightarrow> run_inv st'"
  by (induction rule: run_step.induct) (simp_all add: run_inv_def run_defs, auto)

lemma run_inv_run: "controller_run lib event_of handle st as st' \<Longrightarrow> run_inv st \<Longrightarrow> run_inv st'"
  by (induction rule: controller_run.induct) (auto intro: run_inv_step)

lemma stop_step: "run_step lib event_of handle a st st' \<Longrightarrow> rn_stop st \<Longrightarrow> rn_stop st'"
  by (induction rule: run_step.induct) (simp_all add: run_defs)

text \<open>The goroutine that called \<open>Run\<close> only moves on.\<close>

lemma main_advances: "run_step lib event_of handle a st st' \<Longrightarrow> rn_main st \<le> rn_main st'"
  by (induction rule: run_step.induct) (simp_all add: run_defs less_eq_main_at_def main_rank_def)

lemma main_advances_run: "controller_run lib event_of handle st as st' \<Longrightarrow> rn_main st \<le> rn_main st'"
  by (induction rule: controller_run.induct) (auto dest: main_advances intro: order_trans)

text \<open>The steps of the goroutine that called \<open>Run\<close> that are left.\<close>

definition main_left :: "('q, 'x, 's) run_state \<Rightarrow> nat" where
  "main_left st = (case rn_main st of Called \<Rightarrow> 3 | Syncing \<Rightarrow> 2 | Serving \<Rightarrow> 1 | Returned \<Rightarrow> 0)"

lemma main_left_step:
  "run_step lib event_of handle a st st'
   \<Longrightarrow> main_left st = main_left st' + (if a = MainGo then 1 else 0)"
  by (induction rule: run_step.induct) (simp_all add: main_left_def run_defs)

lemma main_left_run:
  "controller_run lib event_of handle st as st' \<Longrightarrow> main_left st = main_left st' + count_list as MainGo"
  by (induction rule: controller_run.induct) (auto dest: main_left_step)

lemma main_step_possible:
  assumes "rn_stop st" and "rn_main st \<noteq> Returned"
  shows "\<exists>st'. run_step lib event_of handle MainGo st st'"
  using assms by (cases "rn_main st") (blast intro: call_processor cache_stopped stopped)+

text \<open>
  What the queue's documentation says of a shutdown: new items are ignored, and the workers are
  told to end when the existing items are drained. \<open>down\<close> tells of a queue that it was shut down
  and \<open>waiting\<close> counts the items left in it.
\<close>

definition shutdown_laws :: "('q, 'i, 'x, 's) run_library \<Rightarrow> ('q \<Rightarrow> bool) \<Rightarrow> ('q \<Rightarrow> nat) \<Rightarrow> bool" where
  "shutdown_laws lib down waiting \<longleftrightarrow>
     (\<forall>q. down (rl_ShutDown lib q))
     \<and> (\<forall>q. down q \<longrightarrow> \<not> rl_blocked lib q
          \<and> down (fst (wq_Get (rl_queue lib) q))
          \<and> waiting (fst (wq_Get (rl_queue lib) q)) + (if snd (wq_Get (rl_queue lib) q) = None then 0 else 1) \<le> waiting q)
     \<and> (\<forall>q i. down q \<longrightarrow>
          (\<forall>f \<in> {wq_Done (rl_queue lib), wq_Forget (rl_queue lib), wq_AddRateLimited (rl_queue lib)}.
             down (f q i) \<and> waiting (f q i) \<le> waiting q))
     \<and> (\<forall>q x s q' x' s'. rl_deliver lib q x s q' x' s' \<longrightarrow> down q \<longrightarrow> down q' \<and> waiting q' \<le> waiting q)"

lemma shutdown_lawsD:
  assumes "shutdown_laws lib down waiting" and "down q"
  shows "\<not> rl_blocked lib q"
    and "wq_Get (rl_queue lib) q = (q1, item) \<Longrightarrow> down q1 \<and> waiting q1 + (if item = None then 0 else 1) \<le> waiting q"
    and "down (wq_Done (rl_queue lib) q i) \<and> waiting (wq_Done (rl_queue lib) q i) \<le> waiting q"
    and "down (wq_Forget (rl_queue lib) q i) \<and> waiting (wq_Forget (rl_queue lib) q i) \<le> waiting q"
    and "down (wq_AddRateLimited (rl_queue lib) q i) \<and> waiting (wq_AddRateLimited (rl_queue lib) q i) \<le> waiting q"
    and "rl_deliver lib q x s q' x' s' \<Longrightarrow> down q' \<and> waiting q' \<le> waiting q"
  using assms unfolding shutdown_laws_def by (fastforce split: if_splits)+

lemma next_item_down:
  assumes "shutdown_laws lib down waiting" and "down q"
    and "processNextItem (rl_queue lib) event_of handle (q, s) = Inr ((q', s'), go_on)"
  shows "down q' \<and> waiting q' + (if go_on then 1 else 0) \<le> waiting q"
proof -
  note laws = shutdown_lawsD [OF assms(1)]
  obtain q1 item where get: "wq_Get (rl_queue lib) q = (q1, item)" by (cases "wq_Get (rl_queue lib) q")
  note q1 = laws(2) [OF assms(2) get]
  have handled: "down (handleError (rl_queue lib) q1 i err) \<and> waiting (handleError (rl_queue lib) q1 i err) \<le> waiting q1"
    for i err using q1 laws(4,5) by (simp add: handleError_def)
  have finished: "down (wq_Done (rl_queue lib) q2 i) \<and> waiting (wq_Done (rl_queue lib) q2 i) + 1 \<le> waiting q"
    if "item = Some i" and "down q2 \<and> waiting q2 \<le> waiting q1" for q2 i
    using that q1 laws(3) [of q2 i] by auto
  show ?thesis
  proof (cases item)
    case None
    then show ?thesis using assms(3) get q1 by (simp add: processNextItem_def)
  next
    case (Some i)
    then show ?thesis
      using assms(3) get q1 handled laws(4) [of q1 i] finished [of i]
      by (auto simp: processNextItem_def go_bind_Inr_iff split: option.splits)
  qed
qed

lemma next_item_total:
  assumes "\<forall>i e. event_of i = Some e \<longrightarrow> (\<exists>r. handle e s = Inr r)"
  shows "\<exists>q' s' go_on. processNextItem wq event_of handle (q, s) = Inr ((q', s'), go_on)"
proof -
  obtain q1 item where get: "wq_Get wq q = (q1, item)" by (cases "wq_Get wq q")
  show ?thesis
  proof (cases "item = None \<or> event_of (the item) = None")
    case True
    then show ?thesis using get by (auto simp: processNextItem_def split: option.split)
  next
    case False
    then obtain i e where i: "item = Some i" "event_of i = Some e" by auto
    obtain s' err where "handle e s = Inr (s', err)" using assms i(2) by fastforce
    then show ?thesis using get i by (cases err) (auto simp: processNextItem_def)
  qed
qed

text \<open>The steps of the worker that are left, at most, once the queue was shut down.\<close>

definition worker_left :: "('q \<Rightarrow> nat) \<Rightarrow> ('q, 'x, 's) run_state \<Rightarrow> nat" where
  "worker_left waiting st =
     (case rn_worker st of Running \<Rightarrow> waiting (rn_queue st) + 2 | Idle \<Rightarrow> 1 | _ \<Rightarrow> 0)"

definition shut_state :: "('q \<Rightarrow> bool) \<Rightarrow> ('q, 'x, 's) run_state \<Rightarrow> bool" where
  "shut_state down st \<longleftrightarrow> run_inv st \<and> rn_main st = Returned \<and> down (rn_queue st)"

lemma shut_step:
  assumes "shutdown_laws lib down waiting" and "run_step lib event_of handle a st st'" and "shut_state down st"
  shows "shut_state down st' \<and> worker_left waiting st' + (if a = WorkerGo then 1 else 0) \<le> worker_left waiting st"
proof -
  have inv: "run_inv st'" using assms(2,3) run_inv_step by (auto simp: shut_state_def)
  have st: "rn_main st = Returned" "down (rn_queue st)" "rn_stop st"
    using assms(3) by (simp_all add: shut_state_def run_inv_def)
  show ?thesis
    using assms(2)
  proof cases
    case (next_item q s go_on)
    have "down q \<and> waiting q + (if go_on then 1 else 0) \<le> waiting (rn_queue st)"
      by (rule next_item_down [OF assms(1) st(2) next_item(5)])
    then show ?thesis using inv st next_item by (auto simp: shut_state_def worker_left_def)
  next
    case (deliver q x s)
    have "down q \<and> waiting q \<le> waiting (rn_queue st)"
      by (rule shutdown_lawsD(6) [OF assms(1) st(2) deliver(3)])
    then show ?thesis
      using inv st deliver by (auto simp: shut_state_def worker_left_def split: worker_at.split)
  qed (use inv st in \<open>auto simp: shut_state_def worker_left_def run_defs split: worker_at.split\<close>)
qed

lemma shut_run:
  assumes "shutdown_laws lib down waiting" and "controller_run lib event_of handle st as st'"
    and "shut_state down st"
  shows "shut_state down st' \<and> worker_left waiting st' + count_list as WorkerGo \<le> worker_left waiting st"
  using assms(2)
proof (induction rule: controller_run.induct)
  case run_starts
  then show ?case using assms(3) by simp
next
  case (run_goes_on as st1 a st2)
  then show ?case using shut_step [OF assms(1) run_goes_on.hyps(2)] by auto
qed

lemma shut_worker_step_possible:
  assumes "shutdown_laws lib down waiting" and "shut_state down st" and "rn_worker st \<noteq> Ended"
    and "\<forall>i e x s. event_of i = Some e \<longrightarrow> (\<exists>r. handle x e s = Inr r)"
  shows "\<exists>st'. run_step lib event_of handle WorkerGo st st'"
proof -
  have st: "rn_main st = Returned" "down (rn_queue st)" "rn_stop st" "rn_worker st \<noteq> NotStarted"
    using assms(2) by (simp_all add: shut_state_def run_inv_def)
  show ?thesis
  proof (cases "rn_worker st = Idle")
    case True
    then show ?thesis using until_ends st(3) by blast
  next
    case False
    then have w: "rn_worker st = Running" using assms(3) st(4) by (cases "rn_worker st") simp_all
    have "\<forall>i e. event_of i = Some e \<longrightarrow> (\<exists>r. handle (rn_store st) e (rn_world st) = Inr r)"
      using assms(4) by blast
    from next_item_total [of event_of "handle (rn_store st)" "rn_world st" "rl_queue lib" "rn_queue st", OF this]
    obtain q' s' go_on where n: "processNextItem (rl_queue lib) event_of (handle (rn_store st))
        (rn_queue st, rn_world st) = Inr ((q', s'), go_on)" by blast
    show ?thesis
      by (intro exI, rule next_item [where handle = handle]) (rule w, rule shutdown_lawsD(1) [OF assms(1) st(2)], rule n)
  qed
qed

lemma returned_queue_down:
  assumes "shutdown_laws lib down waiting" and "controller_run lib event_of handle (run_start c x s) as st"
  shows "rn_main st = Returned \<longrightarrow> down (rn_queue st)"
  using assms(2)
proof (induction rule: controller_run.induct)
  case run_starts
  then show ?case by (simp add: run_start_def)
next
  case (run_goes_on as st1 a st2)
  show ?case
  proof (cases "rn_main st1 = Returned")
    case True
    then have "shut_state down st1"
      using run_goes_on.IH run_inv_run [OF run_goes_on.hyps(1) run_inv_start] by (simp add: shut_state_def)
    then show ?thesis using shut_step [OF assms(1) run_goes_on.hyps(2)] by (simp add: shut_state_def)
  next
    case False
    from run_goes_on.hyps(2) show ?thesis
      using False assms(1) by cases (simp_all add: run_defs shutdown_laws_def)
  qed
qed

section \<open>Properties\<close>

text \<open>
  C22 No event is handled before the informer has filled its store: in every run of a controller,
  whatever the informer, the queue and the other goroutines do and whenever the stop channel is
  closed, the worker is in its loop only when the cache has synced, and a step of it that takes
  an item or changes the world is possible only then; if the channel is closed before, the
  timeout is reported once and the worker ends without having handled anything. \<open>Run\<close> itself only
  moves on, through the stages in their order.
\<close>

theorem no_event_before_sync:
  assumes "controller_run lib event_of handle (run_start c x s) as st"
  shows "(rn_worker st = Running \<longrightarrow> rn_informer st \<and> rn_synced st)
    \<and> (\<forall>st'. run_step lib event_of handle WorkerGo st st'
          \<longrightarrow> (rn_queue st', rn_world st') \<noteq> (rn_queue st, rn_world st) \<longrightarrow> rn_synced st)
    \<and> (if rn_synced st then True else rn_worker st = NotStarted \<or> rn_worker st = Idle \<or> rn_worker st = Ended)
    \<and> (rn_reported st = [] \<or> rn_reported st = [OtherError ''timed out waiting for caches to sync''] \<and> rn_stop st)
    \<and> (if rn_worker st = Ended \<or> rn_main st = Returned then rn_stop st else True)
    \<and> (\<forall>as' st'. controller_run lib event_of handle st as' st' \<longrightarrow> rn_main st \<le> rn_main st')"
proof -
  have inv: "run_inv st" by (rule run_inv_run [OF assms run_inv_start])
  have "rn_synced st"
    if "run_step lib event_of handle WorkerGo st st'" "(rn_queue st', rn_world st') \<noteq> (rn_queue st, rn_world st)" for st'
    using that(1) by (rule worker_stepE) (use inv that(2) in \<open>simp_all add: run_inv_def\<close>)
  moreover have "\<forall>as' st'. controller_run lib event_of handle st as' st' \<longrightarrow> rn_main st \<le> rn_main st'"
    using main_advances_run by blast
  ultimately show ?thesis using inv by (cases "rn_worker st") (auto simp: run_inv_def)
qed

text \<open>
  C23 The controller of the pods comes to an end: once the stop channel is closed, \<open>Run\<close> can always
  go on until it has returned, after at most three steps of its own; from then on the worker can
  always go on until it has ended, after at most two steps more than there are items left in the
  queue, none of which panics. In between informer and other goroutines may do anything, as
  often as they like.
\<close>

theorem pod_controller_stops:
  assumes "controller_run lib event_of (\<lambda>x. pod_handle (get_by_key x) parse_ip) (run_start c x s) as st"
    and "shutdown_laws lib down waiting" and "rn_stop st"
    and "\<forall>i e. event_of i = Some e \<longrightarrow> event_kind is_pod e"
  shows "(rn_main st \<noteq> Returned \<longrightarrow>
        (\<exists>st'. run_step lib event_of (\<lambda>x. pod_handle (get_by_key x) parse_ip) MainGo st st'))
    \<and> (\<forall>as' st'. controller_run lib event_of (\<lambda>x. pod_handle (get_by_key x) parse_ip) st as' st'
        \<longrightarrow> count_list as' MainGo \<le> 3)
    \<and> (rn_main st = Returned \<longrightarrow>
        (rn_worker st = Ended \<or> (\<exists>st'. run_step lib event_of (\<lambda>x. pod_handle (get_by_key x) parse_ip) WorkerGo st st'))
        \<and> (\<forall>as' st'. controller_run lib event_of (\<lambda>x. pod_handle (get_by_key x) parse_ip) st as' st'
            \<longrightarrow> count_list as' WorkerGo \<le> waiting (rn_queue st) + 2))"
proof -
  let ?h = "\<lambda>x. pod_handle (get_by_key x) parse_ip"
  have total: "\<forall>i e x s. event_of i = Some e \<longrightarrow> (\<exists>r. ?h x e s = Inr r)"
    using pod_handle_total assms(4) by blast
  have three: "count_list as' MainGo \<le> 3" if "controller_run lib event_of ?h st as' st'" for as' st'
    using main_left_run [OF that] by (cases "rn_main st") (simp_all add: main_left_def)
  have shut: "shut_state down st" if "rn_main st = Returned"
    using that returned_queue_down [OF assms(2,1)] run_inv_run [OF assms(1) run_inv_start]
    by (simp add: shut_state_def)
  have worker: "count_list as' WorkerGo \<le> waiting (rn_queue st) + 2"
    if "rn_main st = Returned" "controller_run lib event_of ?h st as' st'" for as' st'
    using shut_run [OF assms(2) that(2) shut [OF that(1)]]
    by (cases "rn_worker st") (simp_all add: worker_left_def)
  have "\<exists>st'. run_step lib event_of ?h MainGo st st'" if "rn_main st \<noteq> Returned"
    by (rule main_step_possible [OF assms(3) that])
  moreover have "rn_worker st = Ended \<or> (\<exists>st'. run_step lib event_of ?h WorkerGo st st')"
    if "rn_main st = Returned"
    using shut_worker_step_possible [OF assms(2) shut [OF that] _ total] by blast
  ultimately show ?thesis using three worker by blast
qed

text \<open>A queue that can be shut down, and a controller over it, for the examples.\<close>

definition example_library :: "(nat list \<times> bool, nat, unit, 's) run_library" where
  "example_library =
     \<lparr>rl_queue =
        \<lparr>wq_Get = (\<lambda>(xs, d). case xs of [] \<Rightarrow> (([], d), None) | x # ys \<Rightarrow> ((ys, d), Some x)),
         wq_Done = (\<lambda>q i. q), wq_Forget = (\<lambda>q i. q), wq_NumRequeues = (\<lambda>q i. 0),
         wq_AddRateLimited = (\<lambda>(xs, d) i. (if d then xs else xs @ [i], d))\<rparr>,
      rl_ShutDown = (\<lambda>(xs, d). (xs, True)), rl_blocked = (\<lambda>(xs, d). xs = [] \<and> \<not> d),
      rl_deliver = (\<lambda>(xs, d) x s q x' s'. q = (if d then xs else xs @ [7], d) \<and> x' = x \<and> s' = s)\<rparr>"

definition example_controller :: "(unit, unit, unit, nat list \<times> bool, 's) controller" where
  "example_controller =
     NewController
       (NewEventProcessor ''Pod'' \<lparr>lw_List = (\<lambda>k opts. (k, (), None)), lw_Watch = (\<lambda>k opts. (k, Inr ()))\<rparr>
          \<lparr>eh_Add = (\<lambda>obj q. Inr q), eh_Update = (\<lambda>old new q. Inr q), eh_Delete = (\<lambda>obj q. Inr q)\<rparr>
          \<lparr>rh_Created = (\<lambda>obj. Inr), rh_Updated = (\<lambda>new old. Inr), rh_Deleted = (\<lambda>obj. Inr)\<rparr>)
       ([], False)"

lemma example_library_laws: "shutdown_laws example_library snd (\<lambda>q. length (fst q))"
  by (auto simp: shutdown_laws_def example_library_def split: list.splits)

lemma example_start: "rn_main (run_start example_controller () s) = Called"
  by (simp add: run_start_def)

theorem no_event_before_sync_witness:
  "\<exists>st. controller_run example_library Some (\<lambda>x e s. Inr (s, None)) (run_start example_controller () (0 :: nat))
      [MainGo, Environment, MainGo, WorkerGo] st \<and> rn_worker st = Running \<and> rn_synced st"
proof -
  let ?run = "controller_run example_library Some (\<lambda>x e s. Inr (s, None)) (run_start example_controller () (0 :: nat))"
  define st1 where "st1 = processor_Run_informer (run_start example_controller () (0 :: nat))"
  define st2 where "st2 = st1\<lparr>rn_synced := True\<rparr>"
  define st3 where "st3 = controller_Run_worker (processor_Run_synced True st2)"
  have at: "rn_informer st1" "rn_main st2 = Syncing" "rn_synced st2" "rn_worker st3 = Idle" "\<not> rn_stop st3"
    by (simp_all add: st1_def st2_def st3_def run_defs run_start_def)
  have "?run ([] @ [MainGo]) st1"
    unfolding st1_def by (rule run_goes_on [OF run_starts call_processor [OF example_start]])
  from run_goes_on [OF this has_synced [OF at(1)]] have "?run (([] @ [MainGo]) @ [Environment]) st2"
    by (simp add: st2_def)
  from run_goes_on [OF this cache_synced [OF at(2,3)]]
  have "?run ((([] @ [MainGo]) @ [Environment]) @ [MainGo]) st3" by (simp add: st3_def)
  from run_goes_on [OF this round [OF at(4,5)]]
  have r: "?run [MainGo, Environment, MainGo, WorkerGo] (st3\<lparr>rn_worker := Running\<rparr>)" by simp
  have "rn_synced (st3\<lparr>rn_worker := Running\<rparr>)" using no_event_before_sync [OF r] by simp
  then show ?thesis using r by (intro exI [of _ "st3\<lparr>rn_worker := Running\<rparr>"]) simp
qed

theorem pod_controller_stops_witness:
  "\<exists>st st'. controller_run example_library (\<lambda>i. Some (Event ''swarm/w-1'' (PodObj (sample_pod ''w-1''))))
      (\<lambda>x. pod_handle (\<lambda>key. Inr True) (\<lambda>s. ())) (run_start example_controller () example_pool)
      [MainGo, Environment, MainGo, MainGo] st
    \<and> rn_main st = Returned
    \<and> run_step example_library (\<lambda>i. Some (Event ''swarm/w-1'' (PodObj (sample_pod ''w-1''))))
        (\<lambda>x. pod_handle (\<lambda>key. Inr True) (\<lambda>s. ())) WorkerGo st st'"
proof -
  let ?ev = "\<lambda>i :: nat. Some (Event ''swarm/w-1'' (PodObj (sample_pod ''w-1'')))"
  let ?h = "\<lambda>x :: unit. pod_handle (\<lambda>key. Inr True) (\<lambda>s. ())"
  let ?run = "controller_run example_library ?ev ?h (run_start example_controller () example_pool)"
  define st1 where "st1 = processor_Run_informer (run_start (example_controller :: (unit, unit, unit, nat list \<times> bool, _) controller) () example_pool)"
  define st2 where "st2 = st1\<lparr>rn_stop := True\<rparr>"
  define st3 where "st3 = controller_Run_worker (processor_Run_synced False st2)"
  define st4 where "st4 = controller_Run_stopped (rl_ShutDown (example_library :: (_, _, unit, (assignment_state, unit) pool) run_library)) st3"
  have at: "\<not> rn_stop st1" "rn_main st2 = Syncing" "rn_stop st2" "rn_main st3 = Serving" "rn_stop st3"
    "rn_stop st4" "rn_main st4 = Returned" "rn_worker st4 \<noteq> Ended"
    by (simp_all add: st1_def st2_def st3_def st4_def run_defs run_start_def)
  have "?run ([] @ [MainGo]) st1"
    unfolding st1_def by (rule run_goes_on [OF run_starts call_processor [OF example_start]])
  from run_goes_on [OF this close_stop [OF at(1)]] have "?run (([] @ [MainGo]) @ [Environment]) st2"
    by (simp add: st2_def)
  from run_goes_on [OF this cache_stopped [OF at(2,3)]]
  have "?run ((([] @ [MainGo]) @ [Environment]) @ [MainGo]) st3" by (simp add: st3_def)
  from run_goes_on [OF this stopped [OF at(4,5)]]
  have r: "?run [MainGo, Environment, MainGo, MainGo] st4" by (simp add: st4_def)
  have pods: "\<forall>i e. ?ev i = Some e \<longrightarrow> event_kind is_pod e" by (simp add: event_kind_def is_pod_def)
  note stops = pod_controller_stops [OF r example_library_laws at(6) pods]
  from stops [THEN conjunct2, THEN conjunct2] at(7,8) obtain st' where "run_step example_library ?ev ?h WorkerGo st4 st'"
    by blast
  then show ?thesis using r at(7) by blast
qed

end
