(* ===== verification/Wiring.thy ===== *)
theory Wiring
  imports Controller_Run Runtime_Config
begin

text \<open>
  The two commands of the controller, \<open>services/controller/cmd/internal.go\<close> and \<open>external.go\<close>: which
  providers, pool, handlers and queues they build from the settings and how they put them together.
  The functions of \<open>client-go\<close> that they hand on are a record. The clients come from
  \<open>k8s/client.go\<close>; the HTTP server and the signals are left out.
\<close>

section \<open>Constructors\<close>

record 'q client_go =
  cg_Accessor :: "object \<Rightarrow> goerror + objectMeta"
  cg_MetaKey :: "object \<Rightarrow> goerror + string"
  cg_DeletionKey :: "object \<Rightarrow> goerror + string"
  cg_Add :: "'q \<Rightarrow> event \<Rightarrow> 'q"
  cg_NewQueue :: 'q

text \<open>A selector is its \<open>Validate\<close>. The queue of an event handler is passed to its methods.\<close>

definition NewSelector :: "'q client_go \<Rightarrow> string \<Rightarrow> object \<Rightarrow> goerror option" where
  "NewSelector lib watchedLabel = selector_Validate (cg_Accessor lib) watchedLabel"

definition NewNopValidator :: "object \<Rightarrow> goerror option" where
  "NewNopValidator = nop_Validate"

definition NewResourceEventHandler :: "'q client_go \<Rightarrow> (object \<Rightarrow> goerror option) \<Rightarrow> 'q event_handler" where
  "NewResourceEventHandler lib f =
     \<lparr>eh_Add = handler_Add f (cg_MetaKey lib) (cg_Add lib),
      eh_Update = handler_Update f (cg_MetaKey lib) (cg_Add lib),
      eh_Delete = handler_Delete f (cg_DeletionKey lib) (cg_Add lib)\<rparr>"

definition pod_NewHandler :: "(string \<Rightarrow> 'ip) \<Rightarrow> ('s, 'ip) pool resource_handler" where
  "pod_NewHandler parse_ip =
     \<lparr>rh_Created = pod_Created AddWorkerIfNotExists parse_ip,
      rh_Updated = pod_Updated AddWorkerIfNotExists RemoveWorkerByName parse_ip,
      rh_Deleted = pod_Deleted RemoveWorkerByName\<rparr>"

definition sts_NewHandler ::
    "('d \<Rightarrow> workloads \<Rightarrow> ('d \<times> goerror option) go) \<Rightarrow> string range_order
     \<Rightarrow> ((assignment_state, 'ip) pool \<times> 'd) resource_handler" where
  "sts_NewHandler assign ro =
     (let resize = UpdateExpectedSize BalanceWorkload Workloads assign ro
      in \<lparr>rh_Created = sts_Created resize, rh_Updated = sts_Updated resize, rh_Deleted = sts_Deleted resize\<rparr>)"

definition crd_NewHandler ::
    "(swarm \<Rightarrow> string) \<Rightarrow> (swarm \<Rightarrow> swarm \<Rightarrow> string) \<Rightarrow> (char \<Rightarrow> bool) \<Rightarrow> string list resource_handler" where
  "crd_NewHandler show_swarm diff is_graphic =
     \<lparr>rh_Created = crd_Created show_swarm, rh_Updated = crd_Updated diff is_graphic,
      rh_Deleted = crd_Deleted show_swarm\<rparr>"

section \<open>The commands\<close>

text \<open>
  Providers, middleware and executor, from the settings; both commands build the same. The version
  provider serves \<open>Assignation\<close> of the executor only, which the pool does not call.
\<close>

definition command_wiring ::
    "(setting \<Rightarrow> string) \<Rightarrow> 'k kube \<Rightarrow> 'k versioned \<Rightarrow> (workloads \<Rightarrow> goerror + string) \<Rightarrow> (nat \<Rightarrow> int)
     \<Rightarrow> string range_order \<Rightarrow> 'k wiring" where
  "command_wiring v cl swcl encode now order =
     \<lparr>wi_kube = cl, wi_versioned = swcl, wi_encode = encode, wi_now = now, wi_order = order,
      wi_cm = cm_NewProvider (v setting.Namespace) (v WorkersConfigMapName) (v WatchLabel),
      wi_swarm = swarm_NewProvider (v setting.Namespace) (v WatchLabel),
      wi_pod = pod_NewProvider (v setting.Namespace)\<rparr>"

text \<open>
  The executor that both commands hand to the pool. What the pool calls of it are \<open>controller_assign\<close>
  and \<open>controller_restart\<close> over the providers of \<open>command_wiring\<close>.
\<close>

definition command_executor where
  "command_executor v cl swcl encode now order url_text new_request do_request decode show_ip =
     (let cm = cm_NewProvider (v setting.Namespace) (v WorkersConfigMapName) (v WatchLabel);
          vst = NewVersionProvider (v HttpPort);
          pdl = pod_NewProvider (v setting.Namespace);
          swl = swarm_NewProvider (v setting.Namespace) (v WatchLabel);
          mex = NewProviderMiddleware (cm_Set cl encode cm) (swarm_Set swcl now order swl)
      in NewExecutor (ProviderMiddleware_Set (pm_prev mex) (pm_next mex))
           (VersionProvider_Assignation url_text new_request do_request decode show_ip (vp_remotePort vst))
           (RefreshPod cl pdl))"

lemma command_executor_calls:
  assumes "ex = command_executor v cl swcl encode now order url_text new_request do_request decode show_ip"
    and "c = command_wiring v cl swcl encode now order"
  shows "executor_Assign (ex_storage ex) = controller_assign c" "executor_RestartWorker (ex_manager ex) = controller_restart c"
  using assms
  by (simp_all add: command_executor_def NewExecutor_def NewProviderMiddleware_def controller_assign_def
      controller_restart_def command_wiring_def Let_def)

text \<open>The label is the name that the state is made with.\<close>

definition command_pool :: "(setting \<Rightarrow> string) \<Rightarrow> workload \<Rightarrow> (assignment_state, 'ip) pool" where
  "command_pool v config = NewWorkerPool (NewState (wl_jobs config) (v WatchLabel))"

text \<open>\<open>external.go\<close> has the same lines in another order, over its own clients.\<close>

definition external_wiring ::
    "(setting \<Rightarrow> string) \<Rightarrow> 'k kube \<Rightarrow> 'k versioned \<Rightarrow> (workloads \<Rightarrow> goerror + string) \<Rightarrow> (nat \<Rightarrow> int)
     \<Rightarrow> string range_order \<Rightarrow> 'k wiring" where
  "external_wiring v cl swcl encode now order =
     (let cm = cm_NewProvider (v setting.Namespace) (v WorkersConfigMapName) (v WatchLabel);
          pdl = pod_NewProvider (v setting.Namespace);
          swl = swarm_NewProvider (v setting.Namespace) (v WatchLabel)
      in \<lparr>wi_kube = cl, wi_versioned = swcl, wi_encode = encode, wi_now = now, wi_order = order,
          wi_cm = cm, wi_swarm = swl, wi_pod = pdl\<rparr>)"

definition external_pool :: "(setting \<Rightarrow> string) \<Rightarrow> workload \<Rightarrow> (assignment_state, 'ip) pool" where
  "external_pool v config =
     (let st = NewState (wl_jobs config) (v WatchLabel) in NewWorkerPool st)"

lemma external_wiring_same: "external_wiring = command_wiring" "external_pool = command_pool"
  by (simp_all add: fun_eq_iff external_wiring_def command_wiring_def external_pool_def command_pool_def)

text \<open>
  The controllers of pods and stateful sets of \<open>internal.go\<close>, each with a selector of its own; both
  act on the one pool.
\<close>

definition internal_controllers where
  "internal_controllers v cl lib parse_ip assign ro =
     (let podLwa = pod_NewListWatcherAdapter cl (v setting.Namespace);
          podH = (pod_NewHandler parse_ip :: (assignment_state, 'ip) pool resource_handler);
          podSelector = NewSelector lib (v WatchLabel);
          podEventQueue = cg_NewQueue lib;
          podEventHandler = NewResourceEventHandler lib podSelector;
          podEvp = NewEventProcessor ''Pod'' \<lparr>lw_List = pod_List podLwa, lw_Watch = pod_Watch podLwa\<rparr>
            podEventHandler podH;
          podCtl = NewController podEvp podEventQueue;
          stsLwa = sts_NewListWatcherAdapter cl (v setting.Namespace);
          stsH = (sts_NewHandler assign ro :: ((assignment_state, 'ip) pool \<times> 'd) resource_handler);
          stsSelector = NewSelector lib (v WatchLabel);
          stsEventQueue = cg_NewQueue lib;
          stsEventHandler = NewResourceEventHandler lib stsSelector;
          stsEvp = NewEventProcessor ''StatefulSet'' \<lparr>lw_List = sts_List stsLwa, lw_Watch = sts_Watch stsLwa\<rparr>
            stsEventHandler stsH;
          stsCtl = NewController stsEvp stsEventQueue
      in (podCtl, stsCtl))"

text \<open>Those of \<open>external.go\<close>, with one selector, and a third controller for the swarms.\<close>

definition external_controllers where
  "external_controllers v cl swcl lib parse_ip assign ro show_swarm diff is_graphic =
     (let selector = NewSelector lib (v WatchLabel);
          podLwa = pod_NewListWatcherAdapter cl (v setting.Namespace);
          podH = (pod_NewHandler parse_ip :: (assignment_state, 'ip) pool resource_handler);
          podEventQueue = cg_NewQueue lib;
          podEventHandler = NewResourceEventHandler lib selector;
          podEvp = NewEventProcessor ''Pod'' \<lparr>lw_List = pod_List podLwa, lw_Watch = pod_Watch podLwa\<rparr>
            podEventHandler podH;
          podCtl = NewController podEvp podEventQueue;
          stsLwa = sts_NewListWatcherAdapter cl (v setting.Namespace);
          stsH = (sts_NewHandler assign ro :: ((assignment_state, 'ip) pool \<times> 'd) resource_handler);
          stsEventQueue = cg_NewQueue lib;
          stsEventHandler = NewResourceEventHandler lib selector;
          stsEvp = NewEventProcessor ''StatefulSet'' \<lparr>lw_List = sts_List stsLwa, lw_Watch = sts_Watch stsLwa\<rparr>
            stsEventHandler stsH;
          stsCtl = NewController stsEvp stsEventQueue;
          nopSel = NewNopValidator;
          swarmLwa = crd_NewListWatcherAdapter swcl (v setting.Namespace);
          swarmH = crd_NewHandler show_swarm diff is_graphic;
          swarmEventQueue = cg_NewQueue lib;
          swarmEventHandler = NewResourceEventHandler lib nopSel;
          swarmEvp = NewEventProcessor ''Swarm'' \<lparr>lw_List = crd_List swarmLwa, lw_Watch = crd_Watch swarmLwa\<rparr>
            swarmEventHandler swarmH;
          swarmCtl = NewController swarmEvp swarmEventQueue
      in (podCtl, stsCtl, swarmCtl))"

lemmas command_defs = internal_controllers_def external_controllers_def NewController_def NewEventProcessor_def
  NewResourceEventHandler_def pod_NewHandler_def sts_NewHandler_def NewSelector_def Let_def

lemma commands_agree:
  "external_controllers v cl swcl lib parse_ip assign ro show_swarm diff is_graphic = (pc, sc, wc)
   \<Longrightarrow> internal_controllers v cl lib parse_ip assign ro = (pc, sc)"
  by (simp add: command_defs)

lemma internal_handles:
  assumes "internal_controllers v cl lib parse_ip assign ro = (pc, sc)"
  shows "controller_Handle get_by_key pc = pod_handle get_by_key parse_ip"
    and "controller_Handle get_by_key sc = sts_handle get_by_key assign ro"
    and "ii_AddFunc (ep_informer (co_processor sc)) =
      handler_Add (selector_Validate (cg_Accessor lib) (v WatchLabel)) (cg_MetaKey lib) (cg_Add lib)"
  using assms by (auto simp: command_defs controller_Handle_def pod_handle_def sts_handle_def)

section \<open>Names\<close>

lemma worker_name_eq_iff:
  assumes "0 \<le> i" and "0 \<le> j"
  shows "worker_name s i = worker_name t j \<longleftrightarrow> s = t \<and> i = j"
proof
  assume eq: "worker_name s i = worker_name t j"
  have "last_index CHR ''-'' (worker_name u k) = int (length u)" if "0 \<le> k" for u k
    using that by (simp add: worker_name_def show_int_nonneg last_index_append show_nat_no_dash)
  from this [of i s] this [of j t] have "length s = length t" using eq assms by simp
  then show "s = t \<and> i = j" using eq by (simp add: worker_name_def)
qed simp

lemma assignation_named:
  assumes "0 \<le> j" and m: "map_of m = assignation s js n"
  shows "jobs_at m (worker_name u j) = (if u = s \<and> j < n then Some (part_of js n j) else None)"
proof (cases "u = s \<and> j < n")
  case True
  then show ?thesis using assms by (simp add: jobs_at_def m assignation_at)
next
  case False
  then have "worker_name u j \<notin> worker_name s ` {0..<n}" using assms by (auto simp: worker_name_eq_iff)
  then have "assignation s js n (worker_name u j) = None"
    using assignation_defined [of s js n "worker_name u j"] by (cases "assignation s js n (worker_name u j)") auto
  then show ?thesis using False by (auto simp: jobs_at_def m)
qed

section \<open>Property\<close>


definition example_settings :: "setting \<Rightarrow> string" where
  "example_settings v =
     (case v of setting.Namespace \<Rightarrow> ''swarm'' | WatchLabel \<Rightarrow> ''w'' | WorkersConfigMapName \<Rightarrow> ''cfg'' | _ \<Rightarrow> [])"

definition example_jobs :: workload where
  "example_jobs = \<lparr>wl_jobs = [Job ''a'', Job ''b'', Job ''c'', Job ''d'', Job ''e''], wl_version = 0\<rparr>"

definition example_client_go :: "event list client_go" where
  "example_client_go = \<lparr>cg_Accessor = example_accessor, cg_MetaKey = example_key, cg_DeletionKey = example_key,
     cg_Add = (\<lambda>q e. q @ [e]), cg_NewQueue = []\<rparr>"

definition example_set :: statefulSet where
  "example_set = \<lparr>st_objectMeta = zero_objectMeta\<lparr>om_labels := [(''app'', ''w'')]\<rparr>, st_replicas = Some 3\<rparr>"

lemma example_command_wiring:
  "example_wiring = command_wiring example_settings example_kube example_versioned (\<lambda>a. Inr ''yaml'') int rev"
  by (simp add: example_wiring_def command_wiring_def example_settings_def)

lemma example_first_update:
  obtains p' k' where
    "UpdateExpectedSize BalanceWorkload Workloads (controller_assign example_wiring) rev 3
       (command_pool example_settings example_jobs :: (assignment_state, unit) pool, example_cluster) = Inr (p', k')"
    "controller_assign example_wiring example_cluster (Workloads (p_state p')) = Inr (k', None)"
proof -
  let ?u = "UpdateExpectedSize BalanceWorkload Workloads (controller_assign example_wiring) rev 3
      (command_pool example_settings example_jobs :: (assignment_state, unit) pool, example_cluster)"
  have "(case ?u of Inl _ \<Rightarrow> False | Inr (p', k') \<Rightarrow>
      controller_assign example_wiring example_cluster (Workloads (p_state p')) = Inr (k', None))" by code_simp
  then show thesis using that by (auto split: sum.splits prod.splits)
qed


end
