(* ===== verification/Typed_Run.thy ===== *)
theory Typed_Run
  imports Wiring
begin

text \<open>
  Type safety of the controllers. Go finds out at run time whether an object of the informer is a
  pod, a stateful set or a swarm: \<open>resource_event_handler.go\<close> asserts a \<open>runtime.Object\<close> and each
  handler asserts the type of its resource. What an informer of one kind delivers is a notification
  with objects of that kind, or a tombstone. The queue of \<open>client-go\<close> is known by the items it holds,
  the informer by the callbacks of \<open>NewEventProcessor\<close>.
\<close>

section \<open>Notifications\<close>

datatype notification =
    OnAdd "object option"
  | OnUpdate "object option" "object option"
  | OnDelete "object option"

text \<open>What the library calls for a notification, of the functions that \<open>NewEventProcessor\<close> gave it.\<close>

definition notify :: "('k, 'l, 'w, 'q) indexer_informer \<Rightarrow> notification \<Rightarrow> 'q \<Rightarrow> 'q go" where
  "notify ii n q =
     (case n of
        OnAdd obj \<Rightarrow> ii_AddFunc ii obj q
      | OnUpdate old new \<Rightarrow> ii_UpdateFunc ii old new q
      | OnDelete obj \<Rightarrow> ii_DeleteFunc ii obj q)"

definition of_kind :: "(object \<Rightarrow> bool) \<Rightarrow> notification \<Rightarrow> bool" where
  "of_kind kind n =
     (case n of
        OnAdd obj \<Rightarrow> pred_option kind obj
      | OnUpdate old new \<Rightarrow> pred_option kind old \<and> pred_option kind new
      | OnDelete obj \<Rightarrow> pred_option kind obj)"

section \<open>The queue by its items\<close>

text \<open>
  The operations of the queue, \<open>ShutDown\<close>, whether \<open>Get\<close> would block, what the queue does by itself
  (items whose delay is over become ready), and the items it holds, waiting or delayed.
\<close>

record ('q, 'i) event_queue =
  eq_ops :: "('q, 'i) workqueue"
  eq_ShutDown :: "'q \<Rightarrow> 'q"
  eq_blocked :: "'q \<Rightarrow> bool"
  eq_moves :: "'q \<Rightarrow> 'q \<Rightarrow> bool"
  eq_items :: "'q \<Rightarrow> 'i set"

text \<open>Only \<open>Add\<close> and \<open>AddRateLimited\<close> put something into the queue: the item they are given.\<close>

definition queue_holds :: "('q \<Rightarrow> event \<Rightarrow> 'q) \<Rightarrow> ('q, 'i) event_queue \<Rightarrow> ('i \<Rightarrow> event option) \<Rightarrow> bool" where
  "queue_holds add eq event_of \<longleftrightarrow>
     (\<forall>q q' i. wq_Get (eq_ops eq) q = (q', Some i) \<longrightarrow> i \<in> eq_items eq q)
     \<and> (\<forall>q q' i. wq_Get (eq_ops eq) q = (q', i) \<longrightarrow> eq_items eq q' \<subseteq> eq_items eq q)
     \<and> (\<forall>q i. eq_items eq (wq_Done (eq_ops eq) q i) \<subseteq> eq_items eq q)
     \<and> (\<forall>q i. eq_items eq (wq_Forget (eq_ops eq) q i) \<subseteq> eq_items eq q)
     \<and> (\<forall>q i. eq_items eq (wq_AddRateLimited (eq_ops eq) q i) \<subseteq> insert i (eq_items eq q))
     \<and> (\<forall>q e. \<forall>i \<in> eq_items eq (add q e). i \<in> eq_items eq q \<or> event_of i = Some e)
     \<and> (\<forall>q. eq_items eq (eq_ShutDown eq q) \<subseteq> eq_items eq q)
     \<and> (\<forall>q q'. eq_moves eq q q' \<longrightarrow> eq_items eq q' \<subseteq> eq_items eq q)"

lemma queue_holdsD:
  assumes "queue_holds add eq event_of"
  shows "wq_Get (eq_ops eq) q = (q1, Some i) \<Longrightarrow> i \<in> eq_items eq q"
    and "wq_Get (eq_ops eq) q = (q1, oi) \<Longrightarrow> eq_items eq q1 \<subseteq> eq_items eq q"
    and "eq_items eq (wq_Done (eq_ops eq) q i) \<subseteq> eq_items eq q"
    and "eq_items eq (wq_Forget (eq_ops eq) q i) \<subseteq> eq_items eq q"
    and "eq_items eq (wq_AddRateLimited (eq_ops eq) q i) \<subseteq> insert i (eq_items eq q)"
    and "i \<in> eq_items eq (add q e) \<Longrightarrow> i \<in> eq_items eq q \<or> event_of i = Some e"
    and "eq_items eq (eq_ShutDown eq q) \<subseteq> eq_items eq q"
    and "eq_moves eq q q1 \<Longrightarrow> eq_items eq q1 \<subseteq> eq_items eq q"
  using assms unfolding queue_holds_def by simp_all

definition queue_typed :: "('q, 'i) event_queue \<Rightarrow> ('i \<Rightarrow> event option) \<Rightarrow> (object \<Rightarrow> bool) \<Rightarrow> 'q \<Rightarrow> bool" where
  "queue_typed eq event_of kind q \<longleftrightarrow> (\<forall>i \<in> eq_items eq q. pred_option (event_kind kind) (event_of i))"

lemma queue_typed_mono:
  "queue_typed eq event_of kind q \<Longrightarrow> eq_items eq q' \<subseteq> eq_items eq q \<Longrightarrow> queue_typed eq event_of kind q'"
  by (auto simp: queue_typed_def)

lemma queue_typed_add:
  assumes "queue_holds add eq event_of" and "queue_typed eq event_of kind q" and "event_kind kind e"
  shows "queue_typed eq event_of kind (add q e)"
  unfolding queue_typed_def
proof
  fix i assume "i \<in> eq_items eq (add q e)"
  from queue_holdsD(6) [OF assms(1) this] show "pred_option (event_kind kind) (event_of i)"
    using assms(2,3) by (auto simp: queue_typed_def)
qed

text \<open>A round of the worker puts back at most the item it took.\<close>

lemma next_item_items:
  assumes "queue_holds add eq event_of" and "processNextItem (eq_ops eq) event_of handle (q, s) = Inr ((q', s'), b)"
  shows "eq_items eq q' \<subseteq> eq_items eq q"
proof -
  note h = queue_holdsD [OF assms(1)]
  obtain q1 oi where g: "wq_Get (eq_ops eq) q = (q1, oi)" by (metis surj_pair)
  have q1: "eq_items eq q1 \<subseteq> eq_items eq q" by (rule h(2) [OF g])
  have sub: "eq_items eq (wq_Done (eq_ops eq) r i) \<subseteq> eq_items eq q" if "eq_items eq r \<subseteq> eq_items eq q" for r i
    using h(3) [of r i] that by blast
  show ?thesis
  proof (cases oi)
    case None
    then show ?thesis using assms(2) g q1 by (simp add: processNextItem_def)
  next
    case (Some i)
    have "eq_items eq (wq_AddRateLimited (eq_ops eq) q1 i) \<subseteq> eq_items eq q"
      using h(5) [of q1 i] q1 h(1) [of q q1 i] g Some by blast
    moreover have "eq_items eq (wq_Forget (eq_ops eq) q1 i) \<subseteq> eq_items eq q" using h(4) [of q1 i] q1 by blast
    ultimately show ?thesis
      using assms(2) g Some q1
      by (auto simp: processNextItem_def handleError_def go_bind_Inr_iff dest: subsetD [OF sub]
          split: option.splits if_splits)
  qed
qed

text \<open>The worker sees of the events only those of items in the queue.\<close>

lemma next_item_restrict:
  assumes "queue_holds add eq event_of"
  shows "processNextItem (eq_ops eq) event_of handle (q, s) =
    processNextItem (eq_ops eq) (\<lambda>i. if i \<in> eq_items eq q then event_of i else None) handle (q, s)"
  using queue_holdsD(1) [OF assms, of q]
  by (cases "wq_Get (eq_ops eq) q"; cases "snd (wq_Get (eq_ops eq) q)") (auto simp: processNextItem_def)

section \<open>Runs of a controller with an informer of one kind\<close>

text \<open>
  The library around a controller: the queue, and between the steps of the controller a notification
  of the informer's kind, or a move of the queue, while the rest of the process does \<open>others\<close> to the
  state that the handlers share.
\<close>

definition informer_library ::
    "('q, 'i) event_queue \<Rightarrow> ('k, 'l, 'w, 'q) indexer_informer \<Rightarrow> (object \<Rightarrow> bool) \<Rightarrow> ('s \<Rightarrow> 's \<Rightarrow> bool)
     \<Rightarrow> ('q, 'i, 'x, 's) run_library" where
  "informer_library eq ii kind others =
     \<lparr>rl_queue = eq_ops eq, rl_ShutDown = eq_ShutDown eq, rl_blocked = eq_blocked eq,
      rl_deliver = (\<lambda>q x s q' x' s'.
        (eq_moves eq q q' \<or> (\<exists>n. of_kind kind n \<and> notify ii n q = Inr q')) \<and> others s s')\<rparr>"

definition state_typed ::
    "('q, 'i) event_queue \<Rightarrow> ('i \<Rightarrow> event option) \<Rightarrow> (object \<Rightarrow> bool) \<Rightarrow> ('s \<Rightarrow> bool) \<Rightarrow> ('q, 'x, 's) run_state \<Rightarrow> bool" where
  "state_typed eq event_of kind ok st \<longleftrightarrow> queue_typed eq event_of kind (rn_queue st) \<and> ok (rn_world st)"

text \<open>The callbacks of a controller, as far as the queue is concerned.\<close>

definition callbacks_typed :: "('q \<Rightarrow> event \<Rightarrow> 'q) \<Rightarrow> ('k, 'l, 'w, 'q) indexer_informer \<Rightarrow> (object \<Rightarrow> bool) \<Rightarrow> bool" where
  "callbacks_typed add ii kind \<longleftrightarrow>
     (\<forall>n q. of_kind kind n \<longrightarrow>
        (\<exists>q'. notify ii n q = Inr q' \<and> (q' = q \<or> (\<exists>e. event_kind kind e \<and> q' = add q e))))"

text \<open>What the event handler does with objects of a kind: nothing, or one event of that kind.\<close>

lemma add_kind:
  assumes "\<forall>ob. kind ob \<longrightarrow> is_runtime_object ob" and "pred_option kind obj"
  shows "handler_Add f key_of add obj q = Inr q \<or> (\<exists>e. event_kind kind e \<and> handler_Add f key_of add obj q = Inr (add q e))"
proof (cases obj)
  case None
  then show ?thesis by (simp add: handler_Add_def)
next
  case (Some ob)
  have "event_kind kind (Event key ob)" for key using assms(2) Some by (simp add: event_kind_def)
  then show ?thesis
    using assms Some
    by (cases "f ob"; cases "key_of ob") (auto simp: handler_Add_def as_runtime_object_def)
qed

lemma update_kind:
  assumes "\<forall>ob. kind ob \<longrightarrow> is_runtime_object ob" and "pred_option kind old" and "pred_option kind new"
  shows "handler_Update f key_of add old new q = Inr q
    \<or> (\<exists>e. event_kind kind e \<and> handler_Update f key_of add old new q = Inr (add q e))"
proof (cases "old = None \<or> new = None")
  case True
  then show ?thesis by (auto simp: handler_Update_def split: option.split)
next
  case False
  then obtain o1 n1 where on: "old = Some o1" "new = Some n1" by auto
  have "event_kind kind (UpdateEvent key o1 n1)" for key using assms(2,3) on by (simp add: event_kind_def)
  then show ?thesis
    using assms on
    by (cases "f n1"; cases "key_of n1") (auto simp: handler_Update_def as_runtime_object_def)
qed

lemma delete_kind:
  assumes "\<forall>ob. kind ob \<longrightarrow> is_runtime_object ob" and "pred_option kind obj"
  shows "handler_Delete f key_of add obj q = Inr q \<or> (\<exists>e. event_kind kind e \<and> handler_Delete f key_of add obj q = Inr (add q e))"
  using add_kind [OF assms, of f key_of add q] by (simp add: handler_Add_def handler_Delete_def)

lemma wired_callbacks_typed:
  assumes "\<forall>ob. kind ob \<longrightarrow> is_runtime_object ob"
  shows "callbacks_typed (cg_Add lib) (ep_informer (NewEventProcessor k w (NewResourceEventHandler lib f) h)) kind"
  unfolding callbacks_typed_def
proof (intro allI impI)
  fix n and q :: 'a
  assume n: "of_kind kind n"
  show "\<exists>q'. notify (ep_informer (NewEventProcessor k w (NewResourceEventHandler lib f) h)) n q = Inr q'
      \<and> (q' = q \<or> (\<exists>e. event_kind kind e \<and> q' = cg_Add lib q e))"
  proof (cases n)
    case (OnAdd obj)
    show ?thesis
      using add_kind [OF assms, of obj f "cg_MetaKey lib" "cg_Add lib" q] n OnAdd
      by (auto simp: of_kind_def notify_def NewEventProcessor_def NewResourceEventHandler_def)
  next
    case (OnUpdate old new)
    show ?thesis
      using update_kind [OF assms, of old new f "cg_MetaKey lib" "cg_Add lib" q] n OnUpdate
      by (auto simp: of_kind_def notify_def NewEventProcessor_def NewResourceEventHandler_def)
  next
    case (OnDelete obj)
    show ?thesis
      using delete_kind [OF assms, of obj f "cg_DeletionKey lib" "cg_Add lib" q] n OnDelete
      by (auto simp: of_kind_def notify_def NewEventProcessor_def NewResourceEventHandler_def)
  qed
qed

lemma notify_queue_typed:
  assumes "queue_holds add eq event_of" and "callbacks_typed add ii kind" and "queue_typed eq event_of kind q"
    and "of_kind kind n" and "notify ii n q = Inr q'"
  shows "queue_typed eq event_of kind q'"
proof -
  have "q' = q \<or> (\<exists>e. event_kind kind e \<and> q' = add q e)"
    using assms(2,4,5) unfolding callbacks_typed_def by (metis Inr_inject)
  then show ?thesis using assms(3) queue_typed_add [OF assms(1,3)] by auto
qed

context resource_handling
begin

abbreviation handles :: "('x \<Rightarrow> string \<Rightarrow> goerror + bool) \<Rightarrow> 'x \<Rightarrow> event \<Rightarrow> 's \<Rightarrow> ('s \<times> goerror option) go" where
  "handles get_by_key x \<equiv> processor_Handle (get_by_key x) created updated deleted"

text \<open>Progress: the next item of a typed state fails no type assertion. Preservation: it leads to a typed one.\<close>

lemma next_item_typed:
  assumes "queue_holds add eq event_of" and "state_typed eq event_of kind ok st"
  shows "processNextItem (eq_ops eq) event_of (handles get_by_key (rn_store st)) (rn_queue st, rn_world st) \<noteq> Inl TypeAssertion"
    and "processNextItem (eq_ops eq) event_of (handles get_by_key (rn_store st)) (rn_queue st, rn_world st) = Inr ((q', s'), b)
      \<Longrightarrow> queue_typed eq event_of kind q' \<and> ok s'"
proof -
  let ?ev = "\<lambda>i. if i \<in> eq_items eq (rn_queue st) then event_of i else None"
  have good: "\<forall>i e. ?ev i = Some e \<longrightarrow> event_kind kind e"
    using assms(2) by (auto simp: state_typed_def queue_typed_def)
  have ok: "ok (rn_world st)" using assms(2) by (simp add: state_typed_def)
  note n = processing.next_item_ok [where wq = "eq_ops eq" and event_of = ?ev and q = "rn_queue st", OF ok good]
  note r = next_item_restrict [OF assms(1), of "handles get_by_key (rn_store st)" "rn_queue st" "rn_world st"]
  show "processNextItem (eq_ops eq) event_of (handles get_by_key (rn_store st)) (rn_queue st, rn_world st) \<noteq> Inl TypeAssertion"
    unfolding r by (rule n(1))
  show "queue_typed eq event_of kind q' \<and> ok s'"
    if step: "processNextItem (eq_ops eq) event_of (handles get_by_key (rn_store st)) (rn_queue st, rn_world st) = Inr ((q', s'), b)"
  proof
    show "queue_typed eq event_of kind q'"
      using queue_typed_mono next_item_items [OF assms(1) step] assms(2) by (auto simp: state_typed_def)
    show "ok s'" by (rule n(2)) (use step r in simp)
  qed
qed

lemma typed_step:
  assumes "queue_holds add eq event_of" and "callbacks_typed add ii kind" and "\<forall>s s'. others s s' \<longrightarrow> ok s \<longrightarrow> ok s'"
    and "run_step (informer_library eq ii kind others) event_of (handles get_by_key) a st st'"
    and "state_typed eq event_of kind ok st"
  shows "state_typed eq event_of kind ok st'"
  using assms(4)
proof cases
  case (next_item q s go_on)
  have "processNextItem (eq_ops eq) event_of (handles get_by_key (rn_store st)) (rn_queue st, rn_world st) = Inr ((q, s), go_on)"
    using next_item by (simp add: informer_library_def)
  from next_item_typed(2) [where get_by_key = get_by_key, OF assms(1,5) this] show ?thesis using next_item by (simp add: state_typed_def)
next
  case (deliver q x s)
  have t: "queue_typed eq event_of kind (rn_queue st)" using assms(5) by (simp add: state_typed_def)
  have "eq_moves eq (rn_queue st) q \<or> (\<exists>n. of_kind kind n \<and> notify ii n (rn_queue st) = Inr q)"
    using deliver by (simp add: informer_library_def)
  then have "queue_typed eq event_of kind q"
    using queue_typed_mono [OF t queue_holdsD(8) [OF assms(1)]] notify_queue_typed [OF assms(1,2) t] by blast
  then show ?thesis using deliver assms(3,5) by (auto simp: informer_library_def state_typed_def)
next
  case stopped
  then show ?thesis
    using assms(5) queue_typed_mono [OF _ queue_holdsD(7) [OF assms(1)]]
    by (simp add: informer_library_def state_typed_def run_defs)
qed (use assms(5) in \<open>simp_all add: state_typed_def run_defs\<close>)

lemma typed_run:
  assumes "queue_holds add eq event_of" and "callbacks_typed add ii kind" and "\<forall>s s'. others s s' \<longrightarrow> ok s \<longrightarrow> ok s'"
    and "controller_run (informer_library eq ii kind others) event_of (handles get_by_key) st as st'"
    and "state_typed eq event_of kind ok st"
  shows "state_typed eq event_of kind ok st'"
  using assms(4)
proof (induction rule: controller_run.induct)
  case run_starts
  then show ?case by (rule assms(5))
next
  case (run_goes_on as st1 a st2)
  show ?case by (rule typed_step [OF assms(1-3) run_goes_on.hyps(2) run_goes_on.IH])
qed

end

section \<open>Property\<close>

text \<open>
  Soundness of a controller for objects of a kind: in every state that it reaches, whatever the rest
  of the process does to the shared state, the queue holds events of that kind only and the state is
  right; the next item fails no type assertion; and no notification of that kind panics.
\<close>

definition type_sound ::
    "('q, 'i) event_queue \<Rightarrow> ('i \<Rightarrow> event option) \<Rightarrow> ('x \<Rightarrow> string \<Rightarrow> goerror + bool)
     \<Rightarrow> ('k, 'l, 'w, 'q, 's) controller \<Rightarrow> (object \<Rightarrow> bool) \<Rightarrow> ('s \<Rightarrow> bool) \<Rightarrow> ('s \<Rightarrow> 's \<Rightarrow> bool) \<Rightarrow> bool" where
  "type_sound eq event_of get_by_key c kind ok others \<longleftrightarrow>
     (\<forall>x s as st. ok s
        \<longrightarrow> controller_run (informer_library eq (ep_informer (co_processor c)) kind others) event_of
              (\<lambda>x. controller_Handle (get_by_key x) c) (run_start c x s) as st
        \<longrightarrow> state_typed eq event_of kind ok st
          \<and> processNextItem (eq_ops eq) event_of (controller_Handle (get_by_key (rn_store st)) c)
              (rn_queue st, rn_world st) \<noteq> Inl TypeAssertion
          \<and> (\<forall>n. of_kind kind n \<longrightarrow> \<not> panics (notify (ep_informer (co_processor c)) n (rn_queue st))))"

context resource_handling
begin

lemma sound_controller:
  assumes "queue_holds add eq event_of" and "eq_items eq (co_queue c) = {}"
    and "callbacks_typed add (ep_informer (co_processor c)) kind" and "\<forall>s s'. others s s' \<longrightarrow> ok s \<longrightarrow> ok s'"
    and "\<forall>g. controller_Handle g c = processor_Handle g created updated deleted"
  shows "type_sound eq event_of get_by_key c kind ok others"
  unfolding type_sound_def
proof (intro allI impI)
  fix x s as st
  assume ok: "ok s" and run: "controller_run (informer_library eq (ep_informer (co_processor c)) kind others) event_of
    (\<lambda>x. controller_Handle (get_by_key x) c) (run_start c x s) as st"
  have start: "state_typed eq event_of kind ok (run_start c x s)"
    using ok assms(2) by (simp add: state_typed_def queue_typed_def run_start_def)
  have t: "state_typed eq event_of kind ok st"
    by (rule typed_run [where get_by_key = get_by_key, OF assms(1,3,4) _ start]) (use run assms(5) in simp)
  have "\<forall>n. of_kind kind n \<longrightarrow> \<not> panics (notify (ep_informer (co_processor c)) n (rn_queue st))"
    using assms(3) unfolding callbacks_typed_def by (metis panics_simps(2))
  then show "state_typed eq event_of kind ok st
      \<and> processNextItem (eq_ops eq) event_of (controller_Handle (get_by_key (rn_store st)) c)
          (rn_queue st, rn_world st) \<noteq> Inl TypeAssertion
      \<and> (\<forall>n. of_kind kind n \<longrightarrow> \<not> panics (notify (ep_informer (co_processor c)) n (rn_queue st)))"
    using t next_item_typed(1) [where get_by_key = get_by_key, OF assms(1) t] assms(5) by simp
qed

end

text \<open>
  C6 The controllers are type safe. In every run of the three controllers as \<open>external.go\<close> wires them
  (and so of the two of \<open>internal.go\<close>), with any queue that holds what was added, any store and any
  concurrent activity that keeps the pool's invariant: if each informer delivers objects of its own
  kind, every event in a queue is one of that kind, no type assertion of a callback or of a handler
  fails, and pool and assignation stay in order. The one notification of an informer that is left
  out, the tombstone of a deletion it missed, fails the assertion of \<open>Delete\<close> in all of them.
\<close>

theorem controllers_type_sound:
  assumes "external_controllers v cl swcl lib parse_ip assign ro show_swarm diff is_graphic = (pc, sc, wc)"
    and "queue_holds (cg_Add lib) eq event_of" and "eq_items eq (cg_NewQueue lib) = {}"
    and "\<forall>p p'. pod_others p p' \<longrightarrow> pool_inv p \<longrightarrow> pool_inv p'"
    and "\<forall>pd pd'. set_others pd pd' \<longrightarrow> sts_ok assign ro pd \<longrightarrow> sts_ok assign ro pd'"
  shows "type_sound eq event_of get_by_key pc is_pod pool_inv pod_others
    \<and> type_sound eq event_of get_by_key' sc is_stateful_set (sts_ok assign ro) set_others
    \<and> type_sound eq event_of get_by_key'' wc is_swarm (\<lambda>out. True) swarm_others
    \<and> notify (ep_informer (co_processor pc)) (OnDelete (Some (Tombstone key obj))) q = Inl TypeAssertion
    \<and> notify (ep_informer (co_processor sc)) (OnDelete (Some (Tombstone key obj))) q = Inl TypeAssertion
    \<and> notify (ep_informer (co_processor wc)) (OnDelete (Some (Tombstone key obj))) q = Inl TypeAssertion"
proof -
  note c = assms(1) [unfolded external_controllers_def Let_def, simplified]
  note w = c [THEN conjunct1, symmetric] c [THEN conjunct2, THEN conjunct1, symmetric]
    c [THEN conjunct2, THEN conjunct2, symmetric]
  have kinds: "\<forall>ob. is_pod ob \<longrightarrow> is_runtime_object ob" "\<forall>ob. is_stateful_set ob \<longrightarrow> is_runtime_object ob"
    "\<forall>ob. is_swarm ob \<longrightarrow> is_runtime_object ob"
    by (auto simp: is_pod_iff is_stateful_set_iff is_swarm_iff is_runtime_object_def)
  have calls: "callbacks_typed (cg_Add lib) (ep_informer (co_processor pc)) is_pod"
    "callbacks_typed (cg_Add lib) (ep_informer (co_processor sc)) is_stateful_set"
    "callbacks_typed (cg_Add lib) (ep_informer (co_processor wc)) is_swarm"
    using w by (simp_all add: NewController_def wired_callbacks_typed kinds)
  have queues: "co_queue pc = cg_NewQueue lib" "co_queue sc = cg_NewQueue lib" "co_queue wc = cg_NewQueue lib"
    using w by (simp_all add: NewController_def)
  have handles: "\<forall>g. controller_Handle g pc = processor_Handle g (pod_Created AddWorkerIfNotExists parse_ip)
      (pod_Updated AddWorkerIfNotExists RemoveWorkerByName parse_ip) (pod_Deleted RemoveWorkerByName)"
    "\<forall>g. controller_Handle g sc = processor_Handle g (sts_Created (UpdateExpectedSize BalanceWorkload Workloads assign ro))
      (sts_Updated (UpdateExpectedSize BalanceWorkload Workloads assign ro))
      (sts_Deleted (UpdateExpectedSize BalanceWorkload Workloads assign ro))"
    "\<forall>g. controller_Handle g wc =
      processor_Handle g (crd_Created show_swarm) (crd_Updated diff is_graphic) (crd_Deleted show_swarm)"
    unfolding w by (simp_all add: controller_Handle_def command_defs crd_NewHandler_def)
  have empty: "eq_items eq (co_queue pc) = {}" "eq_items eq (co_queue sc) = {}" "eq_items eq (co_queue wc) = {}"
    using queues assms(3) by simp_all
  note podh.sound_controller [OF assms(2) empty(1) calls(1) assms(4) handles(1)]
  moreover note stsh.sound_controller [OF assms(2) empty(2) calls(2) assms(5) handles(2)]
  moreover have "type_sound eq event_of get_by_key'' wc is_swarm (\<lambda>out. True) swarm_others"
    by (rule crdh.sound_controller [OF assms(2) empty(3) calls(3) _ handles(3)]) simp
  moreover have "handler_Delete f k a (Some (Tombstone key obj)) q = Inl TypeAssertion" for f k a
    by (simp add: handler_Delete_def as_runtime_object_def is_runtime_object_def)
  then have "notify (ep_informer (co_processor pc)) (OnDelete (Some (Tombstone key obj))) q = Inl TypeAssertion"
    "notify (ep_informer (co_processor sc)) (OnDelete (Some (Tombstone key obj))) q = Inl TypeAssertion"
    "notify (ep_informer (co_processor wc)) (OnDelete (Some (Tombstone key obj))) q = Inl TypeAssertion"
    unfolding w by (simp_all add: notify_def NewController_def NewEventProcessor_def NewResourceEventHandler_def)
  ultimately show ?thesis by (intro conjI)
qed

text \<open>The queue of the examples: a list of events and whether it was shut down.\<close>

definition list_event_queue :: "(event list, event) event_queue" where
  "list_event_queue =
     \<lparr>eq_ops =
        \<lparr>wq_Get = (\<lambda>q. case q of [] \<Rightarrow> ([], None) | e # es \<Rightarrow> (es, Some e)), wq_Done = (\<lambda>q i. q),
         wq_Forget = (\<lambda>q i. q), wq_NumRequeues = (\<lambda>q i. 0), wq_AddRateLimited = (\<lambda>q i. q @ [i])\<rparr>,
      eq_ShutDown = (\<lambda>q. q), eq_blocked = (\<lambda>q. q = []), eq_moves = (\<lambda>q q'. q' = q), eq_items = set\<rparr>"

lemma list_event_queue_holds: "queue_holds (cg_Add example_client_go) list_event_queue Some"
  by (auto simp: queue_holds_def list_event_queue_def example_client_go_def split: list.splits)

definition example_core_client :: "(unit, unit, unit, unit) core_client" where
  "example_core_client =
     \<lparr>cc_listPods = (\<lambda>k ns opts. (k, (), None)), cc_watchPods = (\<lambda>k ns opts. (k, Inr ())),
      cc_listStatefulSets = (\<lambda>k ns opts. (k, (), None)), cc_watchStatefulSets = (\<lambda>k ns opts. (k, Inr ()))\<rparr>"

theorem controllers_type_sound_witness:
  "\<exists>pc sc (st :: (event list, unit, (assignment_state, unit) pool) run_state) q.
     internal_controllers example_settings example_core_client example_client_go (\<lambda>s. ()) (controller_assign example_wiring) rev
       = (pc, sc)
     \<and> notify (ep_informer (co_processor pc)) (OnAdd (Some (PodObj (example_pod ''w-0'' ''10.0.0.1'')))) [] = Inr q
     \<and> length q = 1 \<and> rn_queue st = q
     \<and> processNextItem (eq_ops list_event_queue) Some (controller_Handle (\<lambda>key. Inr True) pc)
         (rn_queue st, rn_world st) \<noteq> Inl TypeAssertion"
proof -
  let ?pod = "PodObj (example_pod ''w-0'' ''10.0.0.1'')"
  obtain pc sc wc where ext: "external_controllers example_settings example_core_client undefined example_client_go (\<lambda>s. ())
      (controller_assign example_wiring) rev (\<lambda>sw. []) (\<lambda>a b. []) (\<lambda>c. True) = (pc, sc, wc)"
    by (metis prod_cases3)
  have "eq_items list_event_queue (cg_NewQueue example_client_go) = {}"
    by (simp add: list_event_queue_def example_client_go_def)
  from controllers_type_sound [where pod_others = "(=)" and set_others = "(=)" and swarm_others = "(=)"
      and get_by_key = "\<lambda>x key. Inr True", OF ext list_event_queue_holds this, THEN conjunct1]
  have sound: "type_sound list_event_queue Some (\<lambda>(x :: unit) key. Inr True) pc is_pod pool_inv (=)" by simp
  note int = commands_agree [OF ext]
  obtain q where q: "notify (ep_informer (co_processor pc)) (OnAdd (Some ?pod)) [] = Inr q" "length q = 1"
    "co_queue pc = []"
    using int by (auto simp: notify_def command_defs handler_Add_def as_runtime_object_def is_runtime_object_def
        selector_Validate_def hasWatchedLabel_def getAppLabel_def example_client_go_def example_accessor_def
        example_key_def example_pod_def example_settings_def)
  let ?s0 = "run_start pc () example_pool"
  let ?lib = "informer_library list_event_queue (ep_informer (co_processor pc)) is_pod (=)"
  have "rl_deliver ?lib (rn_queue ?s0) (rn_store ?s0) (rn_world ?s0) q () (rn_world ?s0)"
    using q by (auto simp: informer_library_def run_start_def of_kind_def is_pod_def intro!: exI [of _ "OnAdd (Some ?pod)"])
  from run_goes_on [OF run_starts deliver [where st = ?s0, OF this]]
  have run: "controller_run ?lib Some (\<lambda>x. controller_Handle (\<lambda>key. Inr True) pc) ?s0 ([] @ [Environment])
      (?s0\<lparr>rn_queue := q, rn_store := (), rn_world := rn_world ?s0\<rparr>)" .
  have "processNextItem (eq_ops list_event_queue) Some (controller_Handle (\<lambda>key. Inr True) pc) (q, rn_world ?s0) \<noteq> Inl TypeAssertion"
    using sound run example_pool_ok(2) unfolding type_sound_def by fastforce
  then show ?thesis
    using int q by (intro exI [of _ pc] exI [of _ sc] exI [of _ "?s0\<lparr>rn_queue := q\<rparr>"] exI [of _ q]) simp
qed

end
