(* ===== verification/Http_Server.thy ===== *)
theory Http_Server
  imports Worker_Service
begin

text \<open>
  The HTTP servers of the three commands, \<open>internal.go\<close>, \<open>external.go\<close> of \<open>services/controller/cmd\<close> and
  \<open>worker.go\<close> of \<open>services/worker/cmd\<close>: which routes each registers (\<open>Routes\<close> of \<open>health.go\<close> and of
  the worker's \<open>version.go\<close>), the server's address and timeouts, and the goroutine that serves. The
  router of \<open>gorilla/mux\<close> is known by the registrations that were made with it, and what it answers a
  path with is an argument, as is the network.
\<close>

section \<open>Routes\<close>

type_synonym handler = "response \<Rightarrow> response go"

type_synonym router = "(string \<times> handler) list"

definition NewRouter :: router where
  "NewRouter = []"

text \<open>
  The library: \<open>HandleFunc\<close> registers a function for a path. \<open>mux\<close> is the function it chooses for the path
  of a request; by its documentation that is the one registered for a literal path.
\<close>

definition HandleFunc :: "string \<Rightarrow> handler \<Rightarrow> router \<Rightarrow> router" where
  "HandleFunc path f r = r @ [(path, f)]"

type_synonym mux = "router \<Rightarrow> string \<Rightarrow> handler option"

definition mux_law :: "mux \<Rightarrow> bool" where
  "mux_law mux \<longleftrightarrow> (\<forall>r path. distinct (map fst r) \<longrightarrow> mux r path = map_of r path)"

definition Checker_Routes :: "((string, string) gomap \<Rightarrow> goerror + string) \<Rightarrow> checker \<Rightarrow> router \<Rightarrow> router" where
  "Checker_Routes encode a r = HandleFunc ''/internal/health'' (\<lambda>w. Inr (healthHandler encode a w)) r"

text \<open>The adapter knows the host; the configuration it reads at each question is given by \<open>at\<close>.\<close>

record version_adapter =
  va_hostName :: string

definition NewVersionAdapter :: "string \<Rightarrow> version_adapter" where
  "NewVersionAdapter host = \<lparr>va_hostName = host\<rparr>"

record version_checker =
  vk_accessor :: version_adapter

definition NewVersionChecker :: "version_adapter \<Rightarrow> version_checker" where
  "NewVersionChecker p = \<lparr>vk_accessor = p\<rparr>"

definition VersionChecker_Routes ::
    "(workload \<Rightarrow> goerror + string) \<Rightarrow> (worker_config \<Rightarrow> string) \<Rightarrow> (nat \<Rightarrow> worker_config) \<Rightarrow> version_checker
     \<Rightarrow> router \<Rightarrow> router" where
  "VersionChecker_Routes encode show_config at a r =
     HandleFunc ''/internal/version'' (versionHandler encode show_config (va_hostName (vk_accessor a)) at) r"

section \<open>Servers\<close>

record http_server =
  srv_Addr :: string
  srv_Handler :: router
  srv_ReadTimeout :: int
  srv_WriteTimeout :: int

definition internal_server ::
    "((string, string) gomap \<Rightarrow> goerror + string) \<Rightarrow> string \<Rightarrow> string \<Rightarrow> (setting \<Rightarrow> string) \<Rightarrow> http_server" where
  "internal_server encode commit date v =
     (let router = NewRouter;
          ch = NewChecker commit date;
          router1 = Checker_Routes encode ch router
      in \<lparr>srv_Addr = '':'' @ v HttpPort, srv_Handler = router1,
          srv_ReadTimeout = 10 * second_ns, srv_WriteTimeout = 10 * second_ns\<rparr>)"

definition external_server :: "(setting \<Rightarrow> string) \<Rightarrow> http_server" where
  "external_server v =
     (let router = NewRouter
      in \<lparr>srv_Addr = '':'' @ v HttpPort, srv_Handler = router,
          srv_ReadTimeout = 10 * second_ns, srv_WriteTimeout = 10 * second_ns\<rparr>)"

definition worker_server ::
    "((string, string) gomap \<Rightarrow> goerror + string) \<Rightarrow> (workload \<Rightarrow> goerror + string) \<Rightarrow> (worker_config \<Rightarrow> string)
     \<Rightarrow> (nat \<Rightarrow> worker_config) \<Rightarrow> (string \<Rightarrow> string) \<Rightarrow> string \<Rightarrow> string \<Rightarrow> (setting \<Rightarrow> string) \<Rightarrow> http_server" where
  "worker_server encode_map encode show_config at getenv commit date v =
     (let router = NewRouter;
          ch = NewChecker commit date;
          router1 = Checker_Routes encode_map ch router;
          vCh = NewVersionChecker (NewVersionAdapter (HostName getenv DefaultHostName));
          router2 = VersionChecker_Routes encode show_config at vCh router1
      in \<lparr>srv_Addr = '':'' @ v HttpPort, srv_Handler = router2,
          srv_ReadTimeout = 10 * second_ns, srv_WriteTimeout = 10 * second_ns\<rparr>)"

text \<open>
  The goroutine of the server: what it makes of the error that \<open>ListenAndServe\<close> returned.
  \<open>ErrServerClosed\<close> is the library's value for a server that was closed.
\<close>

definition ErrServerClosed :: goerror where
  "ErrServerClosed = OtherError ''http: Server closed''"

definition serve_goroutine :: "goerror option \<Rightarrow> unit go" where
  "serve_goroutine e = (if e \<noteq> None \<and> e \<noteq> Some ErrServerClosed then Inl ProcessExit else Inr ())"

text \<open>After \<open>srv.Close\<close> the command reports its error, if there is one, and goes on.\<close>

definition report_close :: "goerror option \<Rightarrow> goerror list \<Rightarrow> goerror list" where
  "report_close err log =
     (case err of Some e \<Rightarrow> log @ [Errorf ''unexpected error on http server close '' (Some e)] | None \<Rightarrow> log)"

text \<open>
  The standard library on the other side, with the router's choice: a request for a path without a route is answered with 404; a panic
  of a handler closes the connection.
\<close>

definition serve :: "mux \<Rightarrow> http_server \<Rightarrow> url \<Rightarrow> goerror + int \<times> string" where
  "serve mux srv u =
     (case mux (srv_Handler srv) (url_path u) of
        None \<Rightarrow> Inr (404, ''404 page not found'')
      | Some f \<Rightarrow>
          (case f \<lparr>rs_headers = [], rs_body = []\<rparr> of
             Inl pc \<Rightarrow> Inl (OtherError ''EOF'')
           | Inr r \<Rightarrow> Inr (200, rs_body r)))"

section \<open>Facts\<close>

lemmas server_defs = internal_server_def external_server_def worker_server_def NewRouter_def HandleFunc_def
  Checker_Routes_def VersionChecker_Routes_def NewVersionChecker_def NewVersionAdapter_def Let_def

text \<open>Which paths the commands answer; the external controller answers none.\<close>

lemma paths_served:
  "map fst (srv_Handler (internal_server encode commit date v)) = [''/internal/health'']"
  "srv_Handler (external_server v) = []"
  "map fst (srv_Handler (worker_server encode_map encw show_config at getenv commit date v)) =
     [''/internal/health'', ''/internal/version'']"
  by (simp_all add: server_defs)

lemma serve_worker_version:
  assumes "mux_law mux"
  shows "serve mux (worker_server encode_map encode show_config at getenv commit date v) (remote_url ip port) =
    (case versionHandler encode show_config (HostName getenv DefaultHostName) at \<lparr>rs_headers = [], rs_body = []\<rparr> of
       Inl pc \<Rightarrow> Inl (OtherError ''EOF'') | Inr r \<Rightarrow> Inr (200, rs_body r))"
  using assms by (simp add: mux_law_def serve_def server_defs remote_url_def)

lemma serve_controller_version:
  assumes "mux_law mux"
  shows "serve mux (internal_server encode commit date v) (remote_url ip port) = Inr (404, ''404 page not found'')"
    and "serve mux (external_server v) u = Inr (404, ''404 page not found'')"
  using assms by (simp_all add: mux_law_def serve_def server_defs remote_url_def)

section \<open>Property\<close>

text \<open>
  C35 The controller reads from a worker what the worker was configured with. The URL that the
  controller's \<open>Assignation\<close> asks for is served by the worker's command when both have the same port;
  as long as the configuration is not reloaded meanwhile, the decoded answer carries the jobs of the
  worker's own host, none if the host has no entry, and the version of the whole configuration. A
  controller, of which the internal one serves its health only and the external one nothing, answers
  the same request with 404, which is an error.
\<close>

theorem version_served_to_controller:
  assumes "no_nil (wc_Workload cfg)" and "host = HostName getenv DefaultHostName"
    and "encode \<lparr>wl_jobs = (case jobs_at (wc_Workload cfg) host of None \<Rightarrow> [] | Some js \<Rightarrow> js),
           wl_version = wc_Version cfg\<rparr> = Inr body"
    and "decode body = Inr \<lparr>wl_jobs = (case jobs_at (wc_Workload cfg) host of None \<Rightarrow> [] | Some js \<Rightarrow> js),
           wl_version = wc_Version cfg\<rparr>"
    and "new_request (url_text (remote_url (show_ip IP) (v HttpPort))) = Inr req"
    and "mux_law mux" and "exchange = (\<lambda>srv rq. serve mux srv (remote_url (show_ip IP) (v HttpPort)))"
    and "asked = (\<lambda>srv. VersionProvider_Assignation url_text new_request (exchange srv) decode show_ip (v HttpPort) IP)"
  shows "url_host (remote_url (show_ip IP) (v HttpPort)) =
      show_ip IP @ srv_Addr (worker_server encode_map encode show_config (\<lambda>i. cfg) getenv commit date v)
    \<and> asked (worker_server encode_map encode show_config (\<lambda>i. cfg) getenv commit date v) =
      Inr (Some \<lparr>wl_jobs = (case jobs_at (wc_Workload cfg) host of None \<Rightarrow> [] | Some js \<Rightarrow> js),
             wl_version = wc_Version cfg\<rparr>)
    \<and> asked (internal_server encode_map commit date v) =
      Inl (Errorf ''unexpected exchange response status code 404'' None)
    \<and> asked (external_server v) = Inl (Errorf ''unexpected exchange response status code 404'' None)"
proof -
  have answer: "exchange (worker_server encode_map encode show_config (\<lambda>i. cfg) getenv commit date v) rq = Inr (200, body)" for rq
    using version_answer [where encode = encode and cfg = cfg and host = host, OF assms(1,3)] assms(2,7) by (simp add: serve_worker_version [OF assms(6)])
  have none: "exchange (internal_server encode_map commit date v) rq = Inr (404, ''404 page not found'')"
    "exchange (external_server v) rq = Inr (404, ''404 page not found'')" for rq
    using assms(7) by (simp_all add: serve_controller_version [OF assms(6)])
  have "show_int 404 = ''404''" by code_simp
  then show ?thesis
    using assms(4,5,8) answer none
    by (simp add: VersionProvider_Assignation_def) (simp add: remote_url_def server_defs)
qed

theorem version_served_to_controller_witness:
  "VersionProvider_Assignation url_host (\<lambda>u. Inr u)
     (\<lambda>rq. serve map_of (worker_server (\<lambda>m. Inr []) (\<lambda>w. Inr (if wl_version w = 5 then ''5'' else [])) (\<lambda>c. [])
       (\<lambda>i. \<lparr>wc_Workload = [(''w-0'', Some \<lparr>wl_jobs = [Job ''a''], wl_version = 0\<rparr>)], wc_Version = 5\<rparr>)
       (\<lambda>name. ''w-0'') ''abc'' ''today'' (\<lambda>s. ''9090'')) (remote_url ''10.0.0.1'' ''9090''))
     (\<lambda>b. Inr \<lparr>wl_jobs = [Job ''a''], wl_version = 5\<rparr>) (\<lambda>ip. ip) ''9090'' ''10.0.0.1'' =
   Inr (Some \<lparr>wl_jobs = [Job ''a''], wl_version = 5\<rparr>)"
proof -
  let ?cfg = "\<lparr>wc_Workload = [(''w-0'', Some \<lparr>wl_jobs = [Job ''a''], wl_version = 0\<rparr>)], wc_Version = 5\<rparr>"
  let ?w = "\<lparr>wl_jobs = (case jobs_at (wc_Workload ?cfg) ''w-0'' of None \<Rightarrow> [] | Some js \<Rightarrow> js),
    wl_version = wc_Version ?cfg\<rparr>"
  let ?encode = "\<lambda>w :: workload. Inr (if wl_version w = 5 then ''5'' else []) :: goerror + string"
  have w: "?w = \<lparr>wl_jobs = [Job ''a''], wl_version = 5\<rparr>" by (simp add: jobs_at_def)
  have n: "no_nil (wc_Workload ?cfg)" by (simp add: no_nil_def)
  have host: "''w-0'' = HostName (\<lambda>name. ''w-0'') DefaultHostName" by (simp add: HostName_def)
  have e: "?encode ?w = Inr ''5''" and d: "(\<lambda>b :: string. Inr ?w :: goerror + workload) ''5'' = Inr ?w" by simp_all
  have q: "(\<lambda>u :: string. Inr u :: goerror + string)
      (url_host (remote_url ((\<lambda>ip :: string. ip) ''10.0.0.1'') ((\<lambda>s. ''9090'') HttpPort))) = Inr ''10.0.0.1:9090''"
    by (simp add: remote_url_def)
  from version_served_to_controller [where encode = ?encode and encode_map = "\<lambda>m. Inr []" and show_config = "\<lambda>c. []"
      and commit = "''abc''" and date = "''today''" and cfg = ?cfg and host = "''w-0''" and decode = "\<lambda>b. Inr ?w"
      and new_request = "\<lambda>u. Inr u" and url_text = url_host and show_ip = "\<lambda>ip. ip" and IP = "''10.0.0.1''"
      and v = "\<lambda>s. ''9090''" and getenv = "\<lambda>name. ''w-0''" and mux = map_of, OF n host e d q _ refl refl]
  show ?thesis unfolding w by (simp add: mux_law_def)
qed

end
