(* ===== verification/Command_Run.thy ===== *)
theory Command_Run
  imports Typed_Run Http_Server
begin

text \<open>
  The two controller commands as processes: \<open>Run\<close> of \<open>internal.go\<close> and of \<open>external.go\<close> under
  \<open>services/controller/cmd\<close>, after the controllers were wired. The command starts the controllers and
  the HTTP server, waits for a signal, closes the server and the stop channel, and returns, which ends
  the process. All goroutines run in between, in any order: for each resource the controller's \<open>Run\<close>
  and its queue worker (the steps of \<open>Controller_Run\<close>) and the informer with its callbacks; the
  conciliation and the restarts of the pool (the steps of \<open>Pool_Runtime\<close>), which the controllers of
  pods and stateful sets share; and the server. A panic in any of them ends the process.
\<close>

section \<open>A controller within the process\<close>

text \<open>How a process ends: with a status, by a signal it does not handle, or by a panic.\<close>

datatype exit = ExitStatus int | KilledBySignal | GoPanic panic

text \<open>\<open>log.Fatalf\<close> ends the process with status 1.\<close>

definition exit_of :: "panic \<Rightarrow> exit" where
  "exit_of pc = (if pc = ProcessExit then ExitStatus 1 else GoPanic pc)"

text \<open>Of a wired controller the process needs \<open>Handle\<close> and the callbacks of its informer.\<close>

record ('q, 's) part =
  pt_handle :: "(string \<Rightarrow> goerror + bool) \<Rightarrow> event \<Rightarrow> 's \<Rightarrow> ('s \<times> goerror option) go"
  pt_notify :: "notification \<Rightarrow> 'q \<Rightarrow> 'q go"

definition part_of_controller :: "('k, 'l, 'w, 'q, 's) controller \<Rightarrow> ('q, 's) part" where
  "part_of_controller c =
     \<lparr>pt_handle = (\<lambda>g. controller_Handle g c), pt_notify = notify (ep_informer (co_processor c))\<rparr>"

text \<open>
  The library: the queue, the events that items point to, the informer's store, and what the
  informers deliver for each resource.
\<close>

record ('q, 'i, 'x) surroundings =
  su_queue :: "('q, 'i) event_queue"
  su_event_of :: "'i \<Rightarrow> event option"
  su_get_by_key :: "'x \<Rightarrow> string \<Rightarrow> goerror + bool"
  su_pods :: "notification \<Rightarrow> bool"
  su_sets :: "notification \<Rightarrow> bool"
  su_swarms :: "notification \<Rightarrow> bool"

definition queue_library :: "('q, 'i) event_queue \<Rightarrow> ('q, 'i, 'x, 's) run_library" where
  "queue_library eq =
     \<lparr>rl_queue = eq_ops eq, rl_ShutDown = eq_ShutDown eq, rl_blocked = eq_blocked eq,
      rl_deliver = (\<lambda>q x s q' x' s'. eq_moves eq q q' \<and> x' = x \<and> s' = s)\<rparr>"

datatype thread = Goroutine actor | Informer

text \<open>
  A step of a controller, its queue or its informer, with the new state or the end of the process. The
  stop channel is closed by the command only. While the informer runs it calls back, after it has
  changed its store.
\<close>

inductive part_step ::
    "('q, 'i, 'x) surroundings \<Rightarrow> (notification \<Rightarrow> bool) \<Rightarrow> ('q, 's) part
     \<Rightarrow> ('q, 'x, 's) run_state \<Rightarrow> thread \<Rightarrow> exit + ('q, 'x, 's) run_state \<Rightarrow> bool"
  for su delivers pt where
  part_runs: "run_step (queue_library (su_queue su)) (su_event_of su) (\<lambda>x. pt_handle pt (su_get_by_key su x)) a c c'
    \<Longrightarrow> rn_stop c' = rn_stop c
    \<Longrightarrow> part_step su delivers pt c (Goroutine a) (Inr c')"
| part_panics: "rn_worker c = Running
    \<Longrightarrow> processNextItem (eq_ops (su_queue su)) (su_event_of su) (pt_handle pt (su_get_by_key su (rn_store c)))
          (rn_queue c, rn_world c) = Inl pc
    \<Longrightarrow> part_step su delivers pt c (Goroutine WorkerGo) (Inl (exit_of pc))"
| part_called: "rn_informer c \<Longrightarrow> delivers n \<Longrightarrow> pt_notify pt n (rn_queue c) = Inr q
    \<Longrightarrow> part_step su delivers pt c Informer (Inr (c\<lparr>rn_queue := q, rn_store := x\<rparr>))"
| part_call_panics: "rn_informer c \<Longrightarrow> delivers n \<Longrightarrow> pt_notify pt n (rn_queue c) = Inl pc
    \<Longrightarrow> part_step su delivers pt c Informer (Inl (exit_of pc))"

inductive_cases part_goesE: "part_step su delivers pt c t (Inr c')"
inductive_cases part_endsE: "part_step su delivers pt c t (Inl e)"

section \<open>The process\<close>

text \<open>
  The controllers of a command, the third one of \<open>external.go\<close> only, and what the pool calls. The
  order in which the controller of the sets visits the map of workers is open at each step.
\<close>

record ('q, 'd, 'ip) program =
  pg_pods :: "('q, (assignment_state, 'ip) pool) part"
  pg_sets :: "string range_order \<Rightarrow> ('q, (assignment_state, 'ip) pool \<times> 'd) part"
  pg_swarms :: "('q, string list) part option"
  pg_assign :: "'d \<Rightarrow> workloads \<Rightarrow> ('d \<times> goerror option) go"
  pg_restart :: "'d \<Rightarrow> string \<Rightarrow> ('d \<times> goerror option) go"

text \<open>Where the command is: the next statement of \<open>Run\<close> that it executes.\<close>

datatype stage =
  GoPods | GoSets | GoSwarms | GoServer | NotifySignals | AwaitSignal | CloseServer | CloseStop | AtReturn

definition stage_rank :: "stage \<Rightarrow> nat" where
  "stage_rank g = (case g of GoPods \<Rightarrow> 0 | GoSets \<Rightarrow> 1 | GoSwarms \<Rightarrow> 2 | GoServer \<Rightarrow> 3 | NotifySignals \<Rightarrow> 4
     | AwaitSignal \<Rightarrow> 5 | CloseServer \<Rightarrow> 6 | CloseStop \<Rightarrow> 7 | AtReturn \<Rightarrow> 8)"

instantiation stage :: linorder
begin

definition less_eq_stage :: "stage \<Rightarrow> stage \<Rightarrow> bool" where
  "less_eq_stage a b \<longleftrightarrow> stage_rank a \<le> stage_rank b"

definition less_stage :: "stage \<Rightarrow> stage \<Rightarrow> bool" where
  "less_stage a b \<longleftrightarrow> stage_rank a < stage_rank b"

instance
proof
  fix a b :: stage
  show "a = b" if "a \<le> b" "b \<le> a"
    using that by (cases a; cases b) (simp_all add: less_eq_stage_def stage_rank_def)
qed (auto simp: less_eq_stage_def less_stage_def)

end

text \<open>
  \<open>pr_signal\<close> tells whether a signal is in the channel, \<open>pr_closed\<close> whether the server was closed. The
  controllers' own fields for the shared state are not used: \<open>pr_sys\<close> has the pool, the cluster and
  the restarts.
\<close>

record ('q, 'x, 'd, 'ip) process =
  pr_stage :: stage
  pr_pods :: "('q, 'x, (assignment_state, 'ip) pool) run_state"
  pr_sets :: "('q, 'x, (assignment_state, 'ip) pool \<times> 'd) run_state"
  pr_swarms :: "('q, 'x, string list) run_state"
  pr_sys :: "('d, 'ip) system"
  pr_serving :: bool
  pr_closed :: bool
  pr_signal :: bool
  pr_log :: "goerror list"
  pr_exit :: "exit option"

definition pods_view :: "('q, 'x, 'd, 'ip) process \<Rightarrow> ('q, 'x, (assignment_state, 'ip) pool) run_state" where
  "pods_view st = (pr_pods st)\<lparr>rn_world := sys_pool (pr_sys st)\<rparr>"

definition sets_view :: "('q, 'x, 'd, 'ip) process \<Rightarrow> ('q, 'x, (assignment_state, 'ip) pool \<times> 'd) run_state" where
  "sets_view st = (pr_sets st)\<lparr>rn_world := (sys_pool (pr_sys st), sys_world (pr_sys st))\<rparr>"

definition set_pods :: "('q, 'x, (assignment_state, 'ip) pool) run_state \<Rightarrow> ('q, 'x, 'd, 'ip) process
    \<Rightarrow> ('q, 'x, 'd, 'ip) process" where
  "set_pods c st = st\<lparr>pr_pods := c, pr_sys := (pr_sys st)\<lparr>sys_pool := rn_world c\<rparr>\<rparr>"

definition set_sets :: "('q, 'x, (assignment_state, 'ip) pool \<times> 'd) run_state \<Rightarrow> ('q, 'x, 'd, 'ip) process
    \<Rightarrow> ('q, 'x, 'd, 'ip) process" where
  "set_sets c st = st\<lparr>pr_sets := c,
     pr_sys := (pr_sys st)\<lparr>sys_pool := fst (rn_world c), sys_world := snd (rn_world c)\<rparr>\<rparr>"

section \<open>Run of internal.go and external.go\<close>

text \<open>
  One statement of \<open>Run\<close> each, from \<open>go podCtl.Run(stopCh)\<close> to the end; \<open>close_error\<close> is what the
  server's \<open>Close\<close> returns. \<open>None\<close> when the command waits. The command of \<open>internal.go\<close> has no third
  controller.
\<close>

definition internal_Run :: "goerror option \<Rightarrow> ('q, 'x, 'd, 'ip) process \<Rightarrow> ('q, 'x, 'd, 'ip) process option" where
  "internal_Run close_error st =
     (case pr_stage st of
        GoPods \<Rightarrow> Some (st\<lparr>pr_stage := GoSets\<rparr>)
      | GoSets \<Rightarrow> Some (st\<lparr>pr_stage := GoServer\<rparr>)
      | GoSwarms \<Rightarrow> None
      | GoServer \<Rightarrow> Some (st\<lparr>pr_serving := True, pr_stage := NotifySignals\<rparr>)
      | NotifySignals \<Rightarrow> Some (st\<lparr>pr_stage := AwaitSignal\<rparr>)
      | AwaitSignal \<Rightarrow> if pr_signal st then Some (st\<lparr>pr_signal := False, pr_stage := CloseServer\<rparr>) else None
      | CloseServer \<Rightarrow> Some (st\<lparr>pr_closed := True, pr_log := report_close close_error (pr_log st), pr_stage := CloseStop\<rparr>)
      | CloseStop \<Rightarrow> Some (st\<lparr>pr_pods := (pr_pods st)\<lparr>rn_stop := True\<rparr>, pr_sets := (pr_sets st)\<lparr>rn_stop := True\<rparr>,
          pr_stage := AtReturn\<rparr>)
      | AtReturn \<Rightarrow> Some (st\<lparr>pr_exit := Some (ExitStatus 0)\<rparr>))"

definition external_Run :: "goerror option \<Rightarrow> ('q, 'x, 'd, 'ip) process \<Rightarrow> ('q, 'x, 'd, 'ip) process option" where
  "external_Run close_error st =
     (case pr_stage st of
        GoPods \<Rightarrow> Some (st\<lparr>pr_stage := GoSets\<rparr>)
      | GoSets \<Rightarrow> Some (st\<lparr>pr_stage := GoSwarms\<rparr>)
      | GoSwarms \<Rightarrow> Some (st\<lparr>pr_stage := GoServer\<rparr>)
      | GoServer \<Rightarrow> Some (st\<lparr>pr_serving := True, pr_stage := NotifySignals\<rparr>)
      | NotifySignals \<Rightarrow> Some (st\<lparr>pr_stage := AwaitSignal\<rparr>)
      | AwaitSignal \<Rightarrow> if pr_signal st then Some (st\<lparr>pr_signal := False, pr_stage := CloseServer\<rparr>) else None
      | CloseServer \<Rightarrow> Some (st\<lparr>pr_closed := True, pr_log := report_close close_error (pr_log st), pr_stage := CloseStop\<rparr>)
      | CloseStop \<Rightarrow> Some (st\<lparr>pr_pods := (pr_pods st)\<lparr>rn_stop := True\<rparr>, pr_sets := (pr_sets st)\<lparr>rn_stop := True\<rparr>,
          pr_swarms := (pr_swarms st)\<lparr>rn_stop := True\<rparr>, pr_stage := AtReturn\<rparr>)
      | AtReturn \<Rightarrow> Some (st\<lparr>pr_exit := Some (ExitStatus 0)\<rparr>))"

definition command_Run :: "('q, 'd, 'ip) program \<Rightarrow> goerror option \<Rightarrow> ('q, 'x, 'd, 'ip) process
    \<Rightarrow> ('q, 'x, 'd, 'ip) process option" where
  "command_Run pg = (case pg_swarms pg of None \<Rightarrow> internal_Run | Some p \<Rightarrow> external_Run)"

text \<open>
  A signal before \<open>signal.Notify\<close> has its default effect; after it, the channel holds one. The server
  returns \<open>ErrServerClosed\<close> once it was closed, and another error before.
\<close>

definition receive_signal :: "('q, 'x, 'd, 'ip) process \<Rightarrow> ('q, 'x, 'd, 'ip) process" where
  "receive_signal st =
     (if pr_stage st \<le> NotifySignals then st\<lparr>pr_exit := Some KilledBySignal\<rparr> else st\<lparr>pr_signal := True\<rparr>)"

definition serve_returns :: "goerror \<Rightarrow> ('q, 'x, 'd, 'ip) process \<Rightarrow> ('q, 'x, 'd, 'ip) process" where
  "serve_returns e st =
     (case serve_goroutine (Some e) of
        Inl pc \<Rightarrow> st\<lparr>pr_exit := Some (exit_of pc)\<rparr>
      | Inr u \<Rightarrow> st\<lparr>pr_serving := False\<rparr>)"

datatype label = Pods thread | Sets thread | Swarms thread | PoolGo | Server | Command | Signal

inductive process_step ::
    "('q, 'i, 'x) surroundings \<Rightarrow> ('q, 'd, 'ip) program \<Rightarrow> ('q, 'x, 'd, 'ip) process \<Rightarrow> label
     \<Rightarrow> ('q, 'x, 'd, 'ip) process \<Rightarrow> bool"
  for su pg where
  pods_run: "pr_exit st = None \<Longrightarrow> GoPods < pr_stage st
    \<Longrightarrow> part_step su (su_pods su) (pg_pods pg) (pods_view st) t (Inr c)
    \<Longrightarrow> process_step su pg st (Pods t) (set_pods c st)"
| pods_end: "pr_exit st = None \<Longrightarrow> GoPods < pr_stage st
    \<Longrightarrow> part_step su (su_pods su) (pg_pods pg) (pods_view st) t (Inl e)
    \<Longrightarrow> process_step su pg st (Pods t) (st\<lparr>pr_exit := Some e\<rparr>)"
| sets_run: "pr_exit st = None \<Longrightarrow> GoSets < pr_stage st \<Longrightarrow> range_order ro
    \<Longrightarrow> part_step su (su_sets su) (pg_sets pg ro) (sets_view st) t (Inr d)
    \<Longrightarrow> process_step su pg st (Sets t) (set_sets d st)"
| sets_end: "pr_exit st = None \<Longrightarrow> GoSets < pr_stage st \<Longrightarrow> range_order ro
    \<Longrightarrow> part_step su (su_sets su) (pg_sets pg ro) (sets_view st) t (Inl e)
    \<Longrightarrow> process_step su pg st (Sets t) (st\<lparr>pr_exit := Some e\<rparr>)"
| swarms_run: "pr_exit st = None \<Longrightarrow> GoSwarms < pr_stage st \<Longrightarrow> pg_swarms pg = Some p
    \<Longrightarrow> part_step su (su_swarms su) p (pr_swarms st) t (Inr w)
    \<Longrightarrow> process_step su pg st (Swarms t) (st\<lparr>pr_swarms := w\<rparr>)"
| swarms_end: "pr_exit st = None \<Longrightarrow> GoSwarms < pr_stage st \<Longrightarrow> pg_swarms pg = Some p
    \<Longrightarrow> part_step su (su_swarms su) p (pr_swarms st) t (Inl e)
    \<Longrightarrow> process_step su pg st (Swarms t) (st\<lparr>pr_exit := Some e\<rparr>)"
| pool_runs: "pr_exit st = None
    \<Longrightarrow> act = Tick \<or> (\<exists>a. act = Call a \<or> act = CallFails a \<or> act = Finish a)
    \<Longrightarrow> pool_step (pg_assign pg) (pg_restart pg) (pr_sys st) act sys
    \<Longrightarrow> process_step su pg st PoolGo (st\<lparr>pr_sys := sys\<rparr>)"
| restart_panics: "pr_exit st = None \<Longrightarrow> (a, Sleeping) \<in> set (sys_restarts (pr_sys st))
    \<Longrightarrow> restart_call (pg_restart pg) a (sys_pool (pr_sys st)) (sys_world (pr_sys st)) = Inl pc
    \<Longrightarrow> process_step su pg st PoolGo (st\<lparr>pr_exit := Some (exit_of pc)\<rparr>)"
| finish_panics: "pr_exit st = None \<Longrightarrow> (a, Restarted) \<in> set (sys_restarts (pr_sys st))
    \<Longrightarrow> restart_finish a (sys_pool (pr_sys st)) = Inl pc
    \<Longrightarrow> process_step su pg st PoolGo (st\<lparr>pr_exit := Some (exit_of pc)\<rparr>)"
| server_returns: "pr_exit st = None \<Longrightarrow> pr_serving st \<Longrightarrow> e = ErrServerClosed \<longleftrightarrow> pr_closed st
    \<Longrightarrow> process_step su pg st Server (serve_returns e st)"
| command_runs: "pr_exit st = None \<Longrightarrow> command_Run pg close_error st = Some st'
    \<Longrightarrow> process_step su pg st Command st'"
| signal_comes: "pr_exit st = None \<Longrightarrow> process_step su pg st Signal (receive_signal st)"

text \<open>A run is the sequence of the labels of its steps.\<close>

inductive process_run ::
    "('q, 'i, 'x) surroundings \<Rightarrow> ('q, 'd, 'ip) program \<Rightarrow> ('q, 'x, 'd, 'ip) process \<Rightarrow> label list
     \<Rightarrow> ('q, 'x, 'd, 'ip) process \<Rightarrow> bool"
  for su pg st0 where
  process_starts: "process_run su pg st0 [] st0"
| process_goes_on: "process_run su pg st0 ls st \<Longrightarrow> process_step su pg st l st'
    \<Longrightarrow> process_run su pg st0 (ls @ [l]) st'"

section \<open>The programs and their starts\<close>

definition internal_program where
  "internal_program v cl lib parse_ip assign restart =
     \<lparr>pg_pods = part_of_controller (fst (internal_controllers v cl lib parse_ip assign id)),
      pg_sets = (\<lambda>ro. part_of_controller (snd (internal_controllers v cl lib parse_ip assign ro))),
      pg_swarms = None, pg_assign = assign, pg_restart = restart\<rparr>"

definition external_program where
  "external_program v cl swcl lib parse_ip assign restart show_swarm diff is_graphic =
     (let wired = (\<lambda>ro. external_controllers v cl swcl lib parse_ip assign ro show_swarm diff is_graphic)
      in \<lparr>pg_pods = part_of_controller (fst (wired id)),
          pg_sets = (\<lambda>ro. part_of_controller (fst (snd (wired ro)))),
          pg_swarms = Some (part_of_controller (snd (snd (wired id)))), pg_assign = assign, pg_restart = restart\<rparr>)"

text \<open>
  The state in which the first \<open>go\<close> statement is reached: the queues are new and empty, the pool is the
  one of the command, the cluster is as it is. All of \<open>pr_swarms\<close> is unused in \<open>internal.go\<close>.
\<close>

definition fresh_run :: "'q \<Rightarrow> 'x \<Rightarrow> 's \<Rightarrow> ('q, 'x, 's) run_state" where
  "fresh_run q x s =
     \<lparr>rn_main = Called, rn_worker = NotStarted, rn_informer = False, rn_synced = False, rn_stop = False,
      rn_queue = q, rn_store = x, rn_world = s, rn_reported = []\<rparr>"

definition process_start ::
    "(setting \<Rightarrow> string) \<Rightarrow> 'q client_go \<Rightarrow> workload \<Rightarrow> 'd \<Rightarrow> 'x \<Rightarrow> ('q, 'x, 'd, 'ip) process" where
  "process_start v lib config k0 x =
     \<lparr>pr_stage = GoPods, pr_pods = fresh_run (cg_NewQueue lib) x (command_pool v config),
      pr_sets = fresh_run (cg_NewQueue lib) x (command_pool v config, k0),
      pr_swarms = fresh_run (cg_NewQueue lib) x [],
      pr_sys = \<lparr>sys_pool = command_pool v config, sys_world = k0, sys_restarts = []\<rparr>,
      pr_serving = False, pr_closed = False, pr_signal = False, pr_log = [], pr_exit = None\<rparr>"

text \<open>What the proofs use of the two programs.\<close>

definition calls_typed :: "('q \<Rightarrow> event \<Rightarrow> 'q) \<Rightarrow> (notification \<Rightarrow> 'q \<Rightarrow> 'q go) \<Rightarrow> bool" where
  "calls_typed add nt \<longleftrightarrow>
     (\<forall>kind. (\<forall>ob. kind ob \<longrightarrow> is_runtime_object ob) \<longrightarrow>
        (\<forall>n q. of_kind kind n \<longrightarrow> (\<exists>q'. nt n q = Inr q' \<and> (q' = q \<or> (\<exists>e. event_kind kind e \<and> q' = add q e)))))"

definition wired_program :: "'q client_go \<Rightarrow> (string \<Rightarrow> 'ip) \<Rightarrow> ('q, 'd, 'ip) program \<Rightarrow> bool" where
  "wired_program lib parse_ip pg \<longleftrightarrow>
     (\<forall>g. pt_handle (pg_pods pg) g = pod_handle g parse_ip)
     \<and> (\<forall>ro g. pt_handle (pg_sets pg ro) g = sts_handle g (pg_assign pg) ro)
     \<and> calls_typed (cg_Add lib) (pt_notify (pg_pods pg))
     \<and> (\<forall>ro. calls_typed (cg_Add lib) (pt_notify (pg_sets pg ro)))
     \<and> (\<forall>p. pg_swarms pg = Some p \<longrightarrow> calls_typed (cg_Add lib) (pt_notify p)
          \<and> (\<forall>g e s. event_kind is_swarm e \<longrightarrow> (\<exists>r. pt_handle p g e s = Inr r)))"

lemma calls_typed_wired:
  "calls_typed (cg_Add lib) (notify (ep_informer (NewEventProcessor k w (NewResourceEventHandler lib f) h)))"
  using wired_callbacks_typed [of _ lib k w f h] unfolding callbacks_typed_def calls_typed_def by blast

lemma swarm_handle_total:
  "event_kind is_swarm e \<Longrightarrow>
     \<exists>r. processor_Handle g (crd_Created show_swarm) (crd_Updated diff is_graphic) (crd_Deleted show_swarm) e s = Inr r"
  by (cases e)
    (auto simp: processor_Handle_dispatch dispatch_def event_kind_def is_swarm_iff crd_Created_def crd_Updated_def
      crd_Deleted_def Let_def split: sum.split)

lemma internal_wired: "wired_program lib parse_ip (internal_program v cl lib parse_ip assign restart)"
  by (simp add: wired_program_def internal_program_def part_of_controller_def internal_controllers_def Let_def
      NewController_def calls_typed_wired controller_Handle_def pod_handle_def sts_handle_def)
    (simp add: NewEventProcessor_def pod_NewHandler_def sts_NewHandler_def Let_def)

lemma external_wired:
  "wired_program lib parse_ip (external_program v cl swcl lib parse_ip assign restart show_swarm diff is_graphic)"
  by (simp add: wired_program_def external_program_def part_of_controller_def external_controllers_def Let_def
      NewController_def calls_typed_wired controller_Handle_def pod_handle_def sts_handle_def)
    (simp add: NewEventProcessor_def pod_NewHandler_def sts_NewHandler_def crd_NewHandler_def Let_def
      swarm_handle_total [simplified])

lemmas wired_programD = wired_program_def [THEN iffD1, rule_format]

section \<open>The process refines the pool\<close>

text \<open>A step of a controller leaves the shared state alone, or does to it what \<open>Handle\<close> does for one event.\<close>

lemma next_item_world:
  assumes "processNextItem wq event_of handle (q, s) = Inr ((q', s'), b)"
  shows "s' = s \<or> (\<exists>e err. handle e s = Inr (s', err))"
  using assms by (auto simp: processNextItem_def go_bind_Inr_iff split: prod.splits option.splits)

lemma part_step_world:
  assumes "part_step su delivers pt c t (Inr c')"
  shows "rn_world c' = rn_world c
    \<or> t = Goroutine WorkerGo
       \<and> (\<exists>e err. pt_handle pt (su_get_by_key su (rn_store c)) e (rn_world c) = Inr (rn_world c', err))"
  using assms
proof cases
  case (part_runs a)
  from part_runs(2) show ?thesis
  proof cases
    case (next_item q s go_on)
    then show ?thesis using next_item_world [OF next_item(5)] part_runs(1) by simp
  qed (simp_all add: run_defs queue_library_def)
qed simp

lemma pod_handle_action:
  assumes "pod_handle g parse_ip e p = Inr (p', err)"
  shows "p' = p \<or> (\<exists>i n ip added. AddWorkerIfNotExists i n ip p = (p', added)) \<or> (\<exists>n. p' = RemoveWorkerByName n p)"
proof -
  have created: "p1 = p \<or> (\<exists>i n ip added. AddWorkerIfNotExists i n ip p = (p1, added))"
    if "pod_Created AddWorkerIfNotExists parse_ip obj p = Inr p1" for obj p1
    using that by (auto simp: pod_Created_def go_bind_Inr_iff split: if_splits prod.splits option.splits)
  have deleted: "\<exists>n. p1 = RemoveWorkerByName n p" if "pod_Deleted RemoveWorkerByName obj p = Inr p1" for obj p1
    using that by (auto simp: pod_Deleted_def go_bind_Inr_iff)
  have updated: "p1 = p \<or> (\<exists>i n ip added. AddWorkerIfNotExists i n ip p = (p1, added)) \<or> (\<exists>n. p1 = RemoveWorkerByName n p)"
    if "pod_Updated AddWorkerIfNotExists RemoveWorkerByName parse_ip new old p = Inr p1" for new old p1
    using that by (auto simp: pod_Updated_def pod_Deleted_def go_bind_Inr_iff split: if_splits prod.splits option.splits)
  show ?thesis
  proof (cases "g (GetKey e)")
    case (Inl er)
    then show ?thesis using assms by (simp add: pod_handle_cases)
  next
    case (Inr exists)
    then have "dispatch (pod_Created AddWorkerIfNotExists parse_ip) (pod_Updated AddWorkerIfNotExists RemoveWorkerByName parse_ip)
        (pod_Deleted RemoveWorkerByName) exists e p = Inr p'"
      using assms by (simp add: pod_handle_cases go_bind_Inr_iff)
    then show ?thesis
      using created [of _ p'] deleted [of _ p'] updated [of _ _ p']
      by (cases e; cases exists) (simp_all add: dispatch_def, blast+)
  qed
qed

lemma sts_handle_action:
  assumes "sts_handle g assign ro e pd = Inr (pd', err)"
  shows "pd' = pd \<or> (\<exists>n. UpdateExpectedSize BalanceWorkload Workloads assign ro n pd = Inr pd')"
  using assms
  by (auto simp: sts_handle_def processor_Handle_dispatch dispatch_def go_bind_Inr_iff sts_Created_def sts_Updated_def
      sts_Deleted_def split: sum.splits event.splits if_splits)

lemma command_Run_sys: "command_Run pg close_error st = Some st' \<Longrightarrow> pr_sys st' = pr_sys st"
  by (auto simp: command_Run_def internal_Run_def external_Run_def split: option.splits stage.splits if_splits)

lemma process_step_pool:
  assumes "wired_program lib parse_ip pg" and "process_step su pg st l st'"
  shows "pr_sys st' = pr_sys st
    \<or> (\<exists>act. act \<noteq> Stop \<and> (\<forall>n. act = Resize n \<longrightarrow> l = Sets (Goroutine WorkerGo))
        \<and> pool_step (pg_assign pg) (pg_restart pg) (pr_sys st) act (pr_sys st'))"
  using assms(2)
proof cases
  case (pods_run t c)
  have h: "pt_handle (pg_pods pg) g = pod_handle g parse_ip" for g using assms(1) by (simp add: wired_program_def)
  have "rn_world c = sys_pool (pr_sys st) \<or> (\<exists>i n ip added. AddWorkerIfNotExists i n ip (sys_pool (pr_sys st)) = (rn_world c, added))
      \<or> (\<exists>n. rn_world c = RemoveWorkerByName n (sys_pool (pr_sys st)))"
    using part_step_world [OF pods_run(5)] pod_handle_action unfolding h by (fastforce simp: pods_view_def)
  then show ?thesis
  proof (elim disjE exE)
    fix i n ip added
    assume "AddWorkerIfNotExists i n ip (sys_pool (pr_sys st)) = (rn_world c, added)"
    from pool_step.register [OF this, of "pg_assign pg" "pg_restart pg"] show ?thesis
      using pods_run(2) by (auto simp: set_pods_def)
  next
    fix n
    assume "rn_world c = RemoveWorkerByName n (sys_pool (pr_sys st))"
    then show ?thesis
      using pods_run(2) pool_step.unregister [of "pg_assign pg" "pg_restart pg" "pr_sys st" n] by (auto simp: set_pods_def)
  qed (use pods_run(2) in \<open>simp add: set_pods_def\<close>)
next
  case (sets_run ro t d)
  have h: "pt_handle (pg_sets pg ro) g = sts_handle g (pg_assign pg) ro" for g using assms(1) by (simp add: wired_program_def)
  have "rn_world d = (sys_pool (pr_sys st), sys_world (pr_sys st)) \<or> t = Goroutine WorkerGo \<and>
      (\<exists>n. UpdateExpectedSize BalanceWorkload Workloads (pg_assign pg) ro n (sys_pool (pr_sys st), sys_world (pr_sys st)) = Inr (rn_world d))"
    using part_step_world [OF sets_run(6)] sts_handle_action unfolding h by (fastforce simp: sets_view_def)
  then show ?thesis
  proof
    assume "t = Goroutine WorkerGo \<and> (\<exists>n. UpdateExpectedSize BalanceWorkload Workloads (pg_assign pg) ro n
        (sys_pool (pr_sys st), sys_world (pr_sys st)) = Inr (rn_world d))"
    then obtain n where t: "t = Goroutine WorkerGo" and u: "UpdateExpectedSize BalanceWorkload Workloads (pg_assign pg) ro n
        (sys_pool (pr_sys st), sys_world (pr_sys st)) = Inr (fst (rn_world d), snd (rn_world d))" by auto
    from pool_step.resize [OF sets_run(5) u, of "pg_restart pg"] show ?thesis
      using sets_run(1,2) t by (auto simp: set_sets_def)
  qed (use sets_run(2) in \<open>simp add: set_sets_def\<close>)
next
  case (pool_runs act sys)
  then show ?thesis by auto
next
  case (server_returns e)
  then show ?thesis by (simp add: serve_returns_def split: sum.split)
next
  case (command_runs close_error)
  then show ?thesis using command_Run_sys by metis
qed (simp_all add: receive_signal_def)

lemma process_refines_run:
  assumes "wired_program lib parse_ip pg" and "process_run su pg st0 ls st"
  shows "\<exists>acts. pool_run (pg_assign pg) (pg_restart pg) (pr_sys st0) acts (pr_sys st) \<and> Stop \<notin> set acts
    \<and> length acts \<le> length ls"
  using assms(2)
proof (induction rule: process_run.induct)
  case process_starts
  show ?case by (intro exI [of _ "[]"]) (simp add: run_nil)
next
  case (process_goes_on ls st l st')
  then obtain acts where a: "pool_run (pg_assign pg) (pg_restart pg) (pr_sys st0) acts (pr_sys st)" "Stop \<notin> set acts"
    "length acts \<le> length ls" by blast
  from process_step_pool [OF assms(1) process_goes_on.hyps(2)] show ?case
  proof (elim disjE exE conjE)
    assume "pr_sys st' = pr_sys st"
    then show ?thesis using a by (intro exI [of _ acts]) simp
  next
    fix act assume "act \<noteq> Stop" "pool_step (pg_assign pg) (pg_restart pg) (pr_sys st) act (pr_sys st')"
    then show ?thesis using a run_snoc [OF a(1)] by (intro exI [of _ "acts @ [act]"]) auto
  qed
qed

end
