(* ===== verification/Command_Safety.thy ===== *)
theory Command_Safety
  imports Command_Run
begin

text \<open>
  What holds of the controller processes of \<open>Command_Run\<close>: their pool is a run of the pool of
  \<open>Pool_Runtime\<close>; when every informer delivers objects of its kind and the storages do not panic, no
  goroutine panics and the process ends by a signal or by its server; and the command does not wait
  for its controllers.
\<close>

section \<open>Controllers that do not panic\<close>

text \<open>Stateful sets with their replicas filled in, as the API server stores them.\<close>

definition sized_set :: "object \<Rightarrow> bool" where
  "sized_set ob = (case ob of StatefulSetObj ss \<Rightarrow> st_replicas ss \<noteq> None | _ \<Rightarrow> False)"

lemma sized_set_iff: "sized_set ob \<longleftrightarrow> (\<exists>ss n. ob = StatefulSetObj ss \<and> st_replicas ss = Some n)"
  by (auto simp: sized_set_def split: object.split)

lemma kinds_are_objects:
  "is_pod ob \<longrightarrow> is_runtime_object ob" "sized_set ob \<longrightarrow> is_runtime_object ob" "is_swarm ob \<longrightarrow> is_runtime_object ob"
  by (auto simp: is_pod_iff sized_set_iff is_swarm_iff is_runtime_object_def)

lemma part_step_typed:
  assumes "queue_holds add (su_queue su) (su_event_of su)" and "calls_typed add (pt_notify pt)"
    and "\<forall>ob. kind ob \<longrightarrow> is_runtime_object ob" and "\<forall>n. delivers n \<longrightarrow> of_kind kind n"
    and "part_step su delivers pt c t (Inr c')" and "queue_typed (su_queue su) (su_event_of su) kind (rn_queue c)"
  shows "queue_typed (su_queue su) (su_event_of su) kind (rn_queue c')"
  using assms(5)
proof cases
  case (part_runs a)
  from part_runs(2) show ?thesis
  proof cases
    case (next_item q s go_on)
    have "processNextItem (eq_ops (su_queue su)) (su_event_of su) (pt_handle pt (su_get_by_key su (rn_store c)))
        (rn_queue c, rn_world c) = Inr ((q, s), go_on)" using next_item(5) by (simp add: queue_library_def)
    from queue_typed_mono [OF assms(6) next_item_items [OF assms(1) this]] show ?thesis using next_item by simp
  next
    case (deliver q x s)
    then have "eq_moves (su_queue su) (rn_queue c) q" by (simp add: queue_library_def)
    from queue_typed_mono [OF assms(6) queue_holdsD(8) [OF assms(1) this]] show ?thesis using deliver by simp
  next
    case stopped
    then show ?thesis
      using queue_typed_mono [OF assms(6) queue_holdsD(7) [OF assms(1)]] by (simp add: run_defs queue_library_def)
  qed (use assms(6) in \<open>simp_all add: run_defs\<close>)
next
  case (part_called n q x)
  have "of_kind kind n" using assms(4) part_called(4) by blast
  then have "q = rn_queue c \<or> (\<exists>e. event_kind kind e \<and> q = add (rn_queue c) e)"
    using assms(2,3) part_called(5) unfolding calls_typed_def by (metis Inr_inject)
  then show ?thesis using part_called(2) assms(6) queue_typed_add [OF assms(1,6)] by auto
qed

lemma part_step_no_panic:
  assumes "queue_holds add (su_queue su) (su_event_of su)" and "calls_typed add (pt_notify pt)"
    and "\<forall>ob. kind ob \<longrightarrow> is_runtime_object ob" and "\<forall>n. delivers n \<longrightarrow> of_kind kind n"
    and "queue_typed (su_queue su) (su_event_of su) kind (rn_queue c)"
    and "\<forall>g e. event_kind kind e \<longrightarrow> (\<exists>r. pt_handle pt g e (rn_world c) = Inr r)"
  shows "\<not> part_step su delivers pt c t (Inl e)"
proof
  assume "part_step su delivers pt c t (Inl e)"
  then show False
  proof cases
    case (part_panics pc)
    let ?ev = "\<lambda>i. if i \<in> eq_items (su_queue su) (rn_queue c) then su_event_of su i else None"
    have "\<forall>i e. ?ev i = Some e \<longrightarrow> (\<exists>r. pt_handle pt (su_get_by_key su (rn_store c)) e (rn_world c) = Inr r)"
      using assms(5,6) by (auto simp: queue_typed_def pred_option_def)
    from next_item_total [of ?ev "pt_handle pt (su_get_by_key su (rn_store c))" "rn_world c" "eq_ops (su_queue su)"
        "rn_queue c", OF this]
    show False using part_panics(4) unfolding next_item_restrict [OF assms(1)] by auto
  next
    case (part_call_panics n pc)
    have "of_kind kind n" using assms(4) part_call_panics(4) by blast
    then show False using assms(2,3) part_call_panics(5) unfolding calls_typed_def by (metis Inl_Inr_False)
  qed
qed

lemma sts_handle_total:
  assumes "assignment_inv (p_state p)" and "pool_inv p" and "range_order ro"
    and "\<forall>st. assignment_inv st \<longrightarrow> \<not> panics (assign d (Workloads st))" and "event_kind sized_set e"
  shows "\<exists>r. sts_handle g assign ro e (p, d) = Inr r"
proof -
  have one: "\<exists>pd. UpdateExpectedSize BalanceWorkload Workloads assign ro n (p, d) = Inr pd" for n
    by (rule asg.update_returns [OF assms(1-3)]) (use assms(4) in simp)
  show ?thesis
  proof (cases "g (GetKey e)")
    case (Inl er)
    then show ?thesis by (simp add: sts_handle_def processor_Handle_def)
  next
    case (Inr exists)
    show ?thesis
    proof (cases e)
      case (Event key ob)
      then obtain ss n where ob: "ob = StatefulSetObj ss" "st_replicas ss = Some n"
        using assms(5) by (auto simp: event_kind_def sized_set_iff)
      show ?thesis
        using one [of n] one [of 0] Inr Event ob
        by (cases exists) (auto simp: sts_handle_def processor_Handle_dispatch dispatch_def sts_Created_def sts_Deleted_def
            as_statefulSet_def replicas_of_def)
    next
      case (UpdateEvent key old new)
      then obtain so ss n where ob: "old = StatefulSetObj so" "new = StatefulSetObj ss" "st_replicas ss = Some n"
        using assms(5) by (auto simp: event_kind_def sized_set_iff)
      show ?thesis
        using one [of n] one [of 0] Inr UpdateEvent ob
        by (cases exists) (auto simp: sts_handle_def processor_Handle_dispatch dispatch_def sts_Updated_def sts_Deleted_def
            as_statefulSet_def replicas_of_def)
    qed
  qed
qed

section \<open>The invariant of the process\<close>

text \<open>
  The storages and the restarts may fail, but they do not panic in the worlds that they lead to when
  they are given what the pool computes.
\<close>

definition storage_safe ::
    "('d \<Rightarrow> bool) \<Rightarrow> ('d \<Rightarrow> workloads \<Rightarrow> ('d \<times> goerror option) go) \<Rightarrow> ('d \<Rightarrow> string \<Rightarrow> ('d \<times> goerror option) go)
     \<Rightarrow> bool" where
  "storage_safe okd assign restart \<longleftrightarrow>
     (\<forall>d st. okd d \<longrightarrow> assignment_inv st \<longrightarrow> (\<exists>d' e. assign d (Workloads st) = Inr (d', e) \<and> okd d'))
     \<and> (\<forall>d n. okd d \<longrightarrow> (\<exists>d' e. restart d n = Inr (d', e) \<and> okd d'))"

lemma storage_safeD:
  assumes "storage_safe okd assign restart" and "okd d"
  shows "assignment_inv st \<Longrightarrow> assign d (Workloads st) = Inr (d', e) \<Longrightarrow> okd d'"
    and "restart d n = Inr (d', e) \<Longrightarrow> okd d'"
    and "assignment_inv st \<Longrightarrow> \<not> panics (assign d (Workloads st))" and "\<not> panics (restart d n)"
proof -
  have a: "\<exists>d' e. assign d (Workloads st) = Inr (d', e) \<and> okd d'" if "assignment_inv st"
    using assms that unfolding storage_safe_def by blast
  have r: "\<exists>d' e. restart d n = Inr (d', e) \<and> okd d'" using assms unfolding storage_safe_def by blast
  show "assignment_inv st \<Longrightarrow> assign d (Workloads st) = Inr (d', e) \<Longrightarrow> okd d'" using a by auto
  show "restart d n = Inr (d', e) \<Longrightarrow> okd d'" using r by auto
  show "assignment_inv st \<Longrightarrow> \<not> panics (assign d (Workloads st))" using a by auto
  show "\<not> panics (restart d n)" using r by auto
qed

text \<open>
  The hypotheses on the library: the queues hold what was added, each informer delivers objects of
  its kind.
\<close>

definition orderly :: "'q client_go \<Rightarrow> ('q, 'i, 'x) surroundings \<Rightarrow> bool" where
  "orderly lib su \<longleftrightarrow>
     queue_holds (cg_Add lib) (su_queue su) (su_event_of su) \<and> eq_items (su_queue su) (cg_NewQueue lib) = {}
     \<and> (\<forall>n. su_pods su n \<longrightarrow> of_kind is_pod n) \<and> (\<forall>n. su_sets su n \<longrightarrow> of_kind sized_set n)
     \<and> (\<forall>n. su_swarms su n \<longrightarrow> of_kind is_swarm n)"

definition queues_typed :: "('q, 'i, 'x) surroundings \<Rightarrow> ('q, 'x, 'd, 'ip) process \<Rightarrow> bool" where
  "queues_typed su st \<longleftrightarrow>
     queue_typed (su_queue su) (su_event_of su) is_pod (rn_queue (pr_pods st))
     \<and> queue_typed (su_queue su) (su_event_of su) sized_set (rn_queue (pr_sets st))
     \<and> queue_typed (su_queue su) (su_event_of su) is_swarm (rn_queue (pr_swarms st))"

text \<open>How a process may have ended, given the labels of its steps.\<close>

definition ended_by :: "label list \<Rightarrow> exit option \<Rightarrow> bool" where
  "ended_by ls x \<longleftrightarrow>
     (case x of
        None \<Rightarrow> True
      | Some (ExitStatus n) \<Rightarrow> n = 0 \<and> last ls = Command \<and> Signal \<in> set ls \<or> n = 1 \<and> last ls = Server
      | Some KilledBySignal \<Rightarrow> last ls = Signal
      | Some (GoPanic pc) \<Rightarrow> False)"

definition signal_seen :: "label list \<Rightarrow> ('q, 'x, 'd, 'ip) process \<Rightarrow> bool" where
  "signal_seen ls st \<longleftrightarrow> (pr_signal st \<or> AwaitSignal < pr_stage st \<longrightarrow> Signal \<in> set ls)"

lemma queues_typed_step:
  assumes "wired_program lib parse_ip pg" and "orderly lib su" and "process_step su pg st l st'" and "queues_typed su st"
  shows "queues_typed su st'"
proof -
  have q: "queue_holds (cg_Add lib) (su_queue su) (su_event_of su)"
    and d: "\<forall>n. su_pods su n \<longrightarrow> of_kind is_pod n" "\<forall>n. su_sets su n \<longrightarrow> of_kind sized_set n"
      "\<forall>n. su_swarms su n \<longrightarrow> of_kind is_swarm n"
    using assms(2) by (simp_all add: orderly_def)
  have k: "\<forall>ob. is_pod ob \<longrightarrow> is_runtime_object ob" "\<forall>ob. sized_set ob \<longrightarrow> is_runtime_object ob"
    "\<forall>ob. is_swarm ob \<longrightarrow> is_runtime_object ob" by (simp_all add: kinds_are_objects)
  have t: "queue_typed (su_queue su) (su_event_of su) is_pod (rn_queue (pods_view st))"
    "queue_typed (su_queue su) (su_event_of su) sized_set (rn_queue (sets_view st))"
    "queue_typed (su_queue su) (su_event_of su) is_swarm (rn_queue (pr_swarms st))"
    using assms(4) by (simp_all add: queues_typed_def pods_view_def sets_view_def)
  from assms(3) show ?thesis
  proof cases
    case (pods_run t c)
    have "calls_typed (cg_Add lib) (pt_notify (pg_pods pg))" using assms(1) by (simp add: wired_program_def)
    from part_step_typed [OF q this k(1) d(1) pods_run(5) t(1)] show ?thesis
      using pods_run(2) assms(4) by (simp add: queues_typed_def set_pods_def)
  next
    case (sets_run ro t c)
    have "calls_typed (cg_Add lib) (pt_notify (pg_sets pg ro))" using assms(1) by (simp add: wired_program_def)
    from part_step_typed [OF q this k(2) d(2) sets_run(6) t(2)] show ?thesis
      using sets_run(2) assms(4) by (simp add: queues_typed_def set_sets_def)
  next
    case (swarms_run p t w)
    have "calls_typed (cg_Add lib) (pt_notify p)" using assms(1) swarms_run(5) by (simp add: wired_program_def)
    from part_step_typed [OF q this k(3) d(3) swarms_run(6) t(3)] show ?thesis
      using swarms_run(2) assms(4) by (simp add: queues_typed_def)
  next
    case (server_returns e)
    then show ?thesis using assms(4) by (simp add: queues_typed_def serve_returns_def split: sum.split)
  next
    case (command_runs close_error)
    then show ?thesis
      using assms(4)
      by (auto simp: queues_typed_def command_Run_def internal_Run_def external_Run_def
          split: option.splits stage.splits if_splits)
  qed (use assms(4) in \<open>simp_all add: queues_typed_def receive_signal_def\<close>)
qed

lemma process_step_ended:
  assumes "wired_program lib parse_ip pg" and "orderly lib su" and "process_step su pg st l st'"
    and "queues_typed su st" and "sys_inv t (pr_sys st)" and "signal_seen ls st"
    and "storage_safe okd (pg_assign pg) (pg_restart pg)" and "okd (sys_world (pr_sys st))"
  shows "ended_by (ls @ [l]) (pr_exit st') \<and> signal_seen (ls @ [l]) st'"
proof -
  have q: "queue_holds (cg_Add lib) (su_queue su) (su_event_of su)"
    and d: "\<forall>n. su_pods su n \<longrightarrow> of_kind is_pod n" "\<forall>n. su_sets su n \<longrightarrow> of_kind sized_set n"
      "\<forall>n. su_swarms su n \<longrightarrow> of_kind is_swarm n"
    using assms(2) by (simp_all add: orderly_def)
  have total: "\<forall>st'. assignment_inv st' \<longrightarrow> \<not> panics (pg_assign pg (sys_world (pr_sys st)) (Workloads st'))"
    "\<forall>n. \<not> panics (pg_restart pg (sys_world (pr_sys st)) n)"
    using storage_safeD(3,4) [OF assms(7,8)] by simp_all
  have k: "\<forall>ob. is_pod ob \<longrightarrow> is_runtime_object ob" "\<forall>ob. sized_set ob \<longrightarrow> is_runtime_object ob"
    "\<forall>ob. is_swarm ob \<longrightarrow> is_runtime_object ob" by (simp_all add: kinds_are_objects)
  have t: "queue_typed (su_queue su) (su_event_of su) is_pod (rn_queue (pods_view st))"
    "queue_typed (su_queue su) (su_event_of su) sized_set (rn_queue (sets_view st))"
    "queue_typed (su_queue su) (su_event_of su) is_swarm (rn_queue (pr_swarms st))"
    using assms(4) by (simp_all add: queues_typed_def pods_view_def sets_view_def)
  have inv: "assignment_inv (p_state (sys_pool (pr_sys st)))" "pool_inv (sys_pool (pr_sys st))"
    "\<forall>a \<in> pending (pr_sys st). a < length (p_heap (sys_pool (pr_sys st)))"
    using assms(5) by (simp_all add: sys_inv_def)
  from assms(3) show ?thesis
  proof cases
    case (pods_end t e)
    have "calls_typed (cg_Add lib) (pt_notify (pg_pods pg))"
      "\<forall>g. pt_handle (pg_pods pg) g = pod_handle g parse_ip" using assms(1) by (simp_all add: wired_program_def)
    moreover from this(2) have "\<forall>g e. event_kind is_pod e \<longrightarrow> (\<exists>r. pt_handle (pg_pods pg) g e (rn_world (pods_view st)) = Inr r)"
      using pod_handle_total by metis
    ultimately show ?thesis
      using part_step_no_panic [OF q _ k(1) d(1) t(1)] pods_end(5) by blast
  next
    case (sets_end ro t e)
    have "calls_typed (cg_Add lib) (pt_notify (pg_sets pg ro))"
      "\<forall>g. pt_handle (pg_sets pg ro) g = sts_handle g (pg_assign pg) ro" using assms(1) by (simp_all add: wired_program_def)
    moreover from this(2) have "\<forall>g e. event_kind sized_set e \<longrightarrow> (\<exists>r. pt_handle (pg_sets pg ro) g e (rn_world (sets_view st)) = Inr r)"
      using sts_handle_total [where assign = "pg_assign pg" and d = "sys_world (pr_sys st)", OF inv(1,2) sets_end(5) total(1)]
      by (simp add: sets_view_def)
    ultimately show ?thesis
      using part_step_no_panic [OF q _ k(2) d(2) t(2)] sets_end(6) by blast
  next
    case (swarms_end p t e)
    have "calls_typed (cg_Add lib) (pt_notify p)"
      "\<forall>g e. event_kind is_swarm e \<longrightarrow> (\<exists>r. pt_handle p g e (rn_world (pr_swarms st)) = Inr r)"
      using assms(1) swarms_end(5) by (simp_all add: wired_program_def)
    from part_step_no_panic [OF q this(1) k(3) d(3) t(3) this(2)] show ?thesis using swarms_end(6) by blast
  next
    case (restart_panics a pc)
    have "a < length (p_heap (sys_pool (pr_sys st)))" using inv(3) restart_panics(4) by force
    then show ?thesis
      using restart_panics(5) total(2) by (auto simp: restart_call_def deref_def) (metis panics_simps(1))+
  next
    case (finish_panics a pc)
    have "a < length (p_heap (sys_pool (pr_sys st)))" using inv(3) finish_panics(4) by force
    then show ?thesis using finish_panics(5) by (simp add: restart_finish_def deref_def)
  next
    case (server_returns e)
    then show ?thesis
      using assms(6)
      by (auto simp: ended_by_def signal_seen_def serve_returns_def serve_goroutine_def exit_of_def)
  next
    case (command_runs close_error)
    then show ?thesis
      using assms(6)
      by (auto simp: ended_by_def signal_seen_def command_Run_def internal_Run_def external_Run_def less_stage_def
          stage_rank_def split: option.splits stage.splits if_splits)
  next
    case (signal_comes)
    then show ?thesis
      by (auto simp: ended_by_def signal_seen_def receive_signal_def)
  qed (use assms(6) in \<open>simp_all add: ended_by_def signal_seen_def set_pods_def set_sets_def\<close>)
qed

lemma storage_safe_step:
  assumes "storage_safe okd assign restart" and "okd (sys_world s)" and "sys_inv t s"
    and "pool_step assign restart s act s'"
  shows "okd (sys_world s')"
  using assms(4)
proof cases
  case (resize ro n p d)
  have inv: "assignment_inv (p_state (sys_pool s))" "pool_inv (sys_pool s)" using assms(3) by (simp_all add: sys_inv_def)
  show ?thesis
  proof (cases "p_expectedSize (sys_pool s) = n")
    case True
    then show ?thesis using resize assms(2) by (auto simp: UpdateExpectedSize_def)
  next
    case False
    from asg.update_result [OF inv resize(3) False resize(4)] obtain st e
      where st: "assignment_inv st" "assign (sys_world s) (Workloads st) = Inr (d, e)" by metis
    show ?thesis using storage_safeD(1) [OF assms(1,2) st] resize by simp
  qed
next
  case (call i a d)
  then obtain n where "restart (sys_world s) n = Inr (d, None)" by (auto simp: restart_call_def go_bind_Inr_iff)
  from storage_safeD(2) [OF assms(1,2) this] show ?thesis using call(2) by simp
next
  case (call_fails i a d e)
  then obtain n where "restart (sys_world s) n = Inr (d, Some e)" by (auto simp: restart_call_def go_bind_Inr_iff)
  from storage_safeD(2) [OF assms(1,2) this] show ?thesis using call_fails(2) by simp
qed (use assms(2) in simp_all)

text \<open>
  The storages of the commands, over a cluster in which the workers' config map, if it is there, has
  data: an update with data and the deletion of a pod leave it with data.
\<close>

definition config_has_data :: "'k wiring \<Rightarrow> 'k \<Rightarrow> bool" where
  "config_has_data c k \<longleftrightarrow>
     (case kube_getConfigMap (wi_kube c) k (cp_namespace (wi_cm c)) (cp_configMapName (wi_cm c)) of
        Inl e \<Rightarrow> True | Inr cm \<Rightarrow> cm_data cm \<noteq> None)"

definition keeps_data :: "'k wiring \<Rightarrow> bool" where
  "keeps_data c \<longleftrightarrow>
     (\<forall>k ns cm k' r. config_has_data c k \<longrightarrow> cm_data cm \<noteq> None \<longrightarrow> cm_data cm \<noteq> Some []
        \<longrightarrow> kube_updateConfigMap (wi_kube c) k ns cm = (k', r) \<longrightarrow> config_has_data c k')
     \<and> (\<forall>k ns name. config_has_data c k \<longrightarrow> config_has_data c (fst (kube_deletePod (wi_kube c) k ns name)))"

lemma swarm_Set_returns:
  assumes "range_order ro" and "no_nil (ws_workloads a)" and "mwf (ws_workloads a)"
  shows "\<exists>k' e. swarm_Set client now ro p k a = Inr (k', e)"
  using swarm_set_panics [OF assms(1,3), of client now p k] assms(2) by (auto simp: not_panics_iff)

lemma controller_storage_safe:
  assumes "separate_laws (wi_kube c) (wi_versioned c)" and "range_order (wi_order c)" and "keeps_data c"
  shows "storage_safe (config_has_data c) (controller_assign c) (controller_restart c)"
  unfolding storage_safe_def
proof (intro conjI allI impI)
  fix d n assume d: "config_has_data c d"
  have "config_has_data c (fst (kube_deletePod (wi_kube c) d (pp_namespace (wi_pod c)) n))"
    using assms(3) d unfolding keeps_data_def by blast
  then show "\<exists>d' e. controller_restart c d n = Inr (d', e) \<and> config_has_data c d'"
    by (cases "kube_deletePod (wi_kube c) d (pp_namespace (wi_pod c)) n"; cases "snd (kube_deletePod (wi_kube c) d (pp_namespace (wi_pod c)) n)")
      (simp_all add: controller_restart_def executor_RestartWorker_def RefreshPod_def)
next
  fix d st assume d: "config_has_data c d" and inv: "assignment_inv st"
  have wf: "no_nil (ws_workloads (Workloads st))" "mwf (ws_workloads (Workloads st))"
    using inv by (simp_all add: assignment_inv_def Workloads_def)
  have cm: "\<exists>d' e. cm_Set (wi_kube c) (wi_encode c) (wi_cm c) d (Workloads st) = Inr (d', e) \<and> config_has_data c d'"
  proof (cases "kube_getConfigMap (wi_kube c) d (cp_namespace (wi_cm c)) (cp_configMapName (wi_cm c))")
    case (Inl er)
    then show ?thesis using d by (simp add: cm_Set_def)
  next
    case (Inr cm)
    then obtain data where data: "cm_data cm = Some data" using d by (auto simp: config_has_data_def)
    show ?thesis
    proof (cases "wi_encode c (Workloads st)")
      case (Inr buf)
      let ?cm1 = "cm\<lparr>cm_data := Some (AList.update defaultConfigKey buf data)\<rparr>"
      obtain k' r where u: "kube_updateConfigMap (wi_kube c) d (cp_namespace (wi_cm c)) ?cm1 = (k', r)" by (metis surj_pair)
      have "AList.update defaultConfigKey buf data \<noteq> []" by (cases data) auto
      then have "cm_data ?cm1 \<noteq> None" "cm_data ?cm1 \<noteq> Some []" by simp_all
      then have "config_has_data c k'" using assms(3) d u unfolding keeps_data_def by blast
      then show ?thesis
        using \<open>kube_getConfigMap _ _ _ _ = Inr cm\<close> Inr data u by (cases r) (simp_all add: cm_Set_def Let_def)
    qed (use Inr d in \<open>simp add: cm_Set_def\<close>)
  qed
  have sw: "\<exists>d2 e. swarm_Set (wi_versioned c) (wi_now c) (wi_order c) (wi_swarm c) d1 (Workloads st) = Inr (d2, e)
      \<and> config_has_data c d2" if "config_has_data c d1" for d1
    using swarm_Set_returns [OF assms(2) wf] swarm_Set_frame [OF assms(1)] that unfolding config_has_data_def by metis
  from cm obtain d1 e1 where c1: "cm_Set (wi_kube c) (wi_encode c) (wi_cm c) d (Workloads st) = Inr (d1, e1)" "config_has_data c d1"
    by blast
  from sw [OF c1(2)] obtain d2 e2 where
    "swarm_Set (wi_versioned c) (wi_now c) (wi_order c) (wi_swarm c) d1 (Workloads st) = Inr (d2, e2)" "config_has_data c d2"
    by blast
  then show "\<exists>d' e. controller_assign c d (Workloads st) = Inr (d', e) \<and> config_has_data c d'"
    using c1 by (cases e1; cases e2) (simp_all add: controller_assign_def executor_Assign_def ProviderMiddleware_Set_def)
qed

section \<open>Runs\<close>

lemma process_run_in_order:
  assumes "wired_program lib parse_ip pg" and "orderly lib su"
    and "storage_safe okd (pg_assign pg) (pg_restart pg)" and "process_run su pg st0 ls st"
    and "queues_typed su st0" and "sys_inv t (pr_sys st0)" and "okd (sys_world (pr_sys st0))"
    and "pr_exit st0 = None" and "signal_seen [] st0"
  shows "queues_typed su st \<and> sys_inv t (pr_sys st) \<and> okd (sys_world (pr_sys st))
    \<and> ended_by ls (pr_exit st) \<and> signal_seen ls st"
  using assms(4)
proof (induction rule: process_run.induct)
  case process_starts
  then show ?case using assms(5-9) by (simp add: ended_by_def)
next
  case (process_goes_on ls st l st')
  then have i: "queues_typed su st" "sys_inv t (pr_sys st)" "okd (sys_world (pr_sys st))" "signal_seen ls st" by simp_all
  have e: "ended_by (ls @ [l]) (pr_exit st') \<and> signal_seen (ls @ [l]) st'"
    by (rule process_step_ended [OF assms(1,2) process_goes_on.hyps(2) i(1,2,4) assms(3) i(3)])
  have q: "queues_typed su st'" by (rule queues_typed_step [OF assms(1,2) process_goes_on.hyps(2) i(1)])
  from process_step_pool [OF assms(1) process_goes_on.hyps(2)]
  have "sys_inv t (pr_sys st') \<and> okd (sys_world (pr_sys st'))"
  proof (elim disjE exE conjE)
    fix act assume p: "pool_step (pg_assign pg) (pg_restart pg) (pr_sys st) act (pr_sys st')"
    show ?thesis using sys_inv_step [OF p i(2)] storage_safe_step [OF assms(3) i(3,2) p] by simp
  qed (use i in simp)
  then show ?case using e q by simp
qed

lemma process_start_facts:
  "pr_sys (process_start v lib config k0 x) = start (wl_jobs config) (v WatchLabel) k0"
  "pr_exit (process_start v lib config k0 x) = None" "signal_seen [] (process_start v lib config k0 x)"
  "eq_items (su_queue su) (cg_NewQueue lib) = {} \<Longrightarrow> queues_typed su (process_start v lib config k0 x)"
  by (simp_all add: process_start_def start_def command_pool_def signal_seen_def less_stage_def stage_rank_def
      queues_typed_def queue_typed_def fresh_run_def)

text \<open>The steps that the command itself has left.\<close>

definition command_left :: "('q, 'x, 'd, 'ip) process \<Rightarrow> nat" where
  "command_left st = (if pr_exit st = None then 9 - stage_rank (pr_stage st) else 0)"

lemma command_left_step:
  "process_step su pg st l st' \<Longrightarrow> command_left st' + (if l = Command then 1 else 0) \<le> command_left st"
proof (induction rule: process_step.induct)
  case (command_runs st close_error st')
  then show ?case
    by (auto simp: command_left_def command_Run_def internal_Run_def external_Run_def stage_rank_def
        split: option.splits stage.splits if_splits)
next
  case (server_returns st e)
  then show ?case by (simp add: command_left_def serve_returns_def split: sum.split)
qed (simp_all add: command_left_def set_pods_def set_sets_def receive_signal_def)

lemma command_left_run:
  "process_run su pg st ls st' \<Longrightarrow> command_left st' + count_list ls Command \<le> command_left st"
proof (induction rule: process_run.induct)
  case (process_goes_on ls st1 l st2)
  then show ?case using command_left_step [OF process_goes_on.hyps(2)] by auto
qed simp

lemma closing_iff: "pr_exit st = None \<Longrightarrow> CloseServer \<le> pr_stage st \<longleftrightarrow> command_left st \<le> 3"
  by (cases "pr_stage st") (simp_all add: command_left_def less_eq_stage_def stage_rank_def)

text \<open>After the signal the command goes on by itself.\<close>

lemma closing_step:
  assumes "pr_exit st = None" and "CloseServer \<le> pr_stage st"
  obtains st' where "process_step su pg st Command st'" and "pr_exit st' = None \<longrightarrow> CloseServer \<le> pr_stage st'"
    and "pr_exit st' = None \<or> pr_exit st' = Some (ExitStatus 0)" and "command_left st' < command_left st"
    and "pr_sys st' = pr_sys st" and "rn_worker (pr_pods st') = rn_worker (pr_pods st)"
    and "rn_queue (pr_pods st') = rn_queue (pr_pods st)" and "rn_worker (pr_sets st') = rn_worker (pr_sets st)"
    and "rn_queue (pr_sets st') = rn_queue (pr_sets st)"
proof -
  obtain st' where r: "command_Run pg None st = Some st'"
    using assms(2)
    by (cases "pr_stage st"; cases "pg_swarms pg")
      (auto simp: command_Run_def internal_Run_def external_Run_def less_eq_stage_def stage_rank_def)
  note defs = command_Run_def internal_Run_def external_Run_def less_eq_stage_def stage_rank_def command_left_def
  have "(pr_exit st' = None \<longrightarrow> CloseServer \<le> pr_stage st') \<and> (pr_exit st' = None \<or> pr_exit st' = Some (ExitStatus 0))"
    using r assms by (auto simp: defs split: option.splits stage.splits if_splits)
  moreover have "command_left st' < command_left st"
    using r assms by (auto simp: defs split: option.splits stage.splits if_splits)
  moreover have "rn_worker (pr_pods st') = rn_worker (pr_pods st)" "rn_queue (pr_pods st') = rn_queue (pr_pods st)"
    "rn_worker (pr_sets st') = rn_worker (pr_sets st)" "rn_queue (pr_sets st') = rn_queue (pr_sets st)"
    using r by (auto simp: defs split: option.splits stage.splits if_splits)
  ultimately show thesis
    using that [OF command_runs [OF assms(1) r]] command_Run_sys [OF r] by simp
qed

section \<open>Properties\<close>

text \<open>
  C4 The processes of both commands refine the pool. Whatever informers, queues, server, signals and
  the goroutines of the pool do, in any order, what a run of the process does to the pool and the
  cluster is a run of the pool's own operations, of at most as many steps, that starts with the
  configured jobs and never stops the conciliation. So at every moment the pool is in order and its
  assignation is the one specified for its size, until the process ends.
\<close>

theorem process_refines_pool:
  assumes "pg = internal_program v cl lib parse_ip assign restart
      \<or> pg = external_program v cl swcl lib parse_ip assign restart show_swarm diff is_graphic"
    and "process_run su pg (process_start v lib config k0 x) ls st" and "int (length (wl_jobs config)) < 2 ^ 63"
  shows "\<exists>acts. pool_run assign restart (start (wl_jobs config) (v WatchLabel) k0) acts (pr_sys st)
    \<and> Stop \<notin> set acts \<and> length acts \<le> length ls \<and> pool_inv (sys_pool (pr_sys st))
    \<and> map_of (ws_workloads (Workloads (p_state (sys_pool (pr_sys st))))) =
        assignation (v WatchLabel) (wl_jobs config) (p_expectedSize (sys_pool (pr_sys st)))"
proof -
  have w: "wired_program lib parse_ip pg" using assms(1) internal_wired external_wired by blast
  have a: "pg_assign pg = assign" "pg_restart pg = restart"
    using assms(1) by (auto simp: internal_program_def external_program_def Let_def)
  obtain acts where r: "pool_run assign restart (start (wl_jobs config) (v WatchLabel) k0) acts (pr_sys st)"
    "Stop \<notin> set acts" "length acts \<le> length ls"
    using process_refines_run [OF w assms(2)] unfolding a process_start_facts(1) by blast
  have "sys_inv (assignation (v WatchLabel) (wl_jobs config)) (pr_sys st)"
    by (rule sys_inv_run [OF r(1) sys_inv_start [OF assms(3)]])
  then show ?thesis using r by (auto simp: sys_inv_def)
qed

text \<open>
  C5 How the process ends. With informers that deliver objects of their kinds, stateful sets that have
  their replicas filled in, and a cluster whose config map has data, no goroutine of the process ever
  panics, whatever reads and writes fail, and in whatever order everything happens: the process ends
  with status 0 by the command after a signal, with status 1 by a server that could not listen, or
  by a signal that comes before the command waits for it. Until then the queues hold events of their
  kinds.
\<close>

theorem process_ends_in_order:
  assumes "c = command_wiring v kube vers encode now order" and "separate_laws kube vers" and "range_order order"
    and "keeps_data c" and "config_has_data c k0"
    and "pg = internal_program v cl lib parse_ip (controller_assign c) (controller_restart c)
      \<or> pg = external_program v cl swcl lib parse_ip (controller_assign c) (controller_restart c) show_swarm diff is_graphic"
    and "orderly lib su" and "int (length (wl_jobs config)) < 2 ^ 63"
    and "process_run su pg (process_start v lib config k0 x) ls st"
  shows "(case pr_exit st of
        None \<Rightarrow> True
      | Some (ExitStatus n) \<Rightarrow> n = 0 \<and> last ls = Command \<and> Signal \<in> set ls \<or> n = 1 \<and> last ls = Server
      | Some KilledBySignal \<Rightarrow> last ls = Signal
      | Some (GoPanic pc) \<Rightarrow> False)
    \<and> queues_typed su st \<and> config_has_data c (sys_world (pr_sys st))"
proof -
  have w: "wired_program lib parse_ip pg" using assms(6) internal_wired external_wired by blast
  have a: "pg_assign pg = controller_assign c" "pg_restart pg = controller_restart c"
    using assms(6) by (auto simp: internal_program_def external_program_def Let_def)
  have safe: "storage_safe (config_has_data c) (pg_assign pg) (pg_restart pg)"
    unfolding a by (rule controller_storage_safe) (use assms(1-4) in \<open>simp_all add: command_wiring_def\<close>)
  note f = process_start_facts [where v = v and lib = lib and config = config and ?k0.0 = k0 and x = x]
  have inv: "sys_inv (assignation (v WatchLabel) (wl_jobs config)) (pr_sys (process_start v lib config k0 x))"
    unfolding f(1) by (rule sys_inv_start [OF assms(8)])
  have "config_has_data c (sys_world (pr_sys (process_start v lib config k0 x)))"
    unfolding f(1) using assms(5) by (simp add: start_def)
  moreover have "queues_typed su (process_start v lib config k0 x)"
    using assms(7) by (simp add: orderly_def process_start_facts(4))
  ultimately show ?thesis
    using process_run_in_order [OF w assms(7) safe assms(9) _ inv _ f(2,3)] unfolding ended_by_def by blast
qed

text \<open>
  C9 One missed deletion ends the process. When the informer of the pods or of the sets delivers the
  tombstone of a deletion that its watch missed, the type assertion in the event handler panics,
  whatever the state of its queue, and as nothing recovers from it the whole process ends: with it the
  restarts under way and the marks of the pool.
\<close>

theorem missed_deletion_ends_process:
  assumes "pg = internal_program v cl lib parse_ip assign restart
      \<or> pg = external_program v cl swcl lib parse_ip assign restart show_swarm diff is_graphic"
    and "pr_exit st = None" and "GoSets < pr_stage st" and "range_order ro"
  shows "(rn_informer (pr_pods st) \<and> su_pods su (OnDelete (Some (Tombstone key obj))) \<longrightarrow>
        process_step su pg st (Pods Informer) (st\<lparr>pr_exit := Some (GoPanic TypeAssertion)\<rparr>))
    \<and> (rn_informer (pr_sets st) \<and> su_sets su (OnDelete (Some (Tombstone key obj))) \<longrightarrow>
        process_step su pg st (Sets Informer) (st\<lparr>pr_exit := Some (GoPanic TypeAssertion)\<rparr>))
    \<and> (\<forall>q. pt_notify (pg_pods pg) (OnDelete (Some (Tombstone key obj))) q = Inl TypeAssertion
          \<and> pt_notify (pg_sets pg ro) (OnDelete (Some (Tombstone key obj))) q = Inl TypeAssertion)
    \<and> (\<forall>ls st'. process_run su pg (st\<lparr>pr_exit := Some (GoPanic TypeAssertion)\<rparr>) ls st' \<longrightarrow> ls = [])"
proof -
  have p: "pt_notify (pg_pods pg) (OnDelete (Some (Tombstone key obj))) q = Inl TypeAssertion"
    and s: "pt_notify (pg_sets pg ro) (OnDelete (Some (Tombstone key obj))) q = Inl TypeAssertion" for q
    using assms(1)
    by (auto simp: internal_program_def external_program_def Let_def part_of_controller_def internal_controllers_def
        external_controllers_def NewController_def NewEventProcessor_def NewResourceEventHandler_def notify_def
        handler_Delete_def as_runtime_object_def is_runtime_object_def)
  have e: "exit_of TypeAssertion = GoPanic TypeAssertion" by (simp add: exit_of_def)
  have stage: "GoPods < pr_stage st" using assms(3) by (simp add: less_stage_def stage_rank_def)
  have pods: "process_step su pg st (Pods Informer) (st\<lparr>pr_exit := Some (GoPanic TypeAssertion)\<rparr>)"
    if "rn_informer (pr_pods st)" "su_pods su (OnDelete (Some (Tombstone key obj)))"
  proof -
    have "rn_informer (pods_view st)" using that(1) by (simp add: pods_view_def)
    from pods_end [OF assms(2) stage part_call_panics [where delivers = "su_pods su" and su = su, OF this that(2) p]]
    show ?thesis unfolding e .
  qed
  have sets: "process_step su pg st (Sets Informer) (st\<lparr>pr_exit := Some (GoPanic TypeAssertion)\<rparr>)"
    if "rn_informer (pr_sets st)" "su_sets su (OnDelete (Some (Tombstone key obj)))"
  proof -
    have "rn_informer (sets_view st)" using that(1) by (simp add: sets_view_def)
    from sets_end [OF assms(2,3,4) part_call_panics [where delivers = "su_sets su" and su = su, OF this that(2) s]]
    show ?thesis unfolding e .
  qed
  have ended: "ls = [] \<and> st' = st\<lparr>pr_exit := Some (GoPanic TypeAssertion)\<rparr>"
    if "process_run su pg (st\<lparr>pr_exit := Some (GoPanic TypeAssertion)\<rparr>) ls st'" for ls st'
    using that
  proof (induction rule: process_run.induct)
    case (process_goes_on ls st1 l st2)
    then have "pr_exit st1 = Some (GoPanic TypeAssertion)" by simp
    moreover have "pr_exit st1 = None" using process_goes_on.hyps(2) by cases simp_all
    ultimately show ?case by simp
  qed simp
  show ?thesis using pods sets p s ended by blast
qed

text \<open>
  C10 The command does not wait for its controllers. After the signal it needs at most three statements
  of its own, each of which it can always execute, and in whatever state workers and queues are, it
  can come to its end at once: the process is then over with status 0, with a worker in the middle
  of its loop and the items of the queues unhandled, although closing the stop channel is what shuts
  the controllers down.
\<close>

theorem command_does_not_wait:
  assumes "pr_exit st = None" and "CloseServer \<le> pr_stage st"
  shows "(\<forall>ls st'. process_run su pg st ls st' \<longrightarrow> count_list ls Command \<le> 3
        \<and> (pr_exit st' = None \<longrightarrow> (\<exists>st2. process_step su pg st' Command st2)))
    \<and> (\<exists>n st'. process_run su pg st (replicate n Command) st' \<and> n \<le> 3 \<and> pr_exit st' = Some (ExitStatus 0)
        \<and> pr_sys st' = pr_sys st
        \<and> rn_worker (pr_pods st') = rn_worker (pr_pods st) \<and> rn_queue (pr_pods st') = rn_queue (pr_pods st)
        \<and> rn_worker (pr_sets st') = rn_worker (pr_sets st) \<and> rn_queue (pr_sets st') = rn_queue (pr_sets st))"
proof -
  have three: "command_left st \<le> 3" using assms closing_iff by blast
  have closing: "pr_exit st' = None \<longrightarrow> CloseServer \<le> pr_stage st'" if "process_run su pg st ls st'" for ls st'
    using command_left_run [OF that] three closing_iff [of st'] by linarith
  have first: "count_list ls Command \<le> 3 \<and> (pr_exit st' = None \<longrightarrow> (\<exists>st2. process_step su pg st' Command st2))"
    if r: "process_run su pg st ls st'" for ls st'
    using command_left_run [OF r] three closing [OF r] closing_step [of st' su pg] by (meson le_trans add_leD2)
  have run: "\<exists>n st'. process_run su pg st (replicate n Command) st' \<and> n \<le> 3 \<and> pr_exit st' = Some (ExitStatus 0)
        \<and> pr_sys st' = pr_sys st
        \<and> rn_worker (pr_pods st') = rn_worker (pr_pods st) \<and> rn_queue (pr_pods st') = rn_queue (pr_pods st)
        \<and> rn_worker (pr_sets st') = rn_worker (pr_sets st) \<and> rn_queue (pr_sets st') = rn_queue (pr_sets st)"
    if "process_run su pg st (replicate m Command) st1" "pr_exit st1 = None \<or> pr_exit st1 = Some (ExitStatus 0)"
      "pr_sys st1 = pr_sys st"
      "rn_worker (pr_pods st1) = rn_worker (pr_pods st)" "rn_queue (pr_pods st1) = rn_queue (pr_pods st)"
      "rn_worker (pr_sets st1) = rn_worker (pr_sets st)" "rn_queue (pr_sets st1) = rn_queue (pr_sets st)" for m st1
    using that
  proof (induction "command_left st1" arbitrary: m st1 rule: less_induct)
    case less
    have "count_list (replicate m Command) Command = m" by (induction m) simp_all
    then have m: "m \<le> 3" using first [OF less.prems(1)] by simp
    show ?case
    proof (cases "pr_exit st1")
      case None
      obtain st2 where s: "process_step su pg st1 Command st2" "pr_exit st2 = None \<or> pr_exit st2 = Some (ExitStatus 0)"
        "command_left st2 < command_left st1" "pr_sys st2 = pr_sys st1"
        "rn_worker (pr_pods st2) = rn_worker (pr_pods st1)" "rn_queue (pr_pods st2) = rn_queue (pr_pods st1)"
        "rn_worker (pr_sets st2) = rn_worker (pr_sets st1)" "rn_queue (pr_sets st2) = rn_queue (pr_sets st1)"
        using closing_step [OF None, of su pg] closing [OF less.prems(1)] None by metis
      have "process_run su pg st (replicate (Suc m) Command) st2"
        using process_goes_on [OF less.prems(1) s(1)] by (simp add: replicate_append_same)
      from less.hyps [OF s(3) this s(2)] show ?thesis using s(4-8) less.prems(3-7) by simp
    next
      case (Some e)
      with less.prems(2) have "pr_exit st1 = Some (ExitStatus 0)" by simp
      then show ?thesis using less.prems m by (intro exI [of _ m] exI [of _ st1]) simp
    qed
  qed
  show ?thesis using first run [of 0 st] process_starts assms(1) by (metis replicate_0)
qed

section \<open>Examples\<close>

definition example_surroundings :: "(event list, event, unit) surroundings" where
  "example_surroundings =
     \<lparr>su_queue = list_event_queue, su_event_of = Some, su_get_by_key = (\<lambda>x key. Inr True),
      su_pods = (\<lambda>n. n = OnAdd (Some (PodObj (example_pod ''w-0'' ''10.0.0.1'')))), su_sets = (\<lambda>n. False),
      su_swarms = (\<lambda>n. False)\<rparr>"

definition example_program :: "(event list, cluster, unit) program" where
  "example_program = internal_program example_settings example_core_client example_client_go (\<lambda>s. ())
     (controller_assign example_wiring) (controller_restart example_wiring)"

definition example_process :: "(event list, unit, cluster, unit) process" where
  "example_process = process_start example_settings example_client_go example_jobs example_cluster ()"

lemma example_orderly: "orderly example_client_go example_surroundings"
  using list_event_queue_holds
  by (simp add: orderly_def example_surroundings_def of_kind_def is_pod_def)
    (simp add: list_event_queue_def example_client_go_def)

lemma example_keeps_data: "keeps_data example_wiring" and example_has_data: "config_has_data example_wiring example_cluster"
  by (auto simp: keeps_data_def config_has_data_def example_wiring_def example_kube_def Let_def map_simps
      example_cluster_def example_cm_def cm_NewProvider_def split: option.splits if_splits)

text \<open>The pods' controller is started, its informer runs and delivers a pod, which is queued.\<close>

lemma example_process_run:
  obtains st where "process_run example_surroundings example_program example_process
      [Command, Pods (Goroutine MainGo), Pods Informer] st"
    and "length (rn_queue (pr_pods st)) = 1" and "pr_exit st = None"
proof -
  let ?run = "process_run example_surroundings example_program example_process"
  let ?pod = "PodObj (example_pod ''w-0'' ''10.0.0.1'')"
  define st1 where "st1 = example_process\<lparr>pr_stage := GoSets\<rparr>"
  define st2 where "st2 = set_pods (processor_Run_informer (pods_view st1)) st1"
  have e: "pr_exit example_process = None" "pr_exit st1 = None" "pr_exit st2 = None" "GoPods < pr_stage st1" "GoPods < pr_stage st2"
    by (simp_all add: example_process_def process_start_def st1_def st2_def set_pods_def less_stage_def stage_rank_def)
  have "command_Run example_program None example_process = Some st1"
    by (simp add: command_Run_def example_program_def internal_program_def internal_Run_def example_process_def
        process_start_def st1_def)
  from process_goes_on [OF process_starts command_runs [OF e(1) this]] have r1: "?run [Command] st1" by simp
  have "rn_main (pods_view st1) = Called"
    by (simp add: pods_view_def st1_def example_process_def process_start_def fresh_run_def)
  from part_runs [OF call_processor [OF this], of example_surroundings "su_pods example_surroundings" "pg_pods example_program"]
  have "part_step example_surroundings (su_pods example_surroundings) (pg_pods example_program) (pods_view st1)
      (Goroutine MainGo) (Inr (processor_Run_informer (pods_view st1)))"
    by (simp add: processor_Run_informer_def)
  from process_goes_on [OF r1 pods_run [OF e(2,4) this]]
  have r2: "?run [Command, Pods (Goroutine MainGo)] st2" by (simp add: st2_def)
  have q: "rn_queue (pods_view st2) = []" "rn_informer (pods_view st2)"
    by (simp_all add: st2_def st1_def example_process_def process_start_def fresh_run_def set_pods_def pods_view_def
        processor_Run_informer_def example_client_go_def)
  have "pt_notify (pg_pods example_program) (OnAdd (Some ?pod)) [] = Inr [Event ''swarm/w-0'' ?pod]"
    by (simp add: example_program_def internal_program_def part_of_controller_def notify_def command_defs handler_Add_def
        as_runtime_object_def is_runtime_object_def selector_Validate_def hasWatchedLabel_def getAppLabel_def
        example_client_go_def example_accessor_def example_key_def example_pod_def example_settings_def)
  then obtain ev where n: "pt_notify (pg_pods example_program) (OnAdd (Some ?pod)) (rn_queue (pods_view st2)) = Inr [ev]"
    using q(1) by auto
  have d: "su_pods example_surroundings (OnAdd (Some ?pod))" by (simp add: example_surroundings_def)
  note step = part_called [where su = example_surroundings and delivers = "su_pods example_surroundings" and x = "()", OF q(2) d n]
  from process_goes_on [OF r2 pods_run [OF e(3,5) step]]
  show thesis using that e(3) by (simp add: set_pods_def)
qed

theorem process_refines_pool_witness:
  "\<exists>st acts. length (rn_queue (pr_pods st)) = 1
    \<and> pool_run (controller_assign example_wiring) (controller_restart example_wiring)
        (start (wl_jobs example_jobs) ''w'' example_cluster) acts (pr_sys (st :: (event list, unit, cluster, unit) process))
    \<and> length acts \<le> 3"
proof -
  obtain st where r: "process_run example_surroundings example_program example_process
      [Command, Pods (Goroutine MainGo), Pods Informer] st" "length (rn_queue (pr_pods st)) = 1" "pr_exit st = None"
    by (rule example_process_run)
  have jobs: "int (length (wl_jobs example_jobs)) < 2 ^ 63" by (simp add: example_jobs_def)
  have label: "example_settings WatchLabel = ''w''" by (simp add: example_settings_def)
  have "example_program = internal_program example_settings example_core_client example_client_go (\<lambda>s. ())
      (controller_assign example_wiring) (controller_restart example_wiring)
    \<or> example_program = external_program example_settings example_core_client (undefined :: (unit, unit, unit, unit) rest)
      example_client_go (\<lambda>s. ()) (controller_assign example_wiring) (controller_restart example_wiring)
      (\<lambda>s. []) (\<lambda>a b. []) (\<lambda>c. True)"
    by (simp add: example_program_def)
  from process_refines_pool [OF this r(1) [unfolded example_process_def] jobs] r(2)
  show ?thesis unfolding label by (intro exI [of _ st]) auto
qed

theorem process_ends_in_order_witness:
  "\<exists>st. process_run example_surroundings example_program example_process [Command, Pods (Goroutine MainGo), Pods Informer] st
    \<and> length (rn_queue (pr_pods st)) = 1 \<and> queues_typed example_surroundings st"
proof -
  obtain st where r: "process_run example_surroundings example_program example_process
      [Command, Pods (Goroutine MainGo), Pods Informer] st" "length (rn_queue (pr_pods st)) = 1" "pr_exit st = None"
    by (rule example_process_run)
  have jobs: "int (length (wl_jobs example_jobs)) < 2 ^ 63" by (simp add: example_jobs_def)
  have pg: "example_program = internal_program example_settings example_core_client example_client_go (\<lambda>s. ())
      (controller_assign example_wiring) (controller_restart example_wiring)
    \<or> example_program = external_program example_settings example_core_client (undefined :: (unit, unit, unit, unit) rest)
      example_client_go (\<lambda>s. ()) (controller_assign example_wiring) (controller_restart example_wiring)
      (\<lambda>s. []) (\<lambda>a b. []) (\<lambda>c. True)"
    by (simp add: example_program_def)
  show ?thesis
    using r process_ends_in_order [OF example_command_wiring example_separate_laws range_order_rev example_keeps_data
        example_has_data pg example_orderly jobs r(1) [unfolded example_process_def]] by blast
qed

theorem missed_deletion_ends_process_witness:
  "\<exists>st. process_step (example_surroundings\<lparr>su_pods := (\<lambda>n. True)\<rparr>) example_program
      (example_process\<lparr>pr_stage := AwaitSignal, pr_pods := (pr_pods example_process)\<lparr>rn_informer := True\<rparr>\<rparr>) (Pods Informer) st
    \<and> pr_exit st = Some (GoPanic TypeAssertion)"
proof -
  let ?st = "example_process\<lparr>pr_stage := AwaitSignal, pr_pods := (pr_pods example_process)\<lparr>rn_informer := True\<rparr>\<rparr>"
  have pg: "example_program = internal_program example_settings example_core_client example_client_go (\<lambda>s. ())
      (controller_assign example_wiring) (controller_restart example_wiring)
    \<or> example_program = external_program example_settings example_core_client (undefined :: (unit, unit, unit, unit) rest)
      example_client_go (\<lambda>s. ()) (controller_assign example_wiring) (controller_restart example_wiring)
      (\<lambda>s. []) (\<lambda>a b. []) (\<lambda>c. True)"
    by (simp add: example_program_def)
  have alive: "pr_exit ?st = None" by (simp add: example_process_def process_start_def)
  have stage: "GoSets < pr_stage ?st" by (simp add: less_stage_def stage_rank_def)
  have inf: "rn_informer (pr_pods ?st)" "su_pods (example_surroundings\<lparr>su_pods := (\<lambda>n. True)\<rparr>) n" for n by simp_all
  show ?thesis
    using missed_deletion_ends_process [OF pg alive stage range_order_rev, of "example_surroundings\<lparr>su_pods := (\<lambda>n. True)\<rparr>"]
      inf by (intro exI [of _ "?st\<lparr>pr_exit := Some (GoPanic TypeAssertion)\<rparr>"] conjI) (blast, simp)
qed

theorem command_does_not_wait_witness:
  "\<exists>n st. process_run example_surroundings example_program
      (example_process\<lparr>pr_stage := CloseServer, pr_pods := (pr_pods example_process)\<lparr>rn_worker := Running,
         rn_queue := [Event ''swarm/w-0'' (PodObj (example_pod ''w-0'' ''10.0.0.1''))]\<rparr>\<rparr>) (replicate n Command) st
    \<and> pr_exit st = Some (ExitStatus 0) \<and> rn_worker (pr_pods st) = Running \<and> length (rn_queue (pr_pods st)) = 1"
proof -
  let ?st = "example_process\<lparr>pr_stage := CloseServer, pr_pods := (pr_pods example_process)\<lparr>rn_worker := Running,
         rn_queue := [Event ''swarm/w-0'' (PodObj (example_pod ''w-0'' ''10.0.0.1''))]\<rparr>\<rparr>"
  have "pr_exit ?st = None" "CloseServer \<le> pr_stage ?st" by (simp_all add: example_process_def process_start_def)
  from command_does_not_wait [OF this, THEN conjunct2, of example_surroundings example_program]
  obtain n st where r: "process_run example_surroundings example_program ?st (replicate n Command) st"
    "pr_exit st = Some (ExitStatus 0)" "rn_worker (pr_pods st) = rn_worker (pr_pods ?st)"
    "rn_queue (pr_pods st) = rn_queue (pr_pods ?st)" by (elim exE conjE)
  from r(3,4) have "rn_worker (pr_pods st) = Running" "length (rn_queue (pr_pods st)) = 1" by simp_all
  with r(1,2) show ?thesis by (intro exI [of _ n] exI [of _ st] conjI)
qed

end
