(* ===== verification/Published_State.thy ===== *)
theory Published_State
  imports Command_Safety
begin

text \<open>
  What the workers and the readers of the swarm see while a controller process runs: the processes of
  \<open>Command_Run\<close> over the storages of \<open>Executor\<close>. The config map and the swarm are two views of the
  cluster, which only an accepted change of size moves; the assignation that they show is the pool's.
\<close>

section \<open>The two views\<close>

text \<open>
  The cluster's documented behaviour: the deletion of a pod changes neither the config map nor the
  swarm that are read back.
\<close>

definition restarts_unseen :: "'k wiring \<Rightarrow> bool" where
  "restarts_unseen c \<longleftrightarrow>
     (\<forall>k ns pod ns' name.
        kube_getConfigMap (wi_kube c) (fst (kube_deletePod (wi_kube c) k ns pod)) ns' name =
          kube_getConfigMap (wi_kube c) k ns' name
        \<and> vc_getSwarm (wi_versioned c) (fst (kube_deletePod (wi_kube c) k ns pod)) ns' name =
          vc_getSwarm (wi_versioned c) k ns' name)"

lemma restart_views:
  assumes "restarts_unseen c" and "controller_restart c k name = Inr (k', e)"
  shows "config_shown c unmarshal decode k' = config_shown c unmarshal decode k"
    and "swarm_shown c k' = swarm_shown c k"
proof -
  have "k' = fst (kube_deletePod (wi_kube c) k (pp_namespace (wi_pod c)) name)"
    using assms(2) by (auto simp: controller_restart_def executor_RestartWorker_def RefreshPod_def
        split: prod.splits option.splits)
  then show "config_shown c unmarshal decode k' = config_shown c unmarshal decode k"
    "swarm_shown c k' = swarm_shown c k"
    using assms(1) by (simp_all add: restarts_unseen_def config_shown_def swarm_shown_def cm_Get_def swarm_Get_def)
qed

text \<open>The pool's assignation is the one that both readers get.\<close>

definition published ::
    "'k wiring \<Rightarrow> (string \<Rightarrow> goerror + 'y) \<Rightarrow> ('y \<Rightarrow> goerror + workloads) \<Rightarrow> ('k, 'ip) system \<Rightarrow> bool" where
  "published c unmarshal decode s \<longleftrightarrow>
     config_shown c unmarshal decode (sys_world s) = Some (content (Workloads (p_state (sys_pool s))))
     \<and> swarm_shown c (sys_world s) = Some (content (Workloads (p_state (sys_pool s))))"

text \<open>Neither the assignation and the size of the pool nor what the readers get has changed.\<close>

definition same_views ::
    "'k wiring \<Rightarrow> (string \<Rightarrow> goerror + 'y) \<Rightarrow> ('y \<Rightarrow> goerror + workloads) \<Rightarrow> ('k, 'ip) system \<Rightarrow> ('k, 'ip) system
     \<Rightarrow> bool" where
  "same_views c unmarshal decode s s' \<longleftrightarrow>
     p_state (sys_pool s') = p_state (sys_pool s) \<and> p_expectedSize (sys_pool s') = p_expectedSize (sys_pool s)
     \<and> config_shown c unmarshal decode (sys_world s') = config_shown c unmarshal decode (sys_world s)
     \<and> swarm_shown c (sys_world s') = swarm_shown c (sys_world s)"

lemma same_views_refl: "same_views c unmarshal decode s s"
  by (simp add: same_views_def)

lemma same_views_trans:
  "same_views c unmarshal decode s1 s2 \<Longrightarrow> same_views c unmarshal decode s2 s3 \<Longrightarrow> same_views c unmarshal decode s1 s3"
  by (simp add: same_views_def)

lemma published_same: "published c unmarshal decode s \<Longrightarrow> same_views c unmarshal decode s s' \<Longrightarrow> published c unmarshal decode s'"
  by (simp add: published_def same_views_def)

text \<open>A change of size whose assignation the storages did not take.\<close>

definition refused :: "'k wiring \<Rightarrow> ('k, 'ip) system \<Rightarrow> ('k, 'ip) system \<Rightarrow> bool" where
  "refused c s s' \<longleftrightarrow>
     p_expectedSize (sys_pool s') \<noteq> p_expectedSize (sys_pool s)
     \<and> (\<exists>e. controller_assign c (sys_world s) (Workloads (p_state (sys_pool s'))) = Inr (sys_world s', Some e))"

section \<open>One step\<close>

text \<open>What the decoders are trusted with: the assignations that the pool can hand to the storages.\<close>

definition codec_serves ::
    "'k wiring \<Rightarrow> (string \<Rightarrow> goerror + 'y) \<Rightarrow> ('y \<Rightarrow> goerror + workloads) \<Rightarrow> bool" where
  "codec_serves c unmarshal decode \<longleftrightarrow>
     (\<forall>st. assignment_inv st \<longrightarrow> codec_ok (wi_encode c) unmarshal decode (Workloads st))"

lemma resize_views:
  assumes "wiring_ok c" and "codec_serves c unmarshal decode" and "range_order ro"
    and "assignment_inv (p_state (sys_pool s))" and "pool_inv (sys_pool s)"
    and "UpdateExpectedSize BalanceWorkload Workloads (controller_assign c) ro n (sys_pool s, sys_world s) = Inr (p, d)"
  shows "same_views c unmarshal decode s (s\<lparr>sys_pool := p, sys_world := d\<rparr>)
    \<or> published c unmarshal decode (s\<lparr>sys_pool := p, sys_world := d\<rparr>)
    \<or> refused c s (s\<lparr>sys_pool := p, sys_world := d\<rparr>)"
proof (cases "p_expectedSize (sys_pool s) = n")
  case True
  then show ?thesis using assms(6) by (simp add: UpdateExpectedSize_def same_views_def)
next
  case False
  obtain e where e: "controller_assign c (sys_world s) (Workloads (p_state p)) = Inr (d, e)" "p_expectedSize p = n"
    by (rule update_published [OF assms(4,5,3) False assms(6)])
  show ?thesis
  proof (cases e)
    case None
    have inv: "assignment_inv (p_state p)" using asg.update_preserves [OF assms(4,5,3,6)] by blast
    then have "codec_ok (wi_encode c) unmarshal decode (Workloads (p_state p))"
      using assms(2) by (simp add: codec_serves_def)
    note shown = update_shown [OF assms(1,4,5,3) False assms(6) e(1) [unfolded None] this]
    show ?thesis using shown(1,2) by (simp add: published_def)
  qed (use e False in \<open>simp add: refused_def\<close>)
qed

lemma pool_step_views:
  assumes "wiring_ok c" and "codec_serves c unmarshal decode" and "restarts_unseen c" and "sys_inv t s"
    and "pool_step (controller_assign c) (controller_restart c) s act s'"
  shows "same_views c unmarshal decode s s' \<or> published c unmarshal decode s'
    \<or> (\<exists>n. act = Resize n \<and> refused c s s')"
proof -
  have inv: "assignment_inv (p_state (sys_pool s))" "pool_inv (sys_pool s)" using assms(4) by (simp_all add: sys_inv_def)
  have seen: "same_views c unmarshal decode s s'"
    if call: "restart_call (controller_restart c) a (sys_pool s) (sys_world s) = Inr (d, e)"
      "sys_pool s' = sys_pool s" "sys_world s' = d" for a d e
  proof -
    obtain n where "controller_restart c (sys_world s) n = Inr (d, e)"
      using call(1) unfolding restart_call_def go_bind_Inr_iff by blast
    from restart_views [OF assms(3) this] show ?thesis using call(2,3) by (simp add: same_views_def)
  qed
  from assms(5) show ?thesis
  proof cases
    case (resize ro n p d)
    show ?thesis using resize_views [OF assms(1,2) resize(3) inv resize(4)] resize(1,2) by blast
  next
    case (register i n ip p added)
    from register_cases [OF inv(2) register(3)] show ?thesis
      by cases (use register(2) in \<open>simp_all add: same_views_def\<close>)
  next
    case (unregister n)
    then show ?thesis by (simp add: same_views_def RemoveWorkerByName_def)
  next
    case (tick ro p started)
    then show ?thesis using conciliate_started(4,6) [OF inv(2) tick(3,5)] by (simp add: same_views_def)
  next
    case (call i a d)
    then show ?thesis using seen [OF call(5)] by simp
  next
    case (call_fails i a d e)
    then show ?thesis using seen [OF call_fails(5)] by simp
  next
    case (finish i a p)
    then show ?thesis by (simp add: same_views_def restart_finish_eq)
  next
    case (stop p)
    then show ?thesis by (simp add: same_views_def Terminate_eq)
  qed
qed

section \<open>Runs of the process\<close>

text \<open>
  The last change of size that a run has seen: a step of the stateful sets' worker, whose assignation the
  storages refused, and after which neither the pool's assignation nor the views have changed.
\<close>

definition last_refused where
  "last_refused su pg c unmarshal decode st0 ls st \<longleftrightarrow>
     (\<exists>ls1 ls2 st1 st2. ls = ls1 @ Sets (Goroutine WorkerGo) # ls2
        \<and> process_run su pg st0 ls1 st1 \<and> process_step su pg st1 (Sets (Goroutine WorkerGo)) st2
        \<and> process_run su pg st2 ls2 st \<and> refused c (pr_sys st1) (pr_sys st2)
        \<and> same_views c unmarshal decode (pr_sys st2) (pr_sys st))"

lemma process_step_views:
  assumes "wiring_ok c" and "codec_serves c unmarshal decode" and "restarts_unseen c"
    and "wired_program lib parse_ip pg" and "pg_assign pg = controller_assign c" and "pg_restart pg = controller_restart c"
    and "sys_inv t (pr_sys st)" and "process_step su pg st l st'"
  shows "same_views c unmarshal decode (pr_sys st) (pr_sys st') \<or> published c unmarshal decode (pr_sys st')
    \<or> l = Sets (Goroutine WorkerGo) \<and> refused c (pr_sys st) (pr_sys st')"
  using process_step_pool [OF assms(4,8)]
proof (elim disjE exE conjE)
  fix act
  assume a: "\<forall>n. act = Resize n \<longrightarrow> l = Sets (Goroutine WorkerGo)"
    "pool_step (pg_assign pg) (pg_restart pg) (pr_sys st) act (pr_sys st')"
  show ?thesis using pool_step_views [OF assms(1-3,7) a(2) [unfolded assms(5,6)]] a(1) by blast
qed (simp add: same_views_refl)

lemma process_run_inv:
  assumes "wired_program lib parse_ip pg" and "process_run su pg st0 ls st" and "sys_inv t (pr_sys st0)"
  shows "sys_inv t (pr_sys st)"
  using process_refines_run [OF assms(1,2)] sys_inv_run assms(3) by blast

lemma process_run_views:
  assumes "wiring_ok c" and "codec_serves c unmarshal decode" and "restarts_unseen c"
    and "wired_program lib parse_ip pg" and "pg_assign pg = controller_assign c" and "pg_restart pg = controller_restart c"
    and "sys_inv t (pr_sys st0)" and "process_run su pg st0 ls st"
  shows "same_views c unmarshal decode (pr_sys st0) (pr_sys st) \<or> published c unmarshal decode (pr_sys st)
    \<or> last_refused su pg c unmarshal decode st0 ls st"
  using assms(8)
proof (induction rule: process_run.induct)
  case process_starts
  show ?case by (simp add: same_views_refl)
next
  case (process_goes_on ls st l st')
  note run = process_goes_on.hyps(1) and step = process_goes_on.hyps(2)
  from process_step_views [OF assms(1-6) process_run_inv [OF assms(4) run assms(7)] step]
  show ?case
  proof (elim disjE conjE)
    assume same: "same_views c unmarshal decode (pr_sys st) (pr_sys st')"
    from process_goes_on.IH show ?thesis
    proof (elim disjE)
      assume "last_refused su pg c unmarshal decode st0 ls st"
      then obtain ls1 ls2 st1 st2 where "ls = ls1 @ Sets (Goroutine WorkerGo) # ls2"
        "process_run su pg st0 ls1 st1" "process_step su pg st1 (Sets (Goroutine WorkerGo)) st2"
        "process_run su pg st2 ls2 st" "refused c (pr_sys st1) (pr_sys st2)"
        "same_views c unmarshal decode (pr_sys st2) (pr_sys st)"
        unfolding last_refused_def by blast
      then have "last_refused su pg c unmarshal decode st0 (ls @ [l]) st'"
        unfolding last_refused_def
        by (intro exI [of _ ls1] exI [of _ "ls2 @ [l]"] exI [of _ st1] exI [of _ st2])
          (simp add: process_run.process_goes_on [OF _ step] same_views_trans [OF _ same])
      then show ?thesis by blast
    qed (use same same_views_trans published_same in blast)+
  next
    assume r: "l = Sets (Goroutine WorkerGo)" "refused c (pr_sys st) (pr_sys st')"
    have "last_refused su pg c unmarshal decode st0 (ls @ [l]) st'"
      unfolding last_refused_def
      by (intro exI [of _ ls] exI [of _ "[]"] exI [of _ st] exI [of _ st'])
        (use run step r in \<open>simp add: process_run.process_starts same_views_refl\<close>)
    then show ?thesis by blast
  qed blast
qed

lemma published_assignation:
  assumes "published c unmarshal decode s" and "sys_inv (assignation setName jobs) s"
  obtains jobs_of ver where "config_shown c unmarshal decode (sys_world s) = Some (jobs_of, ver)"
    and "swarm_shown c (sys_world s) = Some (jobs_of, ver)"
    and "\<forall>i. jobs_of (worker_name setName i) =
      (if 0 \<le> i \<and> i < p_expectedSize (sys_pool s) then Some (part_of jobs (p_expectedSize (sys_pool s)) i) else None)"
    and "\<forall>name. jobs_of name \<noteq> None \<longrightarrow> (\<exists>i. 0 \<le> i \<and> i < p_expectedSize (sys_pool s) \<and> name = worker_name setName i)"
proof -
  let ?w = "Workloads (p_state (sys_pool s))" and ?n = "p_expectedSize (sys_pool s)"
  have m: "map_of (ws_workloads ?w) = assignation setName jobs ?n" using assms(2) by (simp add: sys_inv_def)
  have "\<forall>i. jobs_at (ws_workloads ?w) (worker_name setName i) =
      (if 0 \<le> i \<and> i < ?n then Some (part_of jobs ?n i) else None)"
    by (simp add: jobs_at_def m assignation_at)
  moreover have "\<exists>i. 0 \<le> i \<and> i < ?n \<and> name = worker_name setName i" if "jobs_at (ws_workloads ?w) name \<noteq> None" for name
  proof -
    have "\<exists>v. assignation setName jobs ?n name = Some v"
      using that by (cases "assignation setName jobs ?n name") (simp_all add: jobs_at_def m)
    then show ?thesis by (auto simp: assignation_defined)
  qed
  ultimately show thesis
    using that [of "jobs_at (ws_workloads ?w)" "ws_version ?w"] assms(1) by (simp add: published_def content_def)
qed

section \<open>Property\<close>


section \<open>Example\<close>

text \<open>
  A set of three workers is added: its informer delivers it, the worker of its controller hands the
  assignation to the storages. The encoder of the example knows this assignation only.
\<close>

definition example_target :: workloads where
  "example_target =
     \<lparr>ws_workloads = [(''w-0'', Some \<lparr>wl_jobs = [Job ''a'', Job ''b''], wl_version = 0\<rparr>),
        (''w-1'', Some \<lparr>wl_jobs = [Job ''c'', Job ''d''], wl_version = 0\<rparr>),
        (''w-2'', Some \<lparr>wl_jobs = [Job ''c''], wl_version = 0\<rparr>)], ws_version = 1\<rparr>"

definition example_published :: "cluster wiring" where
  "example_published = example_wiring
     \<lparr>wi_encode := (\<lambda>a. if a = example_target then Inr ''yaml'' else Inl (OtherError ''unknown''))\<rparr>"

lemma example_published_laws:
  "wiring_ok example_published" "codec_serves example_published (\<lambda>s. Inr s) (\<lambda>y. Inr example_target)"
  "restarts_unseen example_published"
  using example_wiring_ok
  by (auto simp: example_published_def wiring_ok_def codec_serves_def codec_ok_def restarts_unseen_def
      example_wiring_def example_kube_def example_versioned_def)

lemma example_published_update:
  obtains p' k' where
    "UpdateExpectedSize BalanceWorkload Workloads (controller_assign example_published) rev 3
       (command_pool example_settings example_jobs :: (assignment_state, unit) pool, example_cluster) = Inr (p', k')"
    "p_expectedSize p' = 3" "swarm_shown example_published k' \<noteq> None"
proof -
  let ?u = "UpdateExpectedSize BalanceWorkload Workloads (controller_assign example_published) rev 3
      (command_pool example_settings example_jobs :: (assignment_state, unit) pool, example_cluster)"
  have "(case ?u of Inl _ \<Rightarrow> False | Inr (p', k') \<Rightarrow>
      p_expectedSize p' = 3 \<and> \<not> Option.is_none (swarm_shown example_published k'))" by code_simp
  then show thesis using that by (cases ?u) (auto simp: Option.is_none_def split: prod.splits)
qed

definition example_sets :: "(event list, event, unit) surroundings" where
  "example_sets = example_surroundings\<lparr>su_sets := (\<lambda>n. n = OnAdd (Some (StatefulSetObj example_set)))\<rparr>"

definition example_publisher :: "(event list, cluster, unit) program" where
  "example_publisher = internal_program example_settings example_core_client example_client_go (\<lambda>s. ())
     (controller_assign example_published) (controller_restart example_published)"

lemma sets_go_on:
  assumes "process_run su pg st0 ls (set_sets d st)" and "pr_exit st = None" and "GoSets < pr_stage st" and "range_order ro"
    and "part_step su (su_sets su) (pg_sets pg ro) d t (Inr d')"
  shows "process_run su pg st0 (ls @ [Sets t]) (set_sets d' st)"
proof -
  have "sets_view (set_sets d st) = d" "set_sets d' (set_sets d st) = set_sets d' st"
    by (simp_all add: sets_view_def set_sets_def)
  then show ?thesis
    using process_goes_on [OF assms(1) sets_run [where d = d' and ro = ro, OF _ _ assms(4)]] assms(2,3,5)
    by (simp add: set_sets_def)
qed

lemma example_publisher_parts:
  "pt_notify (pg_sets example_publisher ro) (OnAdd (Some (StatefulSetObj example_set))) [] =
     Inr [Event ''/'' (StatefulSetObj example_set)]"
  "pt_handle (pg_sets example_publisher ro) g = sts_handle g (controller_assign example_published) ro"
  by (simp_all add: example_publisher_def internal_program_def part_of_controller_def notify_def command_defs handler_Add_def
      as_runtime_object_def is_runtime_object_def selector_Validate_def hasWatchedLabel_def getAppLabel_def
      example_client_go_def example_accessor_def example_key_def example_set_def example_settings_def
      controller_Handle_def sts_handle_def zero_objectMeta_def)

lemma example_published_run:
  obtains st where "process_run example_sets example_publisher example_process
      (Command # Command # map Sets [Goroutine MainGo, Informer, Goroutine Environment, Goroutine MainGo,
         Goroutine WorkerGo, Goroutine WorkerGo]) st"
    and "p_expectedSize (sys_pool (pr_sys st)) = 3" and "swarm_shown example_published (sys_world (pr_sys st)) \<noteq> None"
proof -
  let ?run = "process_run example_sets example_publisher example_process"
  let ?ev = "Event ''/'' (StatefulSetObj example_set)"
  let ?step = "part_step example_sets (su_sets example_sets) (pg_sets example_publisher rev)"
  obtain p' k' where u: "UpdateExpectedSize BalanceWorkload Workloads (controller_assign example_published) rev 3
       (command_pool example_settings example_jobs :: (assignment_state, unit) pool, example_cluster) = Inr (p', k')"
    "p_expectedSize p' = 3" "swarm_shown example_published k' \<noteq> None"
    by (rule example_published_update)
  define st where "st = example_process\<lparr>pr_stage := GoServer\<rparr>"
  define d0 where "d0 = sets_view st"
  define d1 where "d1 = processor_Run_informer d0"
  define d2 where "d2 = d1\<lparr>rn_queue := [?ev], rn_store := ()\<rparr>"
  define d3 where "d3 = d2\<lparr>rn_synced := True\<rparr>"
  define d4 where "d4 = controller_Run_worker (processor_Run_synced True d3)"
  define d5 where "d5 = d4\<lparr>rn_worker := Running\<rparr>"
  define d6 where "d6 = d5\<lparr>rn_queue := [], rn_world := (p', k'), rn_worker := if True then Running else Idle\<rparr>"
  note d = d1_def d2_def d3_def d4_def d5_def run_defs
  have start: "rn_main d0 = Called" "rn_queue d0 = []" "\<not> rn_stop d0"
    "rn_world d0 = (command_pool example_settings example_jobs, example_cluster)"
    by (simp_all add: d0_def st_def example_process_def process_start_def sets_view_def fresh_run_def example_client_go_def)
  have alive: "pr_exit st = None" "GoSets < pr_stage st"
    by (simp_all add: st_def example_process_def process_start_def less_stage_def stage_rank_def)
  have c1: "command_Run example_publisher None example_process = Some (example_process\<lparr>pr_stage := GoSets\<rparr>)"
    and c2: "command_Run example_publisher None (example_process\<lparr>pr_stage := GoSets\<rparr>) = Some st"
    by (simp_all add: command_Run_def example_publisher_def internal_program_def internal_Run_def example_process_def
        process_start_def st_def)
  have e: "pr_exit example_process = None" "pr_exit (example_process\<lparr>pr_stage := GoSets\<rparr>) = None"
    by (simp_all add: example_process_def process_start_def)
  from process_goes_on [OF process_goes_on [OF process_starts command_runs [OF e(1) c1]] command_runs [OF e(2) c2]]
  have "?run [Command, Command] st" by simp
  moreover have "set_sets d0 st = st" by (simp add: d0_def set_sets_def sets_view_def st_def example_process_def process_start_def
      fresh_run_def)
  ultimately have r0: "?run [Command, Command] (set_sets d0 st)" by simp
  have s1: "?step d0 (Goroutine MainGo) (Inr d1)"
    unfolding d1_def by (rule part_runs [OF call_processor [OF start(1)]]) (simp add: run_defs)
  have s2: "?step d1 Informer (Inr d2)"
    unfolding d2_def by (rule part_called [where n = "OnAdd (Some (StatefulSetObj example_set))"])
      (simp_all add: d1_def run_defs start example_publisher_parts example_sets_def)
  have s3: "?step d2 (Goroutine Environment) (Inr d3)"
    unfolding d3_def by (rule part_runs [OF has_synced]) (simp_all add: d)
  have s4: "?step d3 (Goroutine MainGo) (Inr d4)"
    unfolding d4_def by (rule part_runs [OF cache_synced]) (simp_all add: d)
  have s5: "?step d4 (Goroutine WorkerGo) (Inr d5)"
    unfolding d5_def by (rule part_runs [OF round]) (simp_all add: d start)
  have "sts_handle (su_get_by_key example_sets (rn_store d5)) (controller_assign example_published) rev ?ev
      (rn_world d5) = Inr ((p', k'), None)"
    using u(1) by (simp add: d start sts_handle_def processor_Handle_def GetKey_def sts_Created_def as_statefulSet_def
        replicas_of_def example_set_def example_sets_def example_surroundings_def)
  then have item: "processNextItem (eq_ops (su_queue example_sets)) (su_event_of example_sets)
      (pt_handle (pg_sets example_publisher rev) (su_get_by_key example_sets (rn_store d5))) (rn_queue d5, rn_world d5) =
      Inr (([], (p', k')), True)"
    unfolding example_publisher_parts
    by (simp add: d processNextItem_def example_sets_def example_surroundings_def list_event_queue_def)
  have s6: "?step d5 (Goroutine WorkerGo) (Inr d6)"
    unfolding d6_def by (rule part_runs [OF next_item])
      (use item in \<open>simp_all add: d queue_library_def example_sets_def example_surroundings_def list_event_queue_def\<close>)
  note go = sets_go_on [OF _ alive range_order_rev]
  from go [OF go [OF go [OF go [OF go [OF go [OF r0 s1] s2] s3] s4] s5] s6]
  show thesis using that u(2,3) by (simp add: set_sets_def d6_def)
qed

definition example_labels :: "label list" where
  "example_labels = Command # Command # map Sets [Goroutine MainGo, Informer, Goroutine Environment, Goroutine MainGo,
     Goroutine WorkerGo, Goroutine WorkerGo]"


end
