(* ===== verification/Worker_Process.thy ===== *)
theory Worker_Process
  imports Worker_Service
begin

text \<open>
  The life of a worker process, \<open>workerCmd\<close> of \<open>services/worker/cmd/worker.go\<close>: a first load of the
  configuration, and one more for each change of the mounted file that the file watcher reports,
  while \<open>/internal/version\<close> serves what the configuration says. The file is given by what reading
  it gives at each load. \<open>Run\<close> and \<open>Terminate\<close> of the application do nothing.
\<close>

definition App_Run :: "app \<Rightarrow> app" where
  "App_Run a = a"

definition App_Terminate :: "app \<Rightarrow> app" where
  "App_Terminate a = a"

text \<open>What the process is made with: decoder, printer of a configuration, environment, settings.\<close>

record 'raw worker_setup =
  ws_unmarshal :: "'raw \<Rightarrow> worker_config \<Rightarrow> worker_config \<times> goerror option"
  ws_show_config :: "worker_config \<Rightarrow> string"
  ws_getenv :: "string \<Rightarrow> string"
  ws_settings :: "setting \<Rightarrow> string"

text \<open>The callback of \<open>OnConfigChange\<close>, and the load at the start: an error is logged.\<close>

definition on_config_change ::
    "'raw worker_setup \<Rightarrow> goerror + 'raw \<Rightarrow> worker_config \<times> app \<Rightarrow> (worker_config \<times> app) go" where
  "on_config_change su file_content ca =
     go_bind (updateWorkloadFromConfig (\<lambda>path name. file_content) (ws_unmarshal su) (ws_show_config su) (ws_getenv su)
         (ws_settings su ConfigFilePath) (ws_settings su ConfigFile) ca)
       (\<lambda>(ca', err). case err of Some e \<Rightarrow> Inr ca' | None \<Rightarrow> Inr ca')"

fun config_changes ::
    "'raw worker_setup \<Rightarrow> (goerror + 'raw) list \<Rightarrow> worker_config \<times> app \<Rightarrow> (worker_config \<times> app) go" where
  "config_changes su [] ca = Inr ca"
| "config_changes su (f # fs) ca = go_bind (on_config_change su f ca) (config_changes su fs)"

definition worker_Run ::
    "'raw worker_setup \<Rightarrow> goerror + 'raw \<Rightarrow> (goerror + 'raw) list \<Rightarrow> worker_config \<Rightarrow> (worker_config \<times> app) go" where
  "worker_Run su first changes cfg =
     go_bind (on_config_change su first (cfg, NewApp)) (\<lambda>(cfg1, a).
       go_bind (config_changes su changes (cfg1, App_Run a)) (\<lambda>(cfg2, a2). Inr (cfg2, App_Terminate a2)))"

text \<open>The name under which the version endpoint looks up its jobs.\<close>

definition worker_host :: "'raw worker_setup \<Rightarrow> string" where
  "worker_host su = HostName (ws_getenv su) DefaultHostName"

section \<open>Loads of readable files\<close>

text \<open>
  A decoder that succeeds, merges, and takes the version of the file; and the workload of a host
  in the newest file that has one.
\<close>

definition decodes_files ::
    "'raw worker_setup \<Rightarrow> ('raw \<Rightarrow> (string, workload option) gomap) \<Rightarrow> ('raw \<Rightarrow> int) \<Rightarrow> bool" where
  "decodes_files su file_entries file_version \<longleftrightarrow>
     merge_law (ws_unmarshal su) file_entries
     \<and> (\<forall>raw cfg. \<exists>cfg'. ws_unmarshal su raw cfg = (cfg', None) \<and> wc_Version cfg' = file_version raw)
     \<and> (\<forall>raw. no_nil (file_entries raw))"

definition newest :: "('raw \<Rightarrow> (string, workload option) gomap) \<Rightarrow> string \<Rightarrow> workload \<Rightarrow> 'raw list \<Rightarrow> workload" where
  "newest file_entries host w raws =
     foldl (\<lambda>v raw. case map_of (file_entries raw) host of Some (Some u) \<Rightarrow> u | _ \<Rightarrow> v) w raws"

lemma load_finds:
  assumes "decodes_files su file_entries file_version"
    and "(case map_of (file_entries raw) (worker_host su) of
        None \<Rightarrow> map_of (wc_Workload cfg) (worker_host su) | Some x \<Rightarrow> Some x) = Some (Some v)"
  shows "\<exists>cfg'. on_config_change su (Inr raw) (cfg, a) = Inr (cfg', Some (case a of None \<Rightarrow> v | Some u \<Rightarrow> u))
    \<and> map_of (wc_Workload cfg') (worker_host su) = Some (Some v) \<and> wc_Version cfg' = file_version raw"
proof -
  obtain cfg' where u: "ws_unmarshal su raw cfg = (cfg', None)" "wc_Version cfg' = file_version raw"
    using assms(1) unfolding decodes_files_def by blast
  have look: "map_of (wc_Workload cfg') (worker_host su) = Some (Some v)"
    using assms u(1) unfolding decodes_files_def merge_law_def by metis
  then have "HostWorkLoad (ws_show_config su) cfg' (HostName (ws_getenv su) DefaultHostName) = Inr (Inr (Some v))"
    by (simp add: HostWorkLoad_def Config_HostWorkLoad_def worker_host_def)
  then have "on_config_change su (Inr raw) (cfg, a) = Inr (cfg', Some (case a of None \<Rightarrow> v | Some u \<Rightarrow> u))"
    using u(1) by (cases a) (simp_all add: on_config_change_def updateWorkloadFromConfig_def LoadConfig_def
        App_Assign_running App_Assign_def [of None])
  then show ?thesis using look u(2) by blast
qed

lemma changes_find:
  assumes "decodes_files su file_entries file_version"
    and "map_of (wc_Workload cfg) (worker_host su) = Some (Some v)" and "wc_Version cfg = ver"
  shows "\<exists>cfg'. config_changes su (map Inr raws) (cfg, Some w) = Inr (cfg', Some w)
    \<and> map_of (wc_Workload cfg') (worker_host su) = Some (Some (newest file_entries (worker_host su) v raws))
    \<and> wc_Version cfg' = (if raws = [] then ver else file_version (last raws))"
  using assms(2,3)
proof (induction raws arbitrary: cfg v ver)
  case Nil
  then show ?case by (simp add: newest_def)
next
  case (Cons raw raws)
  let ?v = "case map_of (file_entries raw) (worker_host su) of Some (Some u) \<Rightarrow> u | _ \<Rightarrow> v"
  have nn: "no_nil (file_entries raw)" using assms(1) unfolding decodes_files_def by blast
  have "(case map_of (file_entries raw) (worker_host su) of
        None \<Rightarrow> map_of (wc_Workload cfg) (worker_host su) | Some x \<Rightarrow> Some x) = Some (Some ?v)"
    using Cons.prems(1) no_nil_lookup [OF nn, of "worker_host su"]
    by (cases "map_of (file_entries raw) (worker_host su)") auto
  from load_finds [OF assms(1) this, of "Some w"]
  obtain cfg1 where c: "on_config_change su (Inr raw) (cfg, Some w) = Inr (cfg1, Some w)"
    "map_of (wc_Workload cfg1) (worker_host su) = Some (Some ?v)" "wc_Version cfg1 = file_version raw" by auto
  have n: "newest file_entries (worker_host su) v (raw # raws) = newest file_entries (worker_host su) ?v raws"
    by (simp add: newest_def)
  show ?case
    using Cons.IH [OF c(2,3)] c(1) unfolding n by (cases raws) simp_all
qed

section \<open>Property\<close>

text \<open>
  C30 A worker serves what it does not run: after a first load and any number of reloads of readable
  files, the application is still running the jobs of the first file, while the version endpoint
  answers with the jobs of the newest file that names the host and with the version of the last
  file. So the controller cannot tell from it whether a worker has taken a new assignation; only
  a restart of the process makes the two agree.
\<close>

theorem worker_serves_what_it_does_not_run:
  assumes "decodes_files su file_entries file_version"
    and "map_of (file_entries first) (worker_host su) = Some (Some w)"
    and "encode \<lparr>wl_jobs = wl_jobs (newest file_entries (worker_host su) w raws),
           wl_version = file_version (last (first # raws))\<rparr> = Inr body"
  shows "\<exists>cfg'. worker_Run su (Inr first) (map Inr raws) cfg = Inr (cfg', Some w)
    \<and> versionHandler encode (ws_show_config su) (worker_host su) (\<lambda>i. cfg') \<lparr>rs_headers = [], rs_body = []\<rparr> =
        Inr \<lparr>rs_headers = [(''Content-Type'', ''application/json'')], rs_body = body\<rparr>"
proof -
  obtain cfg1 where c1: "on_config_change su (Inr first) (cfg, NewApp) = Inr (cfg1, Some w)"
    "map_of (wc_Workload cfg1) (worker_host su) = Some (Some w)" "wc_Version cfg1 = file_version first"
    using load_finds [where raw = first and cfg = cfg and v = w and a = NewApp, OF assms(1)] assms(2)
    by (auto simp: NewApp_def)
  obtain cfg' where c: "config_changes su (map Inr raws) (cfg1, Some w) = Inr (cfg', Some w)"
    "map_of (wc_Workload cfg') (worker_host su) = Some (Some (newest file_entries (worker_host su) w raws))"
    "wc_Version cfg' = file_version (last (first # raws))"
    using changes_find [where raws = raws and w = w, OF assms(1) c1(2,3)] by auto
  have "worker_Run su (Inr first) (map Inr raws) cfg = Inr (cfg', Some w)"
    by (simp add: worker_Run_def c1 c App_Run_def App_Terminate_def)
  moreover have "VersionAdapter_Workload (ws_show_config su) (worker_host su) cfg' =
      Inr (Some (newest file_entries (worker_host su) w raws))"
    using c(2) by (simp add: VersionAdapter_Workload_def HostWorkLoad_def Config_HostWorkLoad_def)
  ultimately show ?thesis
    using assms(3) by (simp add: versionHandler_def VersionAdapter_Version_def config_Version_def c(3))
qed

definition example_setup :: "((string, workload option) gomap \<times> int) worker_setup" where
  "example_setup =
     \<lparr>ws_unmarshal = (\<lambda>raw cfg. if no_nil (fst raw)
        then (\<lparr>wc_Workload = fst raw @ wc_Workload cfg, wc_Version = snd raw\<rparr>, None)
        else (cfg\<lparr>wc_Version := snd raw\<rparr>, None)),
      ws_show_config = (\<lambda>c. []), ws_getenv = (\<lambda>v. ''w-0''), ws_settings = (\<lambda>s. [])\<rparr>"

lemma example_setup_decodes:
  "decodes_files example_setup (\<lambda>raw. if no_nil (fst raw) then fst raw else []) snd"
  by (auto simp: decodes_files_def merge_law_def example_setup_def no_nil_def map_add_def split: option.split if_splits)

theorem worker_serves_what_it_does_not_run_witness:
  "\<exists>cfg'. worker_Run example_setup (Inr ([(''w-0'', Some \<lparr>wl_jobs = [Job ''a''], wl_version = 0\<rparr>)], 1))
      [Inr ([(''w-0'', Some \<lparr>wl_jobs = [Job ''b''], wl_version = 0\<rparr>)], 2)] \<lparr>wc_Workload = [], wc_Version = 0\<rparr> =
      Inr (cfg', Some \<lparr>wl_jobs = [Job ''a''], wl_version = 0\<rparr>)
    \<and> versionHandler (\<lambda>w. Inr (if w = \<lparr>wl_jobs = [Job ''b''], wl_version = 2\<rparr> then ''b-2'' else [])) (\<lambda>c. [])
        ''w-0'' (\<lambda>i. cfg') \<lparr>rs_headers = [], rs_body = []\<rparr> =
      Inr \<lparr>rs_headers = [(''Content-Type'', ''application/json'')], rs_body = ''b-2''\<rparr>"
proof -
  let ?entries = "\<lambda>raw :: (string, workload option) gomap \<times> int. if no_nil (fst raw) then fst raw else []"
  let ?first = "([(''w-0'', Some \<lparr>wl_jobs = [Job ''a''], wl_version = 0\<rparr>)], 1) :: (string, workload option) gomap \<times> int"
  let ?next = "([(''w-0'', Some \<lparr>wl_jobs = [Job ''b''], wl_version = 0\<rparr>)], 2) :: (string, workload option) gomap \<times> int"
  let ?encode = "\<lambda>w :: workload. Inr (if w = \<lparr>wl_jobs = [Job ''b''], wl_version = 2\<rparr> then ''b-2'' else []) :: goerror + string"
  have host: "worker_host example_setup = ''w-0''"
    by (simp add: worker_host_def example_setup_def HostName_def)
  have show_config: "ws_show_config example_setup = (\<lambda>c. [])" by (simp add: example_setup_def)
  have d: "decodes_files example_setup ?entries snd"
    by (rule example_setup_decodes)
  have f: "map_of (?entries ?first) (worker_host example_setup) = Some (Some \<lparr>wl_jobs = [Job ''a''], wl_version = 0\<rparr>)"
    by (simp add: host no_nil_def)
  have e: "?encode \<lparr>wl_jobs = wl_jobs (newest ?entries (worker_host example_setup)
      \<lparr>wl_jobs = [Job ''a''], wl_version = 0\<rparr> [?next]), wl_version = snd (last [?first, ?next])\<rparr> = Inr ''b-2''"
    by (simp add: host newest_def no_nil_def)
  show ?thesis
    using worker_serves_what_it_does_not_run [where encode = ?encode and raws = "[?next]" and first = ?first
        and file_entries = ?entries and file_version = snd and cfg = "\<lparr>wc_Workload = [], wc_Version = 0\<rparr>",
        OF d f e]
    unfolding host show_config by simp
qed

section \<open>Watchers\<close>

text \<open>
  Each successful \<open>LoadConfig\<close> ends with a call of \<open>viper.WatchConfig\<close>, which starts a watcher of its
  own: a state has the number of watchers besides the configuration and the application. Every
  watcher reports a change of the file, and each report runs the callback, which loads again.
\<close>

definition watched_change ::
    "'raw worker_setup \<Rightarrow> goerror + 'raw \<Rightarrow> (worker_config \<times> app) \<times> nat \<Rightarrow> ((worker_config \<times> app) \<times> nat) go" where
  "watched_change su file_content st =
     (let (ca, watchers) = st in
      go_bind (on_config_change su file_content ca) (\<lambda>ca'.
        case LoadConfig (\<lambda>path name. file_content) (ws_unmarshal su) (ws_settings su ConfigFilePath)
            (ws_settings su ConfigFile) (fst ca) of
          (cfg, Some err) \<Rightarrow> Inr (ca', watchers)
        | (cfg, None) \<Rightarrow> Inr (ca', watchers + 1)))"

fun reports ::
    "nat \<Rightarrow> 'raw worker_setup \<Rightarrow> goerror + 'raw \<Rightarrow> (worker_config \<times> app) \<times> nat \<Rightarrow> ((worker_config \<times> app) \<times> nat) go" where
  "reports 0 su f st = Inr st"
| "reports (Suc n) su f st = go_bind (watched_change su f st) (reports n su f)"

fun file_changes ::
    "'raw worker_setup \<Rightarrow> (goerror + 'raw) list \<Rightarrow> (worker_config \<times> app) \<times> nat \<Rightarrow> ((worker_config \<times> app) \<times> nat) go" where
  "file_changes su [] st = Inr st"
| "file_changes su (f # fs) st = go_bind (reports (snd st) su f st) (file_changes su fs)"

lemma report_find:
  assumes "decodes_files su file_entries file_version"
    and "map_of (wc_Workload cfg) (worker_host su) = Some (Some v)"
  shows "\<exists>cfg' v'. watched_change su (Inr raw) ((cfg, Some w), n) = Inr ((cfg', Some w), n + 1)
    \<and> map_of (wc_Workload cfg') (worker_host su) = Some (Some v')"
proof -
  have nn: "no_nil (file_entries raw)" using assms(1) unfolding decodes_files_def by blast
  obtain v' where "(case map_of (file_entries raw) (worker_host su) of
        None \<Rightarrow> map_of (wc_Workload cfg) (worker_host su) | Some x \<Rightarrow> Some x) = Some (Some v')"
    using assms(2) no_nil_lookup [OF nn, of "worker_host su"]
    by (cases "map_of (file_entries raw) (worker_host su)") auto
  from load_finds [OF assms(1) this, of "Some w"]
  obtain cfg1 where c: "on_config_change su (Inr raw) (cfg, Some w) = Inr (cfg1, Some w)"
    "map_of (wc_Workload cfg1) (worker_host su) = Some (Some v')" by auto
  obtain cfg2 where "ws_unmarshal su raw cfg = (cfg2, None)"
    using assms(1) unfolding decodes_files_def by blast
  then have "watched_change su (Inr raw) ((cfg, Some w), n) = Inr ((cfg1, Some w), n + 1)"
    using c(1) by (simp add: watched_change_def LoadConfig_def)
  then show ?thesis using c(2) by blast
qed

lemma reports_find:
  assumes "decodes_files su file_entries file_version"
    and "map_of (wc_Workload cfg) (worker_host su) = Some (Some v)"
  shows "\<exists>cfg' v'. reports m su (Inr raw) ((cfg, Some w), n) = Inr ((cfg', Some w), n + m)
    \<and> map_of (wc_Workload cfg') (worker_host su) = Some (Some v')"
  using assms(2)
proof (induction m arbitrary: cfg v n)
  case 0
  then show ?case by simp
next
  case (Suc m)
  obtain cfg1 v1 where r: "watched_change su (Inr raw) ((cfg, Some w), n) = Inr ((cfg1, Some w), n + 1)"
    "map_of (wc_Workload cfg1) (worker_host su) = Some (Some v1)"
    using report_find [OF assms(1) Suc.prems] by blast
  show ?case using Suc.IH [OF r(2), of "n + 1"] r(1) by simp
qed

lemma file_changes_find:
  assumes "decodes_files su file_entries file_version"
    and "map_of (wc_Workload cfg) (worker_host su) = Some (Some v)"
  shows "\<exists>cfg'. file_changes su (map Inr raws) ((cfg, Some w), n) = Inr ((cfg', Some w), n * 2 ^ length raws)"
  using assms(2)
proof (induction raws arbitrary: cfg v n)
  case Nil
  then show ?case by simp
next
  case (Cons raw raws)
  obtain cfg1 v1 where r: "reports n su (Inr raw) ((cfg, Some w), n) = Inr ((cfg1, Some w), n + n)"
    "map_of (wc_Workload cfg1) (worker_host su) = Some (Some v1)"
    using reports_find [OF assms(1) Cons.prems] by blast
  obtain cfg' where "file_changes su (map Inr raws) ((cfg1, Some w), n + n) =
      Inr ((cfg', Some w), (n + n) * 2 ^ length raws)" using Cons.IH [OF r(2)] by blast
  moreover have "(n + n) * 2 ^ length raws = n * 2 ^ length (raw # raws)" by simp
  ultimately have "file_changes su (map Inr (raw # raws)) ((cfg, Some w), n) =
      Inr ((cfg', Some w), n * 2 ^ length (raw # raws))"
    by (simp only: list.map file_changes.simps snd_conv r(1) go_bind_simps)
  then show ?case by blast
qed

text \<open>
  C40 The watchers double with every change of the file: each load of a readable file starts one
  more, the process has two of them after its start, one of \<open>initConfig\<close> and one of \<open>Run\<close>, and after
  \<open>k\<close> changes there are \<open>2 * 2 ^ k\<close> of them, so that the next change is loaded that many times.
\<close>

theorem config_watchers_double:
  assumes "decodes_files su file_entries file_version"
    and "map_of (file_entries first) (worker_host su) = Some (Some w)"
  shows "\<exists>cfg1 cfg2. on_config_change su (Inr first) (cfg, NewApp) = Inr (cfg1, Some w)
    \<and> watched_change su (Inr first) ((cfg, NewApp), 1) = Inr ((cfg1, Some w), 2)
    \<and> file_changes su (map Inr raws) ((cfg1, Some w), 2) = Inr ((cfg2, Some w), 2 * 2 ^ length raws)"
proof -
  obtain cfg1 where c: "on_config_change su (Inr first) (cfg, NewApp) = Inr (cfg1, Some w)"
    "map_of (wc_Workload cfg1) (worker_host su) = Some (Some w)"
    using load_finds [where raw = first and cfg = cfg and v = w and a = NewApp, OF assms(1)] assms(2)
    by (auto simp: NewApp_def)
  obtain cfg' where "ws_unmarshal su first cfg = (cfg', None)"
    using assms(1) unfolding decodes_files_def by blast
  then have "watched_change su (Inr first) ((cfg, NewApp), 1) = Inr ((cfg1, Some w), 2)"
    using c(1) by (simp add: watched_change_def LoadConfig_def)
  moreover obtain cfg2 where "file_changes su (map Inr raws) ((cfg1, Some w), 2) = Inr ((cfg2, Some w), 2 * 2 ^ length raws)"
    using file_changes_find [OF assms(1) c(2), of raws w 2] by blast
  ultimately show ?thesis using c(1) by blast
qed

theorem config_watchers_double_witness:
  "\<exists>cfg1 cfg2. file_changes example_setup (map Inr [([], 2), ([], 3)]) ((cfg1, Some \<lparr>wl_jobs = [], wl_version = 0\<rparr>), 2) =
     Inr ((cfg2, Some \<lparr>wl_jobs = [], wl_version = 0\<rparr>), 8)"
proof -
  let ?first = "([(''w-0'', Some \<lparr>wl_jobs = [], wl_version = 0\<rparr>)], 1) :: (string, workload option) gomap \<times> int"
  have "map_of ((\<lambda>raw. if no_nil (fst raw) then fst raw else []) ?first) (worker_host example_setup) =
      Some (Some \<lparr>wl_jobs = [], wl_version = 0\<rparr>)"
    by (simp add: worker_host_def example_setup_def HostName_def no_nil_def)
  from config_watchers_double [OF example_setup_decodes this, of "\<lparr>wc_Workload = [], wc_Version = 0\<rparr>" "[([], 2), ([], 3)]"]
  show ?thesis by auto
qed

end
