(* ===== verification/Worker_Command.thy ===== *)
theory Worker_Command
  imports Worker_Process Command_Run
begin

text \<open>
  The worker's command as a process: \<open>Run\<close> of \<open>services/worker/cmd/worker.go\<close> after \<open>initConfig\<close>, next to
  the watchers of the configuration file, the HTTP server and the signals, in any order. The file may
  change at any time. Each watcher of \<open>viper\<close> then has one more change to report, and a report calls the
  function that was given to \<open>OnConfigChange\<close>, if there was one at that time. A load with its assignment
  is one step.
\<close>

section \<open>The process\<close>

datatype worker_stage =
  FirstLoad | RegisterCallback | GoApp | GoServe | NotifyWorker | AwaitStop | CloseServing | TerminateApp

definition worker_rank :: "worker_stage \<Rightarrow> nat" where
  "worker_rank g = (case g of FirstLoad \<Rightarrow> 0 | RegisterCallback \<Rightarrow> 1 | GoApp \<Rightarrow> 2 | GoServe \<Rightarrow> 3 | NotifyWorker \<Rightarrow> 4
     | AwaitStop \<Rightarrow> 5 | CloseServing \<Rightarrow> 6 | TerminateApp \<Rightarrow> 7)"

text \<open>
  \<open>wp_config\<close> is the package variable of \<open>internal/config\<close>, \<open>wp_file\<close> what reading the file gives now,
  \<open>wp_watchers\<close> the watchers that were started and \<open>wp_reports\<close> the reports that they still have to make.
\<close>

record 'raw worker_process =
  wp_stage :: worker_stage
  wp_config :: worker_config
  wp_app :: app
  wp_file :: "goerror + 'raw"
  wp_watchers :: nat
  wp_reports :: nat
  wp_callback :: bool
  wp_serving :: bool
  wp_closed :: bool
  wp_signal :: bool
  wp_log :: "goerror list"
  wp_exit :: "exit option"

definition load_now :: "'raw worker_setup \<Rightarrow> 'raw worker_process \<Rightarrow> 'raw worker_process" where
  "load_now su st =
     (case watched_change su (wp_file st) ((wp_config st, wp_app st), wp_watchers st) of
        Inl pc \<Rightarrow> st\<lparr>wp_exit := Some (exit_of pc)\<rparr>
      | Inr ((cfg, a), n) \<Rightarrow> st\<lparr>wp_config := cfg, wp_app := a, wp_watchers := n\<rparr>)"

text \<open>One statement of \<open>Run\<close>; \<open>None\<close> while the command waits.\<close>

definition worker_command_Run ::
    "'raw worker_setup \<Rightarrow> goerror option \<Rightarrow> 'raw worker_process \<Rightarrow> 'raw worker_process option" where
  "worker_command_Run su close_error st =
     (case wp_stage st of
        FirstLoad \<Rightarrow> Some (load_now su (st\<lparr>wp_app := NewApp\<rparr>)\<lparr>wp_stage := RegisterCallback\<rparr>)
      | RegisterCallback \<Rightarrow> Some (st\<lparr>wp_callback := True, wp_stage := GoApp\<rparr>)
      | GoApp \<Rightarrow> Some (st\<lparr>wp_app := App_Run (wp_app st), wp_stage := GoServe\<rparr>)
      | GoServe \<Rightarrow> Some (st\<lparr>wp_serving := True, wp_stage := NotifyWorker\<rparr>)
      | NotifyWorker \<Rightarrow> Some (st\<lparr>wp_stage := AwaitStop\<rparr>)
      | AwaitStop \<Rightarrow> if wp_signal st then Some (st\<lparr>wp_signal := False, wp_stage := CloseServing\<rparr>) else None
      | CloseServing \<Rightarrow> Some (st\<lparr>wp_closed := True, wp_log := report_close close_error (wp_log st), wp_stage := TerminateApp\<rparr>)
      | TerminateApp \<Rightarrow> Some (st\<lparr>wp_app := App_Terminate (wp_app st), wp_exit := Some (ExitStatus 0)\<rparr>))"

text \<open>The library makes one report, and the worker's server returns.\<close>

definition report_change :: "'raw worker_setup \<Rightarrow> 'raw worker_process \<Rightarrow> 'raw worker_process" where
  "report_change su st =
     (let st1 = st\<lparr>wp_reports := wp_reports st - 1\<rparr> in if wp_callback st then load_now su st1 else st1)"

definition worker_serve_returns :: "goerror \<Rightarrow> 'raw worker_process \<Rightarrow> 'raw worker_process" where
  "worker_serve_returns e st =
     (case serve_goroutine (Some e) of
        Inl pc \<Rightarrow> st\<lparr>wp_exit := Some (exit_of pc)\<rparr>
      | Inr u \<Rightarrow> st\<lparr>wp_serving := False\<rparr>)"

datatype worker_label = WCommand | WReport | WFile | WServer | WSignal

inductive worker_step :: "'raw worker_setup \<Rightarrow> 'raw worker_process \<Rightarrow> worker_label \<Rightarrow> 'raw worker_process \<Rightarrow> bool"
  for su where
  command_goes: "wp_exit st = None \<Longrightarrow> worker_command_Run su close_error st = Some st'
    \<Longrightarrow> worker_step su st WCommand st'"
| change_reported: "wp_exit st = None \<Longrightarrow> 0 < wp_reports st \<Longrightarrow> worker_step su st WReport (report_change su st)"
| file_changed: "wp_exit st = None
    \<Longrightarrow> worker_step su st WFile (st\<lparr>wp_file := f, wp_reports := wp_reports st + wp_watchers st\<rparr>)"
| serving_returns: "wp_exit st = None \<Longrightarrow> wp_serving st \<Longrightarrow> e = ErrServerClosed \<longleftrightarrow> wp_closed st
    \<Longrightarrow> worker_step su st WServer (worker_serve_returns e st)"
| stopped_early: "wp_exit st = None \<Longrightarrow> worker_rank (wp_stage st) \<le> worker_rank NotifyWorker
    \<Longrightarrow> worker_step su st WSignal (st\<lparr>wp_exit := Some KilledBySignal\<rparr>)"
| stop_signal: "wp_exit st = None \<Longrightarrow> worker_rank NotifyWorker < worker_rank (wp_stage st)
    \<Longrightarrow> worker_step su st WSignal (st\<lparr>wp_signal := True\<rparr>)"

inductive_cases worker_stepE: "worker_step su st l st'"

inductive worker_run :: "'raw worker_setup \<Rightarrow> 'raw worker_process \<Rightarrow> worker_label list \<Rightarrow> 'raw worker_process \<Rightarrow> bool"
  for su st0 where
  worker_starts: "worker_run su st0 [] st0"
| worker_goes_on: "worker_run su st0 ls st \<Longrightarrow> worker_step su st l st' \<Longrightarrow> worker_run su st0 (ls @ [l]) st'"

text \<open>After \<open>initConfig\<close>: the configuration is loaded and its first watcher was started.\<close>

definition worker_start :: "worker_config \<Rightarrow> 'raw \<Rightarrow> 'raw worker_process" where
  "worker_start cfg raw =
     \<lparr>wp_stage = FirstLoad, wp_config = cfg, wp_app = NewApp, wp_file = Inr raw, wp_watchers = 1, wp_reports = 0,
      wp_callback = False, wp_serving = False, wp_closed = False, wp_signal = False, wp_log = [], wp_exit = None\<rparr>"

section \<open>Loads\<close>

text \<open>A configuration as the decoder makes it from files without nil entries.\<close>

definition entries_there :: "worker_config \<Rightarrow> bool" where
  "entries_there cfg \<longleftrightarrow> (\<forall>host. map_of (wc_Workload cfg) host \<noteq> Some None)"

lemma worker_load_total:
  assumes "decodes_files su file_entries file_version" and "entries_there cfg"
  shows "\<exists>cfg' a'. watched_change su (Inr raw) ((cfg, a), n) = Inr ((cfg', a'), n + 1)
    \<and> entries_there cfg' \<and> wc_Version cfg' = file_version raw
    \<and> a' = (case a of Some w \<Rightarrow> Some w
        | None \<Rightarrow> (case map_of (wc_Workload cfg') (worker_host su) of Some v \<Rightarrow> v | None \<Rightarrow> None))
    \<and> (\<forall>host. map_of (wc_Workload cfg') host =
        (case map_of (file_entries raw) host of None \<Rightarrow> map_of (wc_Workload cfg) host | Some x \<Rightarrow> Some x))"
proof -
  obtain cfg' where u: "ws_unmarshal su raw cfg = (cfg', None)" "wc_Version cfg' = file_version raw"
    using assms(1) unfolding decodes_files_def by blast
  have nn: "no_nil (file_entries raw)" using assms(1) unfolding decodes_files_def by blast
  have merged: "map_of (wc_Workload cfg') host =
      (case map_of (file_entries raw) host of None \<Rightarrow> map_of (wc_Workload cfg) host | Some x \<Rightarrow> Some x)" for host
    using assms(1) u(1) unfolding decodes_files_def merge_law_def by metis
  have there: "entries_there cfg'"
    using assms(2) no_nil_lookup [OF nn] by (fastforce simp: entries_there_def merged split: option.splits)
  have look: "HostWorkLoad (ws_show_config su) cfg' (HostName (ws_getenv su) DefaultHostName) =
      (case map_of (wc_Workload cfg') (worker_host su) of
         None \<Rightarrow> Inr (Inl (Errorf (''unable to find host '' @ worker_host su @ '' keySet config '' @ ws_show_config su cfg') None))
       | Some v \<Rightarrow> Inr (Inr v))"
    using there by (auto simp: HostWorkLoad_def Config_HostWorkLoad_def worker_host_def entries_there_def split: option.splits)
  have change: "on_config_change su (Inr raw) (cfg, a) = Inr (cfg', case a of Some w \<Rightarrow> Some w
        | None \<Rightarrow> (case map_of (wc_Workload cfg') (worker_host su) of Some v \<Rightarrow> v | None \<Rightarrow> None))"
  proof (cases "map_of (wc_Workload cfg') (worker_host su)")
    case None
    then show ?thesis using u(1) look
      by (cases a) (simp_all add: on_config_change_def updateWorkloadFromConfig_def LoadConfig_def)
  next
    case (Some v)
    then obtain w where "v = Some w" using there by (cases v) (auto simp: entries_there_def)
    then show ?thesis using u(1) look Some
      by (cases a) (simp_all add: on_config_change_def updateWorkloadFromConfig_def LoadConfig_def App_Assign_running
          App_Assign_def [of None])
  qed
  show ?thesis
    using change u there merged by (simp add: watched_change_def LoadConfig_def)
qed

lemma worker_load_unreadable: "watched_change su (Inl e) ((cfg, a), n) = Inl ProcessExit"
  by (simp add: watched_change_def on_config_change_def updateWorkloadFromConfig_def LoadConfig_def)

lemma load_now_cases:
  assumes "decodes_files su file_entries file_version" and "entries_there (wp_config st)"
  shows "(\<exists>e. wp_file st = Inl e \<and> load_now su st = st\<lparr>wp_exit := Some (ExitStatus 1)\<rparr>)
    \<or> (\<exists>raw cfg a. wp_file st = Inr raw \<and> entries_there cfg \<and> wc_Version cfg = file_version raw
        \<and> (\<forall>w. wp_app st = Some w \<longrightarrow> a = Some w)
        \<and> load_now su st = st\<lparr>wp_config := cfg, wp_app := a, wp_watchers := wp_watchers st + 1\<rparr>)"
proof (cases "wp_file st")
  case (Inl e)
  then show ?thesis by (simp add: load_now_def worker_load_unreadable exit_of_def)
next
  case (Inr raw)
  obtain cfg a where l: "watched_change su (Inr raw) ((wp_config st, wp_app st), wp_watchers st) = Inr ((cfg, a), wp_watchers st + 1)"
    "entries_there cfg" "wc_Version cfg = file_version raw" "\<And>w. wp_app st = Some w \<Longrightarrow> a = Some w"
    using worker_load_total [where cfg = "wp_config st" and raw = raw and a = "wp_app st" and n = "wp_watchers st", OF assms]
    by fastforce
  show ?thesis
    by (rule disjI2, intro exI [of _ raw] exI [of _ cfg] exI [of _ a]) (use l in \<open>simp add: load_now_def Inr\<close>)
qed

section \<open>How the process ends\<close>

definition worker_ended_by :: "'raw worker_process \<Rightarrow> worker_label list \<Rightarrow> bool" where
  "worker_ended_by st ls \<longleftrightarrow>
     (case wp_exit st of
        None \<Rightarrow> True
      | Some (ExitStatus n) \<Rightarrow> n = 0 \<and> last ls = WCommand \<and> WSignal \<in> set ls
          \<or> n = 1 \<and> (last ls = WServer \<or> (last ls = WCommand \<or> last ls = WReport) \<and> (\<exists>e. wp_file st = Inl e))
      | Some KilledBySignal \<Rightarrow> last ls = WSignal
      | Some (GoPanic pc) \<Rightarrow> False)"

definition worker_inv :: "worker_label list \<Rightarrow> 'raw worker_process \<Rightarrow> bool" where
  "worker_inv ls st \<longleftrightarrow>
     entries_there (wp_config st) \<and> (wp_app st \<noteq> None \<or> wp_callback st \<longrightarrow> wp_stage st \<noteq> FirstLoad) \<and> worker_ended_by st ls
     \<and> (wp_signal st \<or> worker_rank AwaitStop < worker_rank (wp_stage st) \<longrightarrow> WSignal \<in> set ls)"

lemma worker_step_inv:
  assumes "decodes_files su file_entries file_version" and "worker_inv ls st" and "worker_step su st l st'"
  shows "worker_inv (ls @ [l]) st' \<and> (\<forall>w. wp_app st = Some w \<longrightarrow> wp_app st' = Some w)"
  using assms(3)
proof cases
  case (command_goes close_error)
  have there: "entries_there (wp_config st)" and app: "wp_stage st = FirstLoad \<Longrightarrow> wp_app st = None \<and> \<not> wp_callback st"
    using assms(2) by (auto simp: worker_inv_def)
  show ?thesis
  proof (cases "wp_stage st")
    case FirstLoad
    then have st': "st' = load_now su (st\<lparr>wp_app := NewApp\<rparr>)\<lparr>wp_stage := RegisterCallback\<rparr>"
      using command_goes(3) by (simp add: worker_command_Run_def)
    have "entries_there (wp_config (st\<lparr>wp_app := NewApp\<rparr>))" using there by simp
    from load_now_cases [OF assms(1) this] show ?thesis
      using assms(2) app FirstLoad command_goes(1,2)
      by (auto simp: st' worker_inv_def worker_ended_by_def worker_rank_def NewApp_def)
  next
    case AwaitStop
    then show ?thesis
      using command_goes assms(2)
      by (auto simp: worker_command_Run_def worker_inv_def worker_ended_by_def worker_rank_def split: if_splits)
  next
    case TerminateApp
    then show ?thesis
      using command_goes assms(2)
      by (auto simp: worker_command_Run_def worker_inv_def worker_ended_by_def worker_rank_def App_Terminate_def)
  qed (use command_goes assms(2) in
      \<open>auto simp: worker_command_Run_def worker_inv_def worker_ended_by_def worker_rank_def App_Run_def\<close>)
next
  case change_reported
  let ?st = "st\<lparr>wp_reports := wp_reports st - 1\<rparr>"
  have "entries_there (wp_config ?st)" using assms(2) by (simp add: worker_inv_def)
  note load = load_now_cases [OF assms(1) this]
  have no: "wp_stage st \<noteq> FirstLoad" if "wp_app st \<noteq> None \<or> wp_callback st" using assms(2) that by (auto simp: worker_inv_def)
  show ?thesis
  proof (cases "wp_callback st")
    case True
    then show ?thesis
      using load assms(2) change_reported no
      by (auto simp: report_change_def worker_inv_def worker_ended_by_def)
  next
    case False
    then show ?thesis
      using assms(2) change_reported by (auto simp: report_change_def worker_inv_def worker_ended_by_def)
  qed
next
  case (serving_returns e)
  then show ?thesis
    using assms(2) by (auto simp: worker_serve_returns_def serve_goroutine_def exit_of_def worker_inv_def worker_ended_by_def)
qed (use assms(2) in \<open>auto simp: worker_inv_def worker_ended_by_def worker_rank_def\<close>)

lemma worker_run_inv:
  assumes "decodes_files su file_entries file_version" and "worker_run su st0 ls st" and "worker_inv [] st0"
  shows "worker_inv ls st"
  using assms(2)
proof (induction rule: worker_run.induct)
  case worker_starts
  show ?case by (rule assms(3))
next
  case (worker_goes_on ls st l st')
  then show ?case using worker_step_inv [OF assms(1)] by blast
qed

lemma worker_run_append:
  assumes "worker_run su st1 ls' st2" and "worker_run su st0 ls st1"
  shows "worker_run su st0 (ls @ ls') st2"
  using assms
proof (induction rule: worker_run.induct)
  case (worker_goes_on ls' st l st')
  then show ?case using worker_run.worker_goes_on [of su st0 "ls @ ls'"] by simp
qed simp

lemma worker_start_inv: "entries_there cfg \<Longrightarrow> worker_inv [] (worker_start cfg raw)"
  by (simp add: worker_inv_def worker_start_def worker_ended_by_def NewApp_def worker_rank_def)


section \<open>A change that is missed\<close>

lemma quiet_step:
  assumes "worker_step su st l st'" and "wp_reports st = 0" and "wp_stage st \<noteq> FirstLoad" and "l \<noteq> WFile"
  shows "wp_reports st' = 0 \<and> wp_stage st' \<noteq> FirstLoad \<and> wp_config st' = wp_config st \<and> wp_app st' = wp_app st"
  using assms(1)
proof cases
  case (command_goes close_error)
  then show ?thesis using assms
    by (cases "wp_stage st") (auto simp: worker_command_Run_def App_Run_def App_Terminate_def split: if_splits)
qed (use assms in \<open>auto simp: worker_serve_returns_def serve_goroutine_def split: sum.splits\<close>)

lemma quiet_run:
  assumes "worker_run su st ls st'" and "wp_reports st = 0" and "wp_stage st \<noteq> FirstLoad" and "WFile \<notin> set ls"
  shows "wp_reports st' = 0 \<and> wp_stage st' \<noteq> FirstLoad \<and> wp_config st' = wp_config st \<and> wp_app st' = wp_app st"
  using assms
proof (induction rule: worker_run.induct)
  case (worker_goes_on ls st1 l st2)
  then have q: "wp_reports st1 = 0 \<and> wp_stage st1 \<noteq> FirstLoad \<and> wp_config st1 = wp_config st \<and> wp_app st1 = wp_app st"
    and "l \<noteq> WFile" by auto
  then show ?case using quiet_step [OF worker_goes_on.hyps(2)] by simp
qed simp

text \<open>
  C12 A change of the file can be missed. The watchers run from the first load on, while the function
  that loads again is registered after it: a change that is reported in between leads to no load. The
  process then goes on with the configuration of the old file, which is also what its version endpoint
  answers from, in every continuation in which the file does not change once more. A report that comes
  after the registration does load the file that is there.
\<close>

theorem worker_misses_change:
  assumes "decodes_files su file_entries file_version" and "entries_there cfg"
  shows "(\<exists>st. worker_run su (worker_start cfg raw) [WCommand, WFile, WReport, WReport, WCommand] st
        \<and> wp_exit st = None \<and> wp_callback st \<and> wp_file st = Inr raw' \<and> wc_Version (wp_config st) = file_version raw
        \<and> (\<forall>ls st'. worker_run su st ls st' \<and> WFile \<notin> set ls \<longrightarrow>
              wp_config st' = wp_config st \<and> wp_app st' = wp_app st))
    \<and> (\<forall>ls st raw2. worker_run su (worker_start cfg raw) ls st \<and> wp_exit st = None \<and> wp_callback st
        \<and> 0 < wp_reports st \<and> wp_file st = Inr raw2 \<longrightarrow>
          worker_step su st WReport (report_change su st)
          \<and> wc_Version (wp_config (report_change su st)) = file_version raw2)"
proof (rule conjI)
  let ?st0 = "worker_start cfg raw"
  have e0: "wp_exit ?st0 = None" "wp_file ?st0 = Inr raw" "wp_app ?st0 = NewApp" "entries_there (wp_config ?st0)"
    "wp_stage ?st0 = FirstLoad" "wp_watchers ?st0 = 1"
    using assms(2) by (simp_all add: worker_start_def)
  have reset: "?st0\<lparr>wp_app := NewApp\<rparr> = ?st0" by (simp add: worker_start_def)
  from load_now_cases [OF assms(1) e0(4)] e0(2) obtain cfg1 a where l: "wc_Version cfg1 = file_version raw"
    "load_now su ?st0 = ?st0\<lparr>wp_config := cfg1, wp_app := a, wp_watchers := wp_watchers ?st0 + 1\<rparr>" by auto
  define st1 where "st1 = ?st0\<lparr>wp_config := cfg1, wp_app := a, wp_watchers := 2, wp_stage := RegisterCallback\<rparr>"
  define st2 where "st2 = st1\<lparr>wp_file := Inr raw', wp_reports := wp_reports st1 + wp_watchers st1\<rparr>"
  define st3 where "st3 = st2\<lparr>wp_reports := 1\<rparr>"
  define st4 where "st4 = st2\<lparr>wp_reports := 0\<rparr>"
  define st5 where "st5 = st4\<lparr>wp_callback := True, wp_stage := GoApp\<rparr>"
  note sts = st1_def st2_def st3_def st4_def st5_def l(1) worker_start_def
  have "worker_command_Run su None ?st0 = Some st1"
    by (simp add: worker_command_Run_def e0(5,6) reset l(2) st1_def)
  from worker_goes_on [OF worker_starts command_goes [OF e0(1) this]]
  have r1: "worker_run su ?st0 [WCommand] st1" by simp
  have "wp_exit st1 = None" "wp_exit st2 = None" "wp_exit st3 = None" "wp_exit st4 = None" by (simp_all add: sts)
  note alive = this
  from worker_goes_on [OF r1 file_changed [OF alive(1), of su "Inr raw'"]]
  have r2: "worker_run su ?st0 [WCommand, WFile] st2" by (simp add: st2_def)
  have rep: "report_change su st2 = st3" "report_change su st3 = st4" "0 < wp_reports st2" "0 < wp_reports st3"
    by (simp_all add: report_change_def sts)
  have "worker_run su ?st0 [WCommand, WFile, WReport, WReport] st4"
    using worker_goes_on [OF worker_goes_on [OF r2 change_reported [OF alive(2) rep(3), of su, unfolded rep(1)]]
        change_reported [OF alive(3) rep(4), of su, unfolded rep(2)]] by simp
  moreover have "worker_command_Run su None st4 = Some st5" by (simp add: worker_command_Run_def sts)
  ultimately have r5: "worker_run su ?st0 [WCommand, WFile, WReport, WReport, WCommand] st5"
    using worker_goes_on [OF _ command_goes [OF alive(4)], of su ?st0] by fastforce
  have "wp_reports st5 = 0" "wp_stage st5 \<noteq> FirstLoad" by (simp_all add: sts)
  then have "\<forall>ls st'. worker_run su st5 ls st' \<and> WFile \<notin> set ls \<longrightarrow> wp_config st' = wp_config st5 \<and> wp_app st' = wp_app st5"
    using quiet_run by blast
  moreover have "wp_exit st5 = None" "wp_callback st5" "wp_file st5 = Inr raw'" "wc_Version (wp_config st5) = file_version raw"
    by (simp_all add: sts)
  ultimately show "\<exists>st. worker_run su ?st0 [WCommand, WFile, WReport, WReport, WCommand] st
        \<and> wp_exit st = None \<and> wp_callback st \<and> wp_file st = Inr raw' \<and> wc_Version (wp_config st) = file_version raw
        \<and> (\<forall>ls st'. worker_run su st ls st' \<and> WFile \<notin> set ls \<longrightarrow>
              wp_config st' = wp_config st \<and> wp_app st' = wp_app st)"
    using r5 by (intro exI [of _ st5] conjI)
next
  show "\<forall>ls st raw2. worker_run su (worker_start cfg raw) ls st \<and> wp_exit st = None \<and> wp_callback st
        \<and> 0 < wp_reports st \<and> wp_file st = Inr raw2 \<longrightarrow>
          worker_step su st WReport (report_change su st)
          \<and> wc_Version (wp_config (report_change su st)) = file_version raw2"
  proof (intro allI impI)
    fix ls and st :: "'a worker_process" and raw2
    assume r: "worker_run su (worker_start cfg raw) ls st \<and> wp_exit st = None \<and> wp_callback st
        \<and> 0 < wp_reports st \<and> wp_file st = Inr raw2"
    then have "worker_inv ls st" using worker_run_inv [OF assms(1) _ worker_start_inv [OF assms(2)]] by blast
    then have "entries_there (wp_config (st\<lparr>wp_reports := wp_reports st - 1\<rparr>))" by (simp add: worker_inv_def)
    from load_now_cases [OF assms(1) this] have "wc_Version (wp_config (report_change su st)) = file_version raw2"
      using r by (auto simp: report_change_def)
    then show "worker_step su st WReport (report_change su st)
          \<and> wc_Version (wp_config (report_change su st)) = file_version raw2"
      using r change_reported by blast
  qed
qed

section \<open>Examples\<close>

definition example_worker_config :: worker_config where
  "example_worker_config = \<lparr>wc_Workload = [(''w-0'', Some \<lparr>wl_jobs = [Job ''a''], wl_version = 0\<rparr>)], wc_Version = 1\<rparr>"

lemma example_entries: "entries_there example_worker_config"
  by (simp add: entries_there_def example_worker_config_def)

theorem worker_misses_change_witness:
  "\<exists>st. worker_run example_setup (worker_start example_worker_config ([(''w-0'', Some \<lparr>wl_jobs = [Job ''a''], wl_version = 0\<rparr>)], 1))
      [WCommand, WFile, WReport, WReport, WCommand] st
    \<and> wp_file st = Inr ([(''w-0'', Some \<lparr>wl_jobs = [Job ''b''], wl_version = 0\<rparr>)], 2) \<and> wc_Version (wp_config st) = 1"
  using worker_misses_change [OF example_setup_decodes example_entries, THEN conjunct1,
      of "([(''w-0'', Some \<lparr>wl_jobs = [Job ''a''], wl_version = 0\<rparr>)], 1)" "([(''w-0'', Some \<lparr>wl_jobs = [Job ''b''], wl_version = 0\<rparr>)], 2)"]
  by fastforce


end
