(* ===== verification/Entry_Points.thy ===== *)
theory Entry_Points
  imports Worker_Command
begin

text \<open>
  The two programs from \<open>main\<close> on: \<open>main.go\<close> and the root commands of \<open>services/controller/cmd\<close> and
  \<open>services/worker/cmd\<close>, with the commands that \<open>init\<close> adds to them. \<open>cobra\<close> is the library that
  chooses a command from the arguments, runs the initialisation and then the command's \<open>Run\<close>.
\<close>

record command =
  cmd_Use :: string
  cmd_Short :: string
  cmd_Long :: string

section \<open>The controller\<close>

definition controller_rootCmd :: command where
  "controller_rootCmd =
     \<lparr>cmd_Use = ''root'', cmd_Short = ''root controller command'', cmd_Long = ''root controller command''\<rparr>"

definition internalCmd :: command where
  "internalCmd =
     \<lparr>cmd_Use = ''internal'', cmd_Short = ''swarm internal controller'',
      cmd_Long = ''swarm internal controller balance configured keys between swarm peers''\<rparr>"

definition externalCmd :: command where
  "externalCmd =
     \<lparr>cmd_Use = ''external'', cmd_Short = ''swarm external controller, useful on development path'',
      cmd_Long = ''swarm internal controller balance configured keys between swarm peers, useful on development path''\<rparr>"

text \<open>The commands of the root command, as the \<open>init\<close> functions of the package add them, by file name.\<close>

definition internal_init :: "command list \<Rightarrow> command list" where
  "internal_init commands = commands @ [internalCmd]"

definition external_init :: "command list \<Rightarrow> command list" where
  "external_init commands = commands @ [externalCmd]"

definition controller_commands :: "command list" where
  "controller_commands = internal_init (external_init [])"

section \<open>The worker\<close>

definition worker_rootCmd :: command where
  "worker_rootCmd =
     \<lparr>cmd_Use = ''root'', cmd_Short = ''root controller command'', cmd_Long = ''root controller command''\<rparr>"

definition workerCmd :: command where
  "workerCmd =
     \<lparr>cmd_Use = ''worker'', cmd_Short = ''worker process assignations'',
      cmd_Long = ''worker process assigned Jobs, support hot reload starting/stopping required consumers pool''\<rparr>"

definition worker_cmd_init :: "command list \<Rightarrow> command list" where
  "worker_cmd_init commands = commands @ [workerCmd]"

definition worker_commands :: "command list" where
  "worker_commands = worker_cmd_init []"

text \<open>The flags of the worker's root command; \<open>initConfig\<close> is \<open>worker_initConfig\<close>.\<close>

definition worker_init :: "(string \<Rightarrow> string) \<Rightarrow> flag_set \<Rightarrow> flag_set" where
  "worker_init getenv fs = SetCoreFlags getenv ''worker'' fs"

section \<open>Execute and main\<close>

text \<open>
  \<open>cobra\<close> answers with an error, or with the result of the command it ran, which is how the process
  ended or nothing if \<open>Run\<close> returned. \<open>main\<close> then returns as well.
\<close>

definition Execute :: "(goerror \<Rightarrow> string) \<Rightarrow> goerror + exit option \<Rightarrow> string list \<times> exit option" where
  "Execute show_error outcome =
     (case outcome of
        Inl err \<Rightarrow> ([show_error err], Some (ExitStatus 1))
      | Inr ended \<Rightarrow> ([], ended))"

definition worker_Execute :: "(goerror \<Rightarrow> string) \<Rightarrow> goerror + exit option \<Rightarrow> string list \<times> exit option" where
  "worker_Execute show_error outcome =
     (case outcome of
        Inl err \<Rightarrow> ([show_error err], Some (ExitStatus 1))
      | Inr ended \<Rightarrow> ([], ended))"

definition main_returns :: "string list \<times> exit option \<Rightarrow> string list \<times> exit" where
  "main_returns r = (fst r, case snd r of None \<Rightarrow> ExitStatus 0 | Some e \<Rightarrow> e)"

definition controller_main :: "(goerror \<Rightarrow> string) \<Rightarrow> goerror + exit option \<Rightarrow> string list \<times> exit" where
  "controller_main show_error outcome = main_returns (Execute show_error outcome)"

definition worker_main :: "(goerror \<Rightarrow> string) \<Rightarrow> goerror + exit option \<Rightarrow> string list \<times> exit" where
  "worker_main show_error outcome = main_returns (worker_Execute show_error outcome)"

text \<open>
  The library: the first argument names the command, and flags and the initialisation come before its
  \<open>Run\<close>. An unknown command is an error. \<open>cobra\<close> takes the initialisation, the commands and what each
  ends with.
\<close>

definition cobra_law ::
    "((string \<Rightarrow> exit option) \<Rightarrow> panic option \<Rightarrow> command list \<Rightarrow> string \<Rightarrow> goerror + exit option)
     \<Rightarrow> (string \<Rightarrow> goerror) \<Rightarrow> bool" where
  "cobra_law cobra unknown \<longleftrightarrow>
     (\<forall>run_command init_failed commands name.
        cobra run_command init_failed commands name =
          (if name \<notin> cmd_Use ` set commands then Inl (unknown name)
           else case init_failed of Some pc \<Rightarrow> Inr (Some (exit_of pc)) | None \<Rightarrow> Inr (run_command name)))"

lemma example_cobra_law:
  "cobra_law (\<lambda>run_command init_failed commands name.
      case find (\<lambda>c. cmd_Use c = name) commands of
        None \<Rightarrow> Inl (OtherError (''unknown command '' @ name))
      | Some c \<Rightarrow> (case init_failed of Some pc \<Rightarrow> Inr (Some (exit_of pc)) | None \<Rightarrow> Inr (run_command (cmd_Use c))))
    (\<lambda>name. OtherError (''unknown command '' @ name))"
  by (auto simp: cobra_law_def find_None_iff find_Some_iff split: option.splits)

text \<open>
  The status of the two programs: 1 with a message for a command that the program does not have, 1 if
  the initialisation fails, and what the command ends with, 0 if it returns. The arguments of the
  manifests under \<open>src/k8s\<close>, \<open>internal\<close> and \<open>worker\<close>, are commands of the two images.
\<close>

lemma program_status:
  assumes "cobra_law cobra unknown"
  shows "controller_main show_error (cobra run_command init_failed controller_commands name) =
     (if name \<noteq> ''internal'' \<and> name \<noteq> ''external'' then ([show_error (unknown name)], ExitStatus 1)
      else case init_failed of Some pc \<Rightarrow> ([], exit_of pc)
        | None \<Rightarrow> ([], case run_command name of None \<Rightarrow> ExitStatus 0 | Some e \<Rightarrow> e))"
    and "worker_main show_error (cobra run_command init_failed worker_commands name) =
     (if name \<noteq> ''worker'' then ([show_error (unknown name)], ExitStatus 1)
      else case init_failed of Some pc \<Rightarrow> ([], exit_of pc)
        | None \<Rightarrow> ([], case run_command name of None \<Rightarrow> ExitStatus 0 | Some e \<Rightarrow> e))"
  using assms [unfolded cobra_law_def, rule_format]
  by (simp_all add: controller_main_def worker_main_def main_returns_def Execute_def worker_Execute_def
      controller_commands_def internal_init_def external_init_def internalCmd_def externalCmd_def
      worker_commands_def worker_cmd_init_def workerCmd_def split: option.split)

end
