(* ===== verification/Spec2Isabelle.thy ===== *)
theory Spec2Isabelle
  imports Operator Worker_Service Runtime_Config Events Swarm_Copies Informer_Factory
    Client_Setup Fake_Clientset Published_State Entry_Points
begin

text \<open>
  A verification library for k8s-swarm, a Kubernetes operator in Go that spreads a fixed list of
  jobs over the pods of a stateful set. Paths below are under \<open>src/services/controller/internal\<close>
  unless they start with \<open>pkg\<close> or \<open>worker\<close>.

  \<^bold>\<open>The program.\<close> The controller watches pods, stateful sets and (outside the cluster) swarm
  resources. An informer of \<open>client-go\<close> calls an event handler, which selects objects by label and
  queues an event; a queue worker takes it and hands it to the processor, which asks the informer's
  store whether the object still exists and calls the resource's handler. The stateful set's handler
  sets the expected size of the worker pool, the pods' handler registers and removes workers. On a
  change of size the pool balances the jobs, writes the assignation to a config map and to a swarm
  resource, and marks workers; every five seconds the conciliation restarts marked workers by
  deleting their pods. A worker process reads the mounted config map on start and on change, takes
  the jobs of its own host name, and serves them with their version over HTTP.

  \<^bold>\<open>Conventions\<close> (\<open>Prelude\<close>, \<open>GoText\<close>). A Go function that may panic returns \<open>'a go = panic + 'a\<close>;
  \<open>log.Fatalf\<close> is the panic \<open>ProcessExit\<close>. Go's \<open>error\<close> is \<open>goerror option\<close> or the left of a sum. \<open>int\<close>
  and \<open>int64\<close> are kept as \<open>int\<close>, and operations that can leave 64 bits go through \<open>wrap64\<close>. A map is an
  association list with distinct keys (\<open>mwf\<close>), \<open>range\<close> over it takes a permutation as its argument
  (\<open>range_order\<close>), since the language leaves the order open. Code outside the repository is a
  parameter: API server, informers, queues, YAML and JSON codecs, HTTP, viper, cobra, clocks. What is
  relied on is a named predicate (\<open>cm_laws\<close>, \<open>swarm_laws\<close>, \<open>separate_laws\<close>, \<open>restarts_unseen\<close>, \<open>codec_serves\<close>, \<open>requeue_laws\<close>,
  \<open>codec_ok\<close>, \<open>lawful_copy\<close>, \<open>serves_swarms\<close>, \<open>viper_reads\<close>, \<open>shutdown_laws\<close>, \<open>tracks\<close>, \<open>merge_law\<close>,
  \<open>decodes_files\<close>, \<open>queue_holds\<close>, \<open>keeps_data\<close>, \<open>mux_law\<close>, \<open>cobra_law\<close>, \<open>scheme_laws\<close>, \<open>adds_swarms\<close>, \<open>reacts\<close>,
  \<open>invokes\<close>), each met by a concrete instance.

  \<^bold>\<open>The parts.\<close>
  \<^item> \<open>Config\<close>: \<open>pkg/config/config.go\<close>; jobs, workloads, \<open>Difference\<close>, \<open>Equals\<close>. \<open>Runtime_Config\<close>: flags,
    environment, logger and log formatting (\<open>pkg/config\<close>, \<open>pkg/log\<close>, \<open>cmd/root.go\<close>).
  \<^item> \<open>Assignment\<close>: \<open>app/swarm/state.go\<close>, as \<open>assignment_state\<close>. \<open>BalanceWorkload\<close> refines the abstract
    specification \<open>assignation\<close>; its totality, invariant and sizes, and when every job is assigned once.
  \<^item> \<open>Worker\<close>, \<open>Worker_Pool\<close>, \<open>Events\<close>: \<open>app/swarm/worker.go\<close>, \<open>pool.go\<close>, \<open>events.go\<close>. Workers live in a
    heap of addresses, as pool and goroutines share pointers. \<open>Pool_Runtime\<close> is the step relation
    \<open>pool_step\<close> of conciliations, resizes and restart goroutines in every interleaving, with its
    reachable states, safety and termination.
  \<^item> \<open>Executor\<close>, \<open>Storage\<close>, \<open>Configmap_Provider\<close>, \<open>Swarm_Provider\<close>: \<open>app/swarm/executor.go\<close> and the
    providers under \<open>infra/k8s/operator\<close>: round trips, panics and errors, and what readers see after
    a resize. \<open>Kube\<close> holds the objects of \<open>apis/swarm/v1alpha1/types.go\<close> and the API server's interface.
  \<^item> \<open>Resource_Events\<close>, \<open>Processor\<close>, \<open>Pod_Handler\<close>, \<open>StatefulSet_Handler\<close>, \<open>Crd_Handler\<close>: \<open>event.go\<close>,
    \<open>selector.go\<close>, \<open>resource_event_handler.go\<close>, \<open>processor.go\<close>, \<open>controller.go\<close> and the handlers of
    \<open>infra/k8s/operator\<close>; \<open>Operator\<close> puts them together as \<open>cmd/internal.go\<close> does.
  \<^item> \<open>Deep_Copy\<close> and \<open>Swarm_Copies\<close>: the generated deep copies over an explicit store.
    \<open>Swarm_Client\<close>: the generated client and the swarm watcher. \<open>Informer_Factory\<close>: the generated
    informers and listers.
  \<^item> \<open>Controller_Run\<close>: the pod and stateful set watchers, \<open>NewEventProcessor\<close>, \<open>NewController\<close>, and \<open>Run\<close>
    of processor and controller as the step relation \<open>run_step\<close> of the calling goroutine, the queue
    worker and the library; order of synchronisation and handling, and termination after a stop.
    \<open>Wiring\<close>: what \<open>cmd/internal.go\<close> and \<open>cmd/external.go\<close> build from the settings, and the way from
    an added stateful set to the published jobs in the controller so built.
  \<^item> \<open>Typed_Run\<close>: the callbacks of the informers, and that controllers fed with objects of their kind are
    type sound. \<open>Command_Run\<close>: both controller commands as processes, \<open>process_step\<close> interleaving \<open>Run\<close>
    of the command with its controllers, informers, pool, server and signals; \<open>Command_Safety\<close>: how
    these processes end, and that they are runs of the pool. \<open>Published_State\<close>: that in all their runs
    config map and swarm show the assignation of the pool, up to a refused change of size.
  \<^item> \<open>Http_Server\<close>: routes and servers of the three commands, and the version a controller reads from a
    worker. \<open>Worker_Command\<close>: the worker's command as a process, \<open>worker_step\<close>, with the changes of its
    file and the watchers that report them. \<open>Entry_Points\<close>: \<open>main.go\<close>, \<open>Execute\<close> and the commands.
  \<^item> \<open>Registration\<close>: \<open>apis/swarm/v1alpha1/register.go\<close> and the generated packages that register its types
    in a scheme. \<open>Client_Setup\<close>: the generated clientset and the builders of \<open>infra/k8s/client.go\<close>, over
    cells of configurations. \<open>Fake_Swarms\<close> and \<open>Fake_Clientset\<close>: the generated fake client and clientset
    for tests, over the library's object tracker.
  \<^item> \<open>Worker_Service\<close>: the functions of the worker (\<open>worker/internal\<close>, \<open>worker/cmd\<close>) and the health
    endpoint. \<open>Worker_Process\<close>: the loads of the worker process and its file watchers.
  \<^item> This theory: from the controller's resize to the jobs a worker runs.

  \<^bold>\<open>Interfaces\<close> are locales, interpreted on the model of the component that provides them: \<open>assigner\<close>,
  \<open>sort_data\<close>, \<open>worker_registry\<close>, \<open>resizable\<close> (\<open>Interfaces\<close>), the storage's \<open>chain\<close>, \<open>object_selector\<close>,
  \<open>event_handling\<close> and \<open>resource_handling\<close> with a sublocale between them, and the copiers of
  \<open>Deep_Copy\<close>, where the slice of a copied type is a sublocale.

  \<^bold>\<open>Bounds and fuel.\<close> Only \<open>runWorker\<close> takes fuel: the loop ends when the queue is shut down, so the
  fuel is a number of rounds and its statements hold for every number. \<open>errorEvent_String\<close> is a
  partial function and proved never to return. All other loops are recursions proved to terminate.
  \<open>go_slice\<close> checks the upper bound against the length, where Go checks the capacity; the callers stay
  within it.

  \<^bold>\<open>Not modelled\<close> are package documentation, the empty expansion interfaces and the imports of \<open>hack/tools.go\<close>, which have
  no operation, and the tests. Interleavings inside a critical section or a callback are not split. Logging is left out where nothing depends on it, and so are contexts,
  which are never cancelled.
\<close>

section \<open>From the controller to a worker\<close>

text \<open>
  The assignation that the controller writes as YAML is the file that \<open>viper\<close> reads in the
  worker. \<open>viper\<close> lower-cases keys and splits them at dots, so only keys without upper-case
  letters and dots are read as they are written; the keys are the workers' names.
\<close>

definition plain_char :: "char \<Rightarrow> bool" where
  "plain_char c \<longleftrightarrow> (let n = of_char c :: nat in n < 128 \<and> n \<noteq> 46 \<and> \<not> (65 \<le> n \<and> n \<le> 90))"

definition plain_key :: "string \<Rightarrow> bool" where
  "plain_key s = list_all plain_char s"

text \<open>
  What the worker's reader does with a document that the encoder wrote for an assignation with
  plain keys and without nil entries: it is read and decoded without an error into any
  configuration, with the version and the workloads that were written.
\<close>

definition viper_reads ::
    "(workloads \<Rightarrow> goerror + string) \<Rightarrow> (string \<Rightarrow> goerror + 'raw)
     \<Rightarrow> ('raw \<Rightarrow> worker_config \<Rightarrow> worker_config \<times> goerror option)
     \<Rightarrow> ('raw \<Rightarrow> (string, workload option) gomap) \<Rightarrow> workloads \<Rightarrow> bool" where
  "viper_reads encode read_text unmarshal file_entries a \<longleftrightarrow>
     (\<forall>s. encode a = Inr s \<longrightarrow> no_nil (ws_workloads a) \<longrightarrow> (\<forall>k \<in> mkeys (ws_workloads a). plain_key k)
       \<longrightarrow> (\<exists>raw. read_text s = Inr raw \<and> jobs_at (file_entries raw) = jobs_at (ws_workloads a)
             \<and> (\<forall>cfg. \<exists>cfg'. unmarshal raw cfg = (cfg', None) \<and> wc_Version cfg' = ws_version a)))"

lemma plain_worker_name:
  assumes "plain_key setName" and "0 \<le> i"
  shows "plain_key (worker_name setName i)"
proof -
  have "plain_char c" if "c \<in> set (show_nat m)" for c m
    using show_nat_digits [OF that] by (auto simp: is_digit_def plain_char_def Let_def)
  then have "list_all plain_char (show_nat (nat i))" by (simp add: list_all_iff)
  moreover have "plain_char (CHR ''-'')" by (simp add: plain_char_def)
  ultimately show ?thesis
    using assms by (simp add: plain_key_def worker_name_def show_int_nonneg)
qed

lemma jobs_at_SomeD:
  "jobs_at m k = Some js \<Longrightarrow> \<exists>w. map_of m k = Some (Some w) \<and> wl_jobs w = js"
  by (auto simp: jobs_at_def split: option.splits)

text \<open>The text of the config map after a successful \<open>Assign\<close>.\<close>

lemma assign_writes_text:
  assumes "wiring_ok c" and "controller_assign c k a = Inr (k', None)"
    and "kube_getConfigMap (wi_kube c) k' (cp_namespace (wi_cm c)) (cp_configMapName (wi_cm c)) = Inr cm"
  shows "wi_encode c a = Inr (config_text cm)"
proof -
  let ?get = "\<lambda>k. kube_getConfigMap (wi_kube c) k (cp_namespace (wi_cm c)) (cp_configMapName (wi_cm c))"
  have "ProviderMiddleware_Set (cm_Set (wi_kube c) (wi_encode c) (wi_cm c))
      (swarm_Set (wi_versioned c) (wi_now c) (wi_order c) (wi_swarm c)) k a = Inr (k', None)"
    using assms(2) by (simp add: controller_assign_def executor_Assign_def)
  then obtain k1 where k1: "cm_Set (wi_kube c) (wi_encode c) (wi_cm c) k a = Inr (k1, None)"
    and s: "swarm_Set (wi_versioned c) (wi_now c) (wi_order c) (wi_swarm c) k1 a = Inr (k', None)"
    by (cases rule: middleware_cases) auto
  obtain cm0 buf data r where g: "?get k = Inr cm0" "wi_encode c a = Inr buf" "cm_data cm0 = Some data"
    "kube_updateConfigMap (wi_kube c) k (cp_namespace (wi_cm c))
       (cm0\<lparr>cm_data := Some (AList.update defaultConfigKey buf data)\<rparr>) = (k1, Inr r)"
    using k1 by (rule cm_Set_cases)
  obtain cm1 where cm1: "?get k1 = Inr cm1" "cm_data cm1 = Some (AList.update defaultConfigKey buf data)"
    using cm_lawsD [OF _ g(1) _ g(4)] assms(1) by (auto simp: wiring_ok_def)
  have "?get k' = ?get k1"
    using assms(1) s by (intro swarm_Set_frame) (simp_all add: wiring_ok_def)
  then show ?thesis using g(2) cm1 assms(3) by (simp add: config_text_def map_simps)
qed

text \<open>
  C2 From the stateful set's size to the worker's jobs: after a resize to \<open>n\<close> that the storages
  accept, a worker process that loads the mounted config map finds, for the host name of
  ordinal \<open>i\<close> below \<open>n\<close>, exactly the part of the jobs specified for it and the published
  version, whatever it had loaded before; a process that has just started runs on this part,
  and one that was running keeps its first workload.
\<close>

theorem assignation_reaches_worker:
  assumes "wiring_ok c" and "assignment_inv (p_state p)" and "pool_inv p" and "range_order ro"
    and "p_expectedSize p \<noteq> n"
    and "UpdateExpectedSize BalanceWorkload Workloads (controller_assign c) ro n (p, k) = Inr (p', k')"
    and "controller_assign c k (Workloads (p_state p')) = Inr (k', None)"
    and "kube_getConfigMap (wi_kube c) k' (cp_namespace (wi_cm c)) (cp_configMapName (wi_cm c)) = Inr cm"
    and "read_config path name = read_text (config_text cm)"
    and "viper_reads (wi_encode c) read_text unmarshal file_entries (Workloads (p_state p'))"
    and "merge_law unmarshal file_entries" and "plain_key (as_setName (p_state p))"
    and "0 \<le> i" and "i < n" and "HostName getenv DefaultHostName = worker_name (as_setName (p_state p)) i"
  shows "\<exists>cfg' w. updateWorkloadFromConfig read_config unmarshal show_config getenv path name (cfg, a) =
      Inr ((cfg', Some (case a of None \<Rightarrow> w | Some u \<Rightarrow> u)), None)
    \<and> HostWorkLoad show_config cfg' (worker_name (as_setName (p_state p)) i) = Inr (Inr (Some w))
    \<and> wl_jobs w = part_of (as_jobs (p_state p)) n i
    \<and> wc_Version cfg' = p_version p'"
proof -
  let ?w = "Workloads (p_state p')" and ?h = "worker_name (as_setName (p_state p)) i"
  obtain e where u: "map_of (ws_workloads ?w) = assignment_target (p_state p) n"
    and b: "BalanceWorkload (p_state p) n (p_version p') = Inr (p_state p', None)"
    by (rule update_published [OF assms(2-6)])
  have inv: "assignment_inv (p_state p')" by (rule asg.balance_ok [OF assms(2) b])
  have "no_nil (ws_workloads ?w)" using inv by (simp add: assignment_inv_def Workloads_def)
  moreover have "plain_key k" if "k \<in> mkeys (ws_workloads ?w)" for k
  proof -
    have "k \<in> worker_name (as_setName (p_state p)) ` {0..<n}"
      using that assignation_defined [of "as_setName (p_state p)" "as_jobs (p_state p)" n k]
      by (simp add: mkeys_lookup u assignment_target_def)
    then show ?thesis using plain_worker_name [OF assms(12)] by auto
  qed
  ultimately obtain raw where raw: "read_text (config_text cm) = Inr raw"
    "jobs_at (file_entries raw) = jobs_at (ws_workloads ?w)"
    "\<forall>cfg. \<exists>cfg'. unmarshal raw cfg = (cfg', None) \<and> wc_Version cfg' = ws_version ?w"
    using assms(10) assign_writes_text [OF assms(1,7,8)] unfolding viper_reads_def by blast
  obtain cfg' where cfg': "unmarshal raw cfg = (cfg', None)" "wc_Version cfg' = ws_version ?w"
    using raw(3) by blast
  have "jobs_at (file_entries raw) ?h = Some (part_of (as_jobs (p_state p)) n i)"
    using assms(13,14) by (simp add: raw(2) jobs_at_def u assignment_target_def assignation_at)
  then obtain w where w: "map_of (file_entries raw) ?h = Some (Some w)"
    "wl_jobs w = part_of (as_jobs (p_state p)) n i"
    using jobs_at_SomeD by blast
  then have "map_of (wc_Workload cfg') ?h = Some (Some w)"
    using assms(11) cfg'(1) by (simp add: merge_law_def)
  then have host: "HostWorkLoad show_config cfg' ?h = Inr (Inr (Some w))"
    by (simp add: HostWorkLoad_def Config_HostWorkLoad_def)
  have "updateWorkloadFromConfig read_config unmarshal show_config getenv path name (cfg, a) =
      Inr ((cfg', Some (case a of None \<Rightarrow> w | Some u \<Rightarrow> u)), None)"
    using host cfg'(1) raw(1)
    by (cases a) (simp_all add: updateWorkloadFromConfig_def LoadConfig_def assms(9,15) App_Assign_running
        App_Assign_def [of None])
  moreover have "ws_version ?w = p_version p'"
    using asg.balance_version [OF assms(2) b] assms(13,14) by simp
  ultimately show ?thesis using host w(2) cfg'(2) by auto
qed

theorem assignation_reaches_worker_witness:
  "\<exists>path read_config unmarshal cfg' w.
     updateWorkloadFromConfig read_config (unmarshal :: (string, workload option) gomap \<Rightarrow> _)
       (\<lambda>c. []) (\<lambda>v. ''w-2'') path ''config.yml'' (\<lparr>wc_Workload = [], wc_Version = 0\<rparr>, NewApp) = Inr ((cfg', Some w), None)
     \<and> wl_jobs w = [Job ''c''] \<and> wc_Version cfg' = 2"
proof -
  let ?entries = "[(''w-0'', Some \<lparr>wl_jobs = [Job ''a'', Job ''b''], wl_version = 0\<rparr>),
          (''w-1'', Some \<lparr>wl_jobs = [Job ''c'', Job ''d''], wl_version = 0\<rparr>),
          (''w-2'', Some \<lparr>wl_jobs = [Job ''c''], wl_version = 0\<rparr>)]"
  let ?unmarshal = "\<lambda>(raw :: (string, workload option) gomap) cfg.
      (cfg\<lparr>wc_Workload := raw @ wc_Workload cfg, wc_Version := 2\<rparr>, None)"
  let ?read_text = "\<lambda>s :: string. Inr ?entries :: goerror + (string, workload option) gomap"
  let ?cfg = "\<lparr>wc_Workload = [], wc_Version = 0\<rparr>"
  obtain p' k' where u: "UpdateExpectedSize BalanceWorkload Workloads (controller_assign example_wiring) rev 3
       (example_pool, example_cluster) = Inr (p', k')"
    "controller_assign example_wiring example_cluster (Workloads (p_state p')) = Inr (k', None)"
    and w: "Workloads (p_state p') = \<lparr>ws_workloads = ?entries, ws_version = 2\<rparr>"
    by (rule example_update)
  have ne: "p_expectedSize example_pool \<noteq> 3" by (simp add: example_pool_ok)
  have codec: "codec_ok (wi_encode example_wiring) (\<lambda>s. Inr s) (\<lambda>y. Inr (Workloads (p_state p')))
      (Workloads (p_state p'))" by (simp add: codec_ok_def)
  have "config_shown example_wiring (\<lambda>s. Inr s) (\<lambda>y. Inr (Workloads (p_state p'))) k' \<noteq> None"
    using update_shown(1) [OF example_wiring_ok example_pool_ok(1,2) range_order_rev ne u codec] by simp
  then obtain cm where cm: "kube_getConfigMap (wi_kube example_wiring) k'
      (cp_namespace (wi_cm example_wiring)) (cp_configMapName (wi_cm example_wiring)) = Inr cm"
    by (auto simp: config_shown_def get_content_def cm_Get_def split: sum.splits)
  have reads: "viper_reads (wi_encode example_wiring) ?read_text ?unmarshal (\<lambda>raw. raw) (Workloads (p_state p'))"
    by (simp add: viper_reads_def w)
  have merge: "merge_law ?unmarshal (\<lambda>raw. raw)"
    by (auto simp: merge_law_def map_add_def split: option.split)
  have plain: "plain_key (as_setName (p_state example_pool))" by code_simp
  have jobs: "part_of (as_jobs (p_state example_pool)) 3 2 = [Job ''c'']" by code_simp
  have host: "HostName (\<lambda>v. ''w-2'') DefaultHostName = worker_name (as_setName (p_state example_pool)) 2"
    by code_simp
  have rd: "(\<lambda>path name. ?read_text (config_text cm)) ''path'' ''config.yml'' = ?read_text (config_text cm)"
    by simp
  obtain cfg' v where r: "updateWorkloadFromConfig (\<lambda>path name. ?read_text (config_text cm)) ?unmarshal
      (\<lambda>c. []) (\<lambda>v. ''w-2'') ''path'' ''config.yml'' (?cfg, NewApp) =
      Inr ((cfg', Some (case NewApp of None \<Rightarrow> v | Some u \<Rightarrow> u)), None)"
    "wl_jobs v = part_of (as_jobs (p_state example_pool)) 3 2" "wc_Version cfg' = p_version p'"
    using assignation_reaches_worker [where read_config = "\<lambda>path name. ?read_text (config_text cm)"
        and show_config = "\<lambda>c. []" and cfg = ?cfg and a = NewApp and path = "''path''"
        and name = "''config.yml''",
        OF example_wiring_ok example_pool_ok(1,2) range_order_rev ne u cm rd reads merge plain _ _ host]
    by auto
  have "p_version p' = 2"
    by (rule update_published [OF example_pool_ok(1,2) range_order_rev ne u(1)]) (simp add: example_pool_def)
  moreover have "(case NewApp of None \<Rightarrow> v | Some u \<Rightarrow> u) = v" by (simp add: NewApp_def)
  ultimately show ?thesis using r jobs by (intro exI conjI) (auto simp only:)
qed

end
